(* ===== verification/MeshPrelude.thy ===== *)
theory MeshPrelude
  imports Main "HOL-Library.Word" "HOL-Library.Char_ord"
begin

text \<open>
  Shared vocabulary of the development: the error codes of the mesh and the result type every
  fallible operation returns, the byte-string helpers the parsers use (a Rust \<open>String\<close> is a
  list of bytes here, so \<open>length\<close> counts what \<open>len()\<close> counts), decimal rendering and
  reading, saturating \<open>i64\<close> addition, and the \<open>text_codec\<close> interface that every
  \<open>as_str\<close>/\<open>parse\<close> pair of the program satisfies.
\<close>

named_theorems mesh_defs \<open>definitions unfolded when an operation is analysed\<close>
named_theorems codec_simps \<open>spelling and reading of enumerations\<close>

section \<open>Errors\<close>

text \<open>
  \<open>ErrorCode\<close>. An error of the program carries a code, which is its contract, and a message for
  people; the model keeps the code (and, where the code returns them, the candidate selectors).
\<close>

datatype error_code =
    AgentNotFound | AgentAmbiguous | IdempotencyConflict | MailboxFull | ClaimLost
  | NotAuthorized | InvalidRequest | EndpointLimit | NotFound | AlreadyResponded | ExpiredError
  | SchemaMismatch | StoreCorrupt | PolicyRefused | RateLimited | PeerMismatch | PeerRetired
  | PeerUnreachable | FileDropUnavailable | AttachmentMismatch | IoError

type_synonym 'a result = "error_code + 'a"

fun error_code_str :: "error_code \<Rightarrow> string" where
  "error_code_str AgentNotFound = ''agent_not_found''"
| "error_code_str AgentAmbiguous = ''agent_ambiguous''"
| "error_code_str IdempotencyConflict = ''idempotency_conflict''"
| "error_code_str MailboxFull = ''mailbox_full''"
| "error_code_str ClaimLost = ''claim_lost''"
| "error_code_str NotAuthorized = ''not_authorized''"
| "error_code_str InvalidRequest = ''invalid_request''"
| "error_code_str EndpointLimit = ''endpoint_limit''"
| "error_code_str NotFound = ''not_found''"
| "error_code_str AlreadyResponded = ''already_responded''"
| "error_code_str ExpiredError = ''expired''"
| "error_code_str SchemaMismatch = ''schema_mismatch''"
| "error_code_str StoreCorrupt = ''store_corrupt''"
| "error_code_str PolicyRefused = ''policy_refused''"
| "error_code_str RateLimited = ''rate_limited''"
| "error_code_str PeerMismatch = ''peer_mismatch''"
| "error_code_str PeerRetired = ''peer_retired''"
| "error_code_str PeerUnreachable = ''peer_unreachable''"
| "error_code_str FileDropUnavailable = ''file_drop_unavailable''"
| "error_code_str AttachmentMismatch = ''attachment_mismatch''"
| "error_code_str IoError = ''io''"

text \<open>The early return \<open>?\<close> of Rust on the sum type.\<close>

fun and_then :: "'a result \<Rightarrow> ('a \<Rightarrow> 'b result) \<Rightarrow> 'b result" where
  "and_then (Inl e) f = Inl e"
| "and_then (Inr x) f = f x"

definition is_ok :: "'a result \<Rightarrow> bool" where
  "is_ok r = (case r of Inl _ \<Rightarrow> False | Inr _ \<Rightarrow> True)"

definition ok :: "'a result \<Rightarrow> 'a option" where
  "ok r = (case r of Inl _ \<Rightarrow> None | Inr x \<Rightarrow> Some x)"

lemma is_ok_simps [simp]: "is_ok (Inr x)" "\<not> is_ok (Inl e)"
  by (simp_all add: is_ok_def)

lemma ok_simps [simp]: "ok (Inr x) = Some x" "ok (Inl e) = None"
  by (simp_all add: ok_def)

lemma ok_eq_Some_iff: "ok r = Some x \<longleftrightarrow> r = Inr x"
  by (cases r) auto

lemma ok_eq_None_iff: "ok r = None \<longleftrightarrow> (\<exists>e. r = Inl e)"
  by (cases r) auto

lemma is_ok_iff: "is_ok r \<longleftrightarrow> (\<exists>x. r = Inr x)"
  by (cases r) auto

lemma and_then_eq_Inr_iff: "and_then r f = Inr y \<longleftrightarrow> (\<exists>x. r = Inr x \<and> f x = Inr y)"
  by (cases r) auto

section \<open>Bytes\<close>

definition byte :: "char \<Rightarrow> nat" where
  "byte c = of_char c"

definition is_ascii_lowercase :: "char \<Rightarrow> bool" where
  "is_ascii_lowercase c \<longleftrightarrow> 97 \<le> byte c \<and> byte c \<le> 122"

definition is_ascii_uppercase :: "char \<Rightarrow> bool" where
  "is_ascii_uppercase c \<longleftrightarrow> 65 \<le> byte c \<and> byte c \<le> 90"

definition is_ascii_digit :: "char \<Rightarrow> bool" where
  "is_ascii_digit c \<longleftrightarrow> 48 \<le> byte c \<and> byte c \<le> 57"

definition is_ascii_alphabetic :: "char \<Rightarrow> bool" where
  "is_ascii_alphabetic c \<longleftrightarrow> is_ascii_lowercase c \<or> is_ascii_uppercase c"

definition is_ascii_hexdigit :: "char \<Rightarrow> bool" where
  "is_ascii_hexdigit c \<longleftrightarrow> is_ascii_digit c \<or> (97 \<le> byte c \<and> byte c \<le> 102)
     \<or> (65 \<le> byte c \<and> byte c \<le> 70)"

text \<open>The control bytes a reference or a label may not hold: C0 and DEL.\<close>

definition control_byte :: "char \<Rightarrow> bool" where
  "control_byte c \<longleftrightarrow> byte c < 32 \<or> byte c = 127"

text \<open>
  \<open>chars().any(char::is_control)\<close> on the UTF-8 bytes of a string: C0, DEL and the C1 controls
  U+0080 to U+009F, which UTF-8 writes as \<open>C2 80\<close> to \<open>C2 9F\<close> (the byte \<open>C2\<close> is
  never a continuation byte).
\<close>

fun has_control :: "string \<Rightarrow> bool" where
  "has_control [] = False"
| "has_control (c # cs) =
     (control_byte c
      \<or> (byte c = 194 \<and> (case cs of [] \<Rightarrow> False | d # _ \<Rightarrow> 128 \<le> byte d \<and> byte d \<le> 159))
      \<or> has_control cs)"

lemmas byte_class_defs = byte_def is_ascii_lowercase_def is_ascii_uppercase_def is_ascii_digit_def
  is_ascii_alphabetic_def is_ascii_hexdigit_def control_byte_def

lemma byte_less_256 [simp]: "byte c < 256"
  by (simp add: byte_def)

lemma byte_inject: "byte c = byte d \<longleftrightarrow> c = d"
  by (simp add: byte_def)

lemma byte_zero_iff: "byte c = 48 \<longleftrightarrow> c = CHR ''0''"
  using byte_inject [of c "CHR ''0''"] by (simp add: byte_def)

lemma byte_char_of [simp]: "n < 256 \<Longrightarrow> byte (char_of n) = n"
  by (simp add: byte_def)

section \<open>Prefixes and splits\<close>

definition strip_prefix :: "string \<Rightarrow> string \<Rightarrow> string option" where
  "strip_prefix p s = (if take (length p) s = p then Some (drop (length p) s) else None)"

text \<open>\<open>split_once\<close>: the parts before and after the first occurrence of a byte.\<close>

fun split_once :: "char \<Rightarrow> string \<Rightarrow> (string \<times> string) option" where
  "split_once c [] = None"
| "split_once c (d # ds) =
     (if d = c then Some ([], ds)
      else map_option (\<lambda>(a, b). (d # a, b)) (split_once c ds))"

text \<open>\<open>rsplit_once\<close>: the parts before and after the last occurrence.\<close>

definition rsplit_once :: "char \<Rightarrow> string \<Rightarrow> (string \<times> string) option" where
  "rsplit_once c s = map_option (\<lambda>(a, b). (rev b, rev a)) (split_once c (rev s))"

lemma strip_prefix_append [simp]: "strip_prefix p (p @ s) = Some s"
  by (simp add: strip_prefix_def)

lemma strip_prefix_Some_iff: "strip_prefix p s = Some r \<longleftrightarrow> s = p @ r"
  by (auto simp: strip_prefix_def) (metis append_take_drop_id)

lemma split_once_append: "c \<notin> set a \<Longrightarrow> split_once c (a @ c # b) = Some (a, b)"
  by (induction a) auto

lemma split_once_SomeD: "split_once c s = Some (a, b) \<Longrightarrow> s = a @ c # b \<and> c \<notin> set a"
  by (induction s arbitrary: a b) (auto split: if_splits)

lemma split_once_None_iff: "split_once c s = None \<longleftrightarrow> c \<notin> set s"
  by (induction s) auto

section \<open>Decimal numbers\<close>

fun dec :: "nat \<Rightarrow> string" where
  "dec n = (if n < 10 then [char_of (48 + n)] else dec (n div 10) @ [char_of (48 + n mod 10)])"

declare dec.simps [simp del]

definition digit_val :: "char \<Rightarrow> nat" where
  "digit_val c = byte c - 48"

definition digits_val :: "string \<Rightarrow> nat" where
  "digits_val ds = foldl (\<lambda>acc c. 10 * acc + digit_val c) 0 ds"

lemma digits_val_Nil [simp]: "digits_val [] = 0"
  by (simp add: digits_val_def)

lemma digits_val_snoc [simp]: "digits_val (ds @ [c]) = 10 * digits_val ds + digit_val c"
  by (simp add: digits_val_def)

lemma digit_char [simp]: "n < 10 \<Longrightarrow> is_ascii_digit (char_of (48 + n))"
  "n < 10 \<Longrightarrow> digit_val (char_of (48 + n)) = n"
  by (simp_all add: is_ascii_digit_def digit_val_def)

lemma digits_val_dec [simp]: "digits_val (dec n) = n"
proof (induction n rule: dec.induct)
  case (1 n)
  show ?case
  proof (cases "n < 10")
    case True
    then show ?thesis
      using digits_val_snoc [of "[]"] by (subst dec.simps) simp
  next
    case False
    with 1 show ?thesis by (subst dec.simps) simp
  qed
qed

lemma dec_digits: "\<forall>c \<in> set (dec n). is_ascii_digit c"
proof (induction n rule: dec.induct)
  case (1 n)
  then show ?case by (subst dec.simps) auto
qed

lemma dec_not_Nil [simp]: "dec n \<noteq> []"
  by (subst dec.simps) simp

lemma dec_no_leading_zero: "n > 0 \<Longrightarrow> byte (hd (dec n)) \<noteq> 48"
proof (induction n rule: dec.induct)
  case (1 n)
  then show ?case by (subst dec.simps) auto
qed

lemma dec_length: "n < 10 ^ Suc k \<Longrightarrow> length (dec n) \<le> Suc k"
proof (induction k arbitrary: n)
  case 0
  then show ?case by (subst dec.simps) simp
next
  case (Suc k)
  from Suc.prems have "n div 10 < 10 ^ Suc k" by auto
  from Suc.IH [OF this] show ?case by (subst dec.simps) simp
qed

lemma digit_char_val: "is_ascii_digit c \<Longrightarrow> char_of (48 + digit_val c) = c"
  by (simp add: is_ascii_digit_def digit_val_def byte_def)

lemma digit_val_less: "is_ascii_digit c \<Longrightarrow> digit_val c < 10"
  by (simp add: is_ascii_digit_def digit_val_def) linarith

text \<open>A digit run without a leading zero is the rendering of its value.\<close>

lemma digits_val_pos:
  "ds \<noteq> [] \<Longrightarrow> \<forall>c \<in> set ds. is_ascii_digit c \<Longrightarrow> byte (hd ds) \<noteq> 48 \<Longrightarrow> digits_val ds > 0"
proof (induction ds rule: rev_induct)
  case Nil
  then show ?case by simp
next
  case (snoc c ds)
  show ?case
  proof (cases "ds = []")
    case True
    with snoc.prems show ?thesis
      by (simp add: digits_val_def digit_val_def is_ascii_digit_def)
  next
    case False
    with snoc show ?thesis by simp
  qed
qed

lemma dec_digits_val:
  assumes "ds \<noteq> []" "\<forall>c \<in> set ds. is_ascii_digit c" "length ds > 1 \<longrightarrow> byte (hd ds) \<noteq> 48"
  shows "dec (digits_val ds) = ds"
  using assms
proof (induction ds rule: rev_induct)
  case Nil
  then show ?case by simp
next
  case (snoc c ds)
  have c: "digit_val c < 10" "char_of (48 + digit_val c) = c"
    using snoc.prems by (auto intro: digit_val_less digit_char_val)
  show ?case
  proof (cases "ds = []")
    case True
    with c show ?thesis by (subst dec.simps) (simp add: digits_val_def)
  next
    case False
    with snoc.prems have hd: "byte (hd ds) \<noteq> 48" by simp
    with False snoc.prems have "digits_val ds > 0" by (intro digits_val_pos) auto
    moreover have "dec (digits_val ds) = ds"
      using snoc.IH snoc.prems False hd by auto
    ultimately show ?thesis using c by (subst dec.simps) simp
  qed
qed

section \<open>64-bit arithmetic\<close>

definition i64_max :: int where "i64_max = 2 ^ 63 - 1"

definition i64_min :: int where "i64_min = - (2 ^ 63)"

definition saturating_add :: "int \<Rightarrow> int \<Rightarrow> int" where
  "saturating_add a b = max i64_min (min i64_max (a + b))"

definition u32_max :: nat where "u32_max = 2 ^ 32 - 1"

text \<open>\<open>u32::try_from(count).unwrap_or(u32::MAX)\<close> for a count of rows.\<close>

definition u32_count :: "nat \<Rightarrow> nat" where
  "u32_count n = min n u32_max"

type_synonym u32 = "32 word"

lemma unat_u32_le: "unat (w :: u32) \<le> u32_max"
proof -
  have "unat w < 2 ^ LENGTH(32)" by (rule unsigned_less)
  then show ?thesis by (simp add: u32_max_def)
qed

lemma unat_of_nat_u32: "n \<le> u32_max \<Longrightarrow> unat (of_nat n :: u32) = n"
  by (simp add: u32_max_def unsigned_of_nat take_bit_nat_eq_self)

section \<open>Names written and read back\<close>

text \<open>
  The interface of every \<open>as_str\<close>/\<open>parse\<close> pair: a well-formed value reads back from its own
  spelling. A strict codec also accepts no other spelling.
\<close>

locale text_codec =
  fixes render :: "'a \<Rightarrow> string"
    and reader :: "string \<Rightarrow> 'a result"
    and wf :: "'a \<Rightarrow> bool"
  assumes reader_render: "wf x \<Longrightarrow> reader (render x) = Inr x"
begin

lemma render_inject: "wf x \<Longrightarrow> wf y \<Longrightarrow> render x = render y \<Longrightarrow> x = y"
  by (metis reader_render sum.inject(2))

lemma column_roundtrip: "pred_option wf v \<Longrightarrow> map_option (\<lambda>s. ok (reader s)) (map_option render v) = map_option Some v"
  by (cases v) (simp_all add: reader_render)

end

locale strict_codec = text_codec +
  assumes reader_wf: "reader s = Inr x \<Longrightarrow> wf x"
    and reader_exact: "reader s = Inr x \<Longrightarrow> render x = s"
begin

lemma reader_iff: "reader s = Inr x \<longleftrightarrow> wf x \<and> s = render x"
  using reader_render reader_wf reader_exact by blast

lemma reader_inject: "reader s = Inr x \<Longrightarrow> reader t = Inr x \<Longrightarrow> s = t"
  by (metis reader_exact)

lemma refused_iff: "(\<exists>e. reader s = Inl e) \<longleftrightarrow> s \<notin> render ` {x. wf x}"
proof (cases "reader s")
  case (Inl e)
  then have "s \<noteq> render x" if "wf x" for x
    using reader_render [OF that] by auto
  with Inl show ?thesis by auto
next
  case (Inr x)
  then have "wf x" "s = render x" by (simp_all add: reader_iff)
  with Inr show ?thesis by auto
qed

end

section \<open>Machines\<close>

text \<open>The interface of a machine with an invariant, and of one whose steps only advance an order.\<close>

locale machine =
  fixes step :: "'s \<Rightarrow> 's \<Rightarrow> bool" and init :: "'s \<Rightarrow> bool" and inv :: "'s \<Rightarrow> bool"
  assumes init_inv: "init s \<Longrightarrow> inv s"
    and step_inv: "inv s \<Longrightarrow> step s t \<Longrightarrow> inv t"
begin

lemma run_inv: "step\<^sup>*\<^sup>* s t \<Longrightarrow> inv s \<Longrightarrow> inv t"
  by (induction rule: rtranclp_induct) (auto intro: step_inv)

lemma reachable_inv: "init s \<Longrightarrow> step\<^sup>*\<^sup>* s t \<Longrightarrow> inv t"
  using run_inv init_inv by blast

end

locale advancing_machine = machine +
  fixes le :: "'s \<Rightarrow> 's \<Rightarrow> bool"
  assumes le_refl: "le s s" and le_trans: "le s t \<Longrightarrow> le t u \<Longrightarrow> le s u"
    and step_le: "inv s \<Longrightarrow> step s t \<Longrightarrow> le s t"
begin

lemma run_le: "step\<^sup>*\<^sup>* s t \<Longrightarrow> inv s \<Longrightarrow> le s t"
proof (induction rule: rtranclp_induct)
  case base
  show ?case by (rule le_refl)
next
  case (step t u)
  then show ?case using run_inv step_le le_trans by blast
qed

end

end
