(* ===== verification/MeshAddress.thy ===== *)
theory MeshAddress
  imports MeshPrelude
begin

text \<open>
  Positional addresses (\<open>agent-mesh-core/src/address.rs\<close>): levels in containment order,
  segments, the checked constructor, the parser and its printer, wildcard matching, the shared
  prefix used to prefer a neighbourhood, the anchor that survives a move, and joining a nested
  runtime's levels onto its host's.
\<close>

section \<open>Levels and segments\<close>

datatype level = Space | Tab | Window | Frame | Pane

fun discriminant :: "level \<Rightarrow> nat" where
  "discriminant Space = 0"
| "discriminant Tab = 1"
| "discriminant Window = 2"
| "discriminant Frame = 3"
| "discriminant Pane = 4"

instantiation level :: linorder
begin

definition less_eq_level :: "level \<Rightarrow> level \<Rightarrow> bool" where
  "l \<le> m \<longleftrightarrow> discriminant l \<le> discriminant m"

definition less_level :: "level \<Rightarrow> level \<Rightarrow> bool" where
  "l < m \<longleftrightarrow> discriminant l < discriminant m"

instance
proof
  fix x y z :: level
  show "(x < y) = (x \<le> y \<and> \<not> y \<le> x)" by (auto simp: less_level_def less_eq_level_def)
  show "x \<le> x" by (simp add: less_eq_level_def)
  show "x \<le> y \<Longrightarrow> y \<le> z \<Longrightarrow> x \<le> z" by (simp add: less_eq_level_def)
  show "x \<le> y \<Longrightarrow> y \<le> x \<Longrightarrow> x = y" by (cases x; cases y) (simp_all add: less_eq_level_def)
  show "x \<le> y \<or> y \<le> x" by (auto simp: less_eq_level_def)
qed

end

definition LEVELS :: "level list" where
  "LEVELS = [Space, Tab, Window, Frame, Pane]"

fun letter :: "level \<Rightarrow> char" where
  "letter Space = CHR ''s''"
| "letter Tab = CHR ''t''"
| "letter Window = CHR ''w''"
| "letter Frame = CHR ''f''"
| "letter Pane = CHR ''p''"

definition from_letter :: "char \<Rightarrow> level option" where
  "from_letter c =
     (if c = CHR ''s'' then Some Space
      else if c = CHR ''t'' then Some Tab
      else if c = CHR ''w'' then Some Window
      else if c = CHR ''f'' then Some Frame
      else if c = CHR ''p'' then Some Pane
      else None)"

definition is_instance_unique :: "level \<Rightarrow> bool" where
  "is_instance_unique l \<longleftrightarrow> l \<noteq> Tab"

lemma from_letter_letter [simp]: "from_letter (letter l) = Some l"
  by (cases l) (simp_all add: from_letter_def)

lemma from_letter_SomeD: "from_letter c = Some l \<Longrightarrow> c = letter l"
  by (auto simp: from_letter_def split: if_splits)

lemma letter_not_digit [simp]: "\<not> is_ascii_digit (letter l)"
  by (cases l) (simp_all add: is_ascii_digit_def byte_def)

record segment =
  seg_level :: level
  seg_index :: u32

section \<open>Addresses\<close>

text \<open>
  \<open>Address\<close> is the list of its segments; \<open>Address::new\<close> is the only way the code builds a
  non-empty one, so \<open>wf_address\<close> holds of every address of the program.
\<close>

type_synonym address = "segment list"

fun check_segments :: "level option \<Rightarrow> segment list \<Rightarrow> unit result" where
  "check_segments previous [] = Inr ()"
| "check_segments lst (s # ss) =
     (if seg_index s = 0 then Inl InvalidRequest
      else if (case lst of Some previous \<Rightarrow> seg_level s \<le> previous | None \<Rightarrow> False)
        then Inl InvalidRequest
      else check_segments (Some (seg_level s)) ss)"

definition address_new :: "segment list \<Rightarrow> address result" where
  "address_new ss = and_then (check_segments None ss) (\<lambda>_. Inr ss)"

definition wf_address :: "address \<Rightarrow> bool" where
  "wf_address a \<longleftrightarrow> sorted_wrt (<) (map seg_level a) \<and> (\<forall>s \<in> set a. seg_index s \<noteq> 0)"

definition MAX_ADDRESS_BYTES :: nat where "MAX_ADDRESS_BYTES = 64"

function parse_segments :: "string \<Rightarrow> segment list result" where
  "parse_segments [] = Inr []"
| "parse_segments (c # cs) =
     (case from_letter c of
        None \<Rightarrow> Inl InvalidRequest
      | Some l \<Rightarrow>
          (let ds = takeWhile is_ascii_digit cs; rest = dropWhile is_ascii_digit cs in
           if ds = [] then Inl InvalidRequest
           else if length ds > 1 \<and> hd ds = CHR ''0'' then Inl InvalidRequest
           else if digits_val ds > u32_max then Inl InvalidRequest
           else and_then (parse_segments rest)
                  (\<lambda>ss. Inr (\<lparr>seg_level = l, seg_index = of_nat (digits_val ds)\<rparr> # ss))))"
  by pat_completeness auto
termination
  by (relation "measure length") (auto simp: le_imp_less_Suc length_dropWhile_le)

declare parse_segments.simps(2) [simp del]

definition address_parse :: "string \<Rightarrow> address result" where
  "address_parse s =
     (if s = [] then Inl InvalidRequest
      else if length s > MAX_ADDRESS_BYTES then Inl InvalidRequest
      else and_then (parse_segments s) address_new)"

definition segment_str :: "segment \<Rightarrow> string" where
  "segment_str s = letter (seg_level s) # dec (unat (seg_index s))"

definition address_str :: "address \<Rightarrow> string" where
  "address_str a = concat (map segment_str a)"

definition address_get :: "address \<Rightarrow> level \<Rightarrow> u32 option" where
  "address_get a l = map_option seg_index (List.find (\<lambda>s. seg_level s = l) a)"

definition depth :: "address \<Rightarrow> level option" where
  "depth a = (if a = [] then None else Some (seg_level (last a)))"

definition satisfies :: "address \<Rightarrow> address \<Rightarrow> bool" where
  "satisfies a pattern \<longleftrightarrow> (\<forall>w \<in> set pattern. address_get a (seg_level w) = Some (seg_index w))"

fun agree_upto :: "level list \<Rightarrow> address \<Rightarrow> address \<Rightarrow> nat" where
  "agree_upto [] a b = 0"
| "agree_upto (l # ls) a b =
     (case (address_get a l, address_get b l) of
        (Some i, Some j) \<Rightarrow> if i = j then Suc (agree_upto ls a b) else 0
      | _ \<Rightarrow> 0)"

definition shared_prefix :: "address \<Rightarrow> address \<Rightarrow> nat" where
  "shared_prefix a b = agree_upto LEVELS a b"

definition stable_anchor :: "address \<Rightarrow> segment option" where
  "stable_anchor a =
     List.find (\<lambda>s. is_instance_unique (seg_level s) \<and> seg_level s \<noteq> Space) (rev a)"

definition address_join :: "address \<Rightarrow> address \<Rightarrow> address result" where
  "address_join prefix suffix =
     (if suffix \<noteq> [] \<and> prefix \<noteq> [] \<and> seg_level (hd suffix) \<le> seg_level (last prefix)
      then Inl InvalidRequest
      else address_new (prefix @ suffix))"

section \<open>The checked constructor\<close>

lemma check_segments_ok_iff:
  "check_segments lst ss = Inr () \<longleftrightarrow>
     (\<forall>l. lst = Some l \<longrightarrow> (\<forall>s \<in> set ss. l < seg_level s)) \<and> wf_address ss"
proof (induction lst ss rule: check_segments.induct)
  case (1 lst)
  then show ?case by (simp add: wf_address_def)
next
  case (2 lst s ss)
  then show ?case
    by (auto simp: wf_address_def not_le dest: less_trans split: option.splits)
qed

lemma address_new_Inr_iff: "address_new ss = Inr a \<longleftrightarrow> wf_address ss \<and> a = ss"
proof -
  have "address_new ss = Inr a \<longleftrightarrow> check_segments None ss = Inr () \<and> a = ss"
    by (auto simp: address_new_def and_then_eq_Inr_iff)
  then show ?thesis by (simp add: check_segments_ok_iff)
qed

lemma wf_address_Nil [simp]: "wf_address []"
  by (simp add: wf_address_def)

lemma wf_address_Cons_iff:
  "wf_address (s # ss) \<longleftrightarrow> seg_index s \<noteq> 0 \<and> (\<forall>t \<in> set ss. seg_level s < seg_level t) \<and> wf_address ss"
  by (auto simp: wf_address_def)

lemma wf_address_append_iff:
  "wf_address (a @ b) \<longleftrightarrow> wf_address a \<and> wf_address b \<and>
     (\<forall>s \<in> set a. \<forall>t \<in> set b. seg_level s < seg_level t)"
  by (auto simp: wf_address_def sorted_wrt_append)

lemma wf_address_length: "wf_address a \<Longrightarrow> length a \<le> 5"
proof -
  assume "wf_address a"
  then have "distinct (map seg_level a)"
    by (auto simp: wf_address_def strict_sorted_iff)
  moreover have "set (map seg_level a) \<subseteq> set LEVELS"
    by (auto simp: LEVELS_def intro: level.exhaust)
  ultimately have "card (set (map seg_level a)) = length a" "card (set (map seg_level a)) \<le> card (set LEVELS)"
    using distinct_card card_mono [of "set LEVELS"] by fastforce+
  then show ?thesis by (simp add: LEVELS_def)
qed

section \<open>Reading a level\<close>

lemma address_get_Some_iff:
  "wf_address a \<Longrightarrow> address_get a l = Some i \<longleftrightarrow> \<lparr>seg_level = l, seg_index = i\<rparr> \<in> set a"
proof (induction a)
  case Nil
  then show ?case by (simp add: address_get_def)
next
  case (Cons s ss)
  then show ?case by (cases s) (auto simp: address_get_def wf_address_Cons_iff)
qed

lemma address_get_None_iff: "address_get a l = None \<longleftrightarrow> (\<forall>s \<in> set a. seg_level s \<noteq> l)"
  by (auto simp: address_get_def find_None_iff)

lemma address_get_segment_iff:
  "wf_address a \<Longrightarrow> address_get a (seg_level w) = Some (seg_index w) \<longleftrightarrow> w \<in> set a"
  by (cases w) (simp add: address_get_Some_iff)

lemma satisfies_iff_subset: "wf_address a \<Longrightarrow> satisfies a p \<longleftrightarrow> set p \<subseteq> set a"
  by (auto simp: satisfies_def address_get_segment_iff)

lemma satisfies_refl: "wf_address a \<Longrightarrow> satisfies a a"
  by (simp add: satisfies_iff_subset)

lemma satisfies_Nil [simp]: "satisfies a []"
  by (simp add: satisfies_def)

section \<open>Printing and reading back\<close>

lemma segment_str_scan:
  assumes "seg_index s \<noteq> 0" and "\<forall>c cs. rest = c # cs \<longrightarrow> \<not> is_ascii_digit c"
  shows "parse_segments (segment_str s @ rest) = and_then (parse_segments rest) (\<lambda>ss. Inr (s # ss))"
proof -
  let ?n = "unat (seg_index s)"
  have pos: "?n > 0" using assms(1) by (simp add: unat_gt_0)
  have take: "takeWhile is_ascii_digit (dec ?n @ rest) = dec ?n"
    using assms(2) dec_digits [of ?n] by (cases rest) (auto simp: takeWhile_append)
  have drop: "dropWhile is_ascii_digit (dec ?n @ rest) = rest"
    using assms(2) dec_digits [of ?n] by (cases rest) (auto simp: dropWhile_append)
  have bound: "\<not> ?n > u32_max"
    using unat_u32_le [of "seg_index s"] by simp
  have hd: "hd (dec ?n) \<noteq> CHR ''0''"
    using dec_no_leading_zero [OF pos] by (auto simp: byte_def)
  show ?thesis
    using take drop bound hd
    by (cases s) (simp add: segment_str_def parse_segments.simps(2) Let_def)
qed

lemma address_str_head: "address_str a = c # cs \<Longrightarrow> \<not> is_ascii_digit c"
  by (cases a) (auto simp: address_str_def segment_str_def)

lemma parse_segments_str: "wf_address a \<Longrightarrow> parse_segments (address_str a) = Inr a"
proof (induction a)
  case Nil
  then show ?case by (simp add: address_str_def)
next
  case (Cons s ss)
  then have "parse_segments (segment_str s @ address_str ss) = Inr (s # ss)"
    using segment_str_scan [of s "address_str ss"] address_str_head
    by (auto simp: wf_address_Cons_iff)
  then show ?case by (simp add: address_str_def)
qed

lemma segment_str_length: "length (segment_str s) \<le> 11"
proof -
  have "unat (seg_index s) < 10 ^ Suc 9"
    using unat_u32_le [of "seg_index s"] by (simp add: u32_max_def)
  from dec_length [OF this] show ?thesis by (simp add: segment_str_def)
qed

lemma address_str_length: "length (address_str a) \<le> 11 * length a"
proof (induction a)
  case Nil
  then show ?case by (simp add: address_str_def)
next
  case (Cons s ss)
  then show ?case using segment_str_length [of s] by (simp add: address_str_def)
qed

lemma address_str_fits: "wf_address a \<Longrightarrow> length (address_str a) \<le> 55"
  using address_str_length [of a] wf_address_length [of a] by linarith

lemma address_str_eq_Nil [simp]: "address_str a = [] \<longleftrightarrow> a = []"
  by (cases a) (auto simp: address_str_def segment_str_def)

lemma parse_segments_exact: "parse_segments s = Inr a \<Longrightarrow> address_str a = s"
proof (induction s arbitrary: a rule: parse_segments.induct)
  case 1
  then show ?case by (simp add: address_str_def)
next
  case (2 c cs)
  let ?ds = "takeWhile is_ascii_digit cs" and ?rest = "dropWhile is_ascii_digit cs"
  from "2.prems" obtain l where l: "from_letter c = Some l"
    by (auto simp: parse_segments.simps(2) split: option.splits)
  from "2.prems" l have nz: "?ds \<noteq> []" "\<not> (length ?ds > 1 \<and> hd ?ds = CHR ''0'')"
      "\<not> digits_val ?ds > u32_max"
    by (auto simp: parse_segments.simps(2) Let_def split: if_splits)
  with "2.prems" l obtain ss where ss: "parse_segments ?rest = Inr ss"
    and a: "a = \<lparr>seg_level = l, seg_index = of_nat (digits_val ?ds)\<rparr> # ss"
    by (auto simp: parse_segments.simps(2) Let_def and_then_eq_Inr_iff split: if_splits)
  have IH: "address_str ss = ?rest"
    by (rule "2.IH" [OF l refl refl]) (use nz ss in auto)
  have "unat (of_nat (digits_val ?ds) :: u32) = digits_val ?ds"
    using nz(3) by (intro unat_of_nat_u32) simp
  moreover have "dec (digits_val ?ds) = ?ds"
    using nz by (intro dec_digits_val) (auto dest: set_takeWhileD simp: byte_zero_iff)
  ultimately have "segment_str \<lparr>seg_level = l, seg_index = of_nat (digits_val ?ds)\<rparr> = c # ?ds"
    using from_letter_SomeD [OF l] by (simp add: segment_str_def)
  with IH a show ?case by (simp add: address_str_def)
qed

interpretation address_codec: strict_codec address_str address_parse "\<lambda>a. wf_address a \<and> a \<noteq> []"
proof
  fix a :: address
  assume "wf_address a \<and> a \<noteq> []"
  then show "address_parse (address_str a) = Inr a"
    using address_str_fits [of a]
    by (simp add: address_parse_def MAX_ADDRESS_BYTES_def parse_segments_str address_new_Inr_iff)
next
  fix s a
  assume "address_parse s = Inr a"
  then have p: "parse_segments s = Inr a" "wf_address a" "s \<noteq> []"
    by (auto simp: address_parse_def and_then_eq_Inr_iff address_new_Inr_iff split: if_splits)
  then show "address_str a = s" by (simp add: parse_segments_exact)
  with p show "wf_address a \<and> a \<noteq> []" by auto
qed

text \<open>C32. \<open>Address::parse\<close> accepts exactly the printed form of the well-formed, non-empty addresses
  (levels in containment order without repeats, indices non-zero 32-bit numbers without leading
  zeros), and reads it back as that address: every other string is refused, no address has two
  spellings, and the 64-byte cap never cuts a legal address off.\<close>

theorem address_parse_iff:
  "address_parse s = Inr a \<longleftrightarrow> wf_address a \<and> a \<noteq> [] \<and> s = address_str a"
  using address_codec.reader_iff by blast

section \<open>Neighbourhoods, anchors and nesting\<close>

definition agree_at :: "address \<Rightarrow> address \<Rightarrow> level \<Rightarrow> bool" where
  "agree_at a b l \<longleftrightarrow> (\<exists>i. address_get a l = Some i \<and> address_get b l = Some i)"

lemma agree_upto_eq: "agree_upto ls a b = length (takeWhile (agree_at a b) ls)"
  by (induction ls) (auto simp: agree_at_def split: option.splits)

lemma agree_at_sym: "agree_at a b = agree_at b a"
  by (auto simp: agree_at_def fun_eq_iff)

lemma shared_prefix_sym: "shared_prefix a b = shared_prefix b a"
  unfolding shared_prefix_def agree_upto_eq by (subst agree_at_sym) (rule refl)

lemma shared_prefix_le: "shared_prefix a b \<le> 5"
proof -
  have "shared_prefix a b \<le> length LEVELS"
    unfolding shared_prefix_def agree_upto_eq by (rule length_takeWhile_le)
  then show ?thesis by (simp add: LEVELS_def)
qed

lemma shared_prefix_agree: "i < shared_prefix a b \<Longrightarrow> agree_at a b (LEVELS ! i)"
  unfolding shared_prefix_def agree_upto_eq using nth_length_takeWhile set_takeWhileD
  by (metis nth_mem takeWhile_nth)

lemma shared_prefix_stop: "shared_prefix a b < 5 \<Longrightarrow> \<not> agree_at a b (LEVELS ! shared_prefix a b)"
  unfolding shared_prefix_def agree_upto_eq
  by (rule nth_length_takeWhile) (simp add: LEVELS_def)

lemma shared_prefix_ge_iff:
  "k \<le> 5 \<Longrightarrow> k \<le> shared_prefix a b \<longleftrightarrow> (\<forall>l \<in> set (take k LEVELS). agree_at a b l)"
proof
  assume "k \<le> 5" "k \<le> shared_prefix a b"
  then show "\<forall>l \<in> set (take k LEVELS). agree_at a b l"
    using shared_prefix_agree by (fastforce simp: in_set_conv_nth)
next
  assume k: "k \<le> 5" and all: "\<forall>l \<in> set (take k LEVELS). agree_at a b l"
  show "k \<le> shared_prefix a b"
  proof (rule ccontr)
    assume "\<not> k \<le> shared_prefix a b"
    then have less: "shared_prefix a b < k" by simp
    then have "LEVELS ! shared_prefix a b \<in> set (take k LEVELS)"
      using k by (auto simp: in_set_conv_nth LEVELS_def intro!: exI [of _ "shared_prefix a b"])
    with all less k show False using shared_prefix_stop [of a b] by auto
  qed
qed

lemma find_rev_filter: "List.find P (rev a) = (if filter P a = [] then None else Some (last (filter P a)))"
proof -
  have "List.find P xs = (case filter P xs of [] \<Rightarrow> None | x # _ \<Rightarrow> Some x)" for xs
    by (induction xs) auto
  then show ?thesis
    by (cases "filter P a" rule: rev_cases) (auto simp: rev_filter [symmetric])
qed

definition stable_segment :: "segment \<Rightarrow> bool" where
  "stable_segment s \<longleftrightarrow> seg_level s = Window \<or> seg_level s = Frame \<or> seg_level s = Pane"

lemma stable_anchor_eq:
  "stable_anchor a =
     (if filter stable_segment a = [] then None else Some (last (filter stable_segment a)))"
proof -
  have "(\<lambda>s. is_instance_unique (seg_level s) \<and> seg_level s \<noteq> Space) = stable_segment"
    by (auto simp: fun_eq_iff is_instance_unique_def stable_segment_def) (metis level.exhaust)
  then show ?thesis by (simp add: stable_anchor_def find_rev_filter)
qed

text \<open>C33. The anchor of an address survives a move: two addresses that differ only in their space and
  tab segments (positions that change when a window is dragged or tabs are reordered) have the same
  \<open>stable_anchor\<close>, it names a window, frame or pane of the address, and it is \<open>None\<close> exactly
  for addresses made of positions alone.\<close>

theorem stable_anchor_survives_move:
  "(filter stable_segment a = filter stable_segment b \<longrightarrow> stable_anchor a = stable_anchor b)
   \<and> (\<forall>s. stable_anchor a = Some s \<longrightarrow> s \<in> set a \<and> stable_segment s)
   \<and> (stable_anchor a = None \<longleftrightarrow> (\<forall>s \<in> set a. seg_level s = Space \<or> seg_level s = Tab))"
proof (intro conjI allI impI)
  show "stable_anchor a = stable_anchor b" if "filter stable_segment a = filter stable_segment b"
    using that by (simp add: stable_anchor_eq)
  fix s assume "stable_anchor a = Some s"
  then have "s \<in> set (filter stable_segment a)"
    unfolding stable_anchor_eq by (metis last_in_set option.distinct(1) option.sel)
  then show "s \<in> set a" "stable_segment s" by auto
next
  have "\<not> stable_segment s \<longleftrightarrow> seg_level s = Space \<or> seg_level s = Tab" for s
    by (cases "seg_level s") (auto simp: stable_segment_def)
  then show "stable_anchor a = None \<longleftrightarrow> (\<forall>s \<in> set a. seg_level s = Space \<or> seg_level s = Tab)"
    by (simp add: stable_anchor_eq filter_empty_conv)
qed

theorem stable_anchor_survives_move_witness:
  "stable_anchor [\<lparr>seg_level = Space, seg_index = 2\<rparr>, \<lparr>seg_level = Window, seg_index = 42\<rparr>]
   = stable_anchor [\<lparr>seg_level = Tab, seg_index = 1\<rparr>, \<lparr>seg_level = Window, seg_index = 42\<rparr>]"
  by (rule stable_anchor_survives_move [THEN conjunct1, rule_format])
    (simp add: stable_segment_def)

lemma wf_append_iff_last_hd:
  assumes "wf_address p" "wf_address q"
  shows "wf_address (p @ q) \<longleftrightarrow> p = [] \<or> q = [] \<or> seg_level (last p) < seg_level (hd q)"
proof (cases "p = [] \<or> q = []")
  case True
  with assms show ?thesis by auto
next
  case False
  then have "last p \<in> set p" "hd q \<in> set q" by auto
  moreover have "seg_level s \<le> seg_level (last p)" if "s \<in> set p" for s
    using that assms(1) False by (cases p rule: rev_cases) (auto simp: wf_address_append_iff)
  moreover have "seg_level (hd q) \<le> seg_level t" if "t \<in> set q" for t
    using that assms(2) False by (cases q) (auto simp: wf_address_Cons_iff)
  ultimately show ?thesis
    using assms False
    by (auto simp: wf_address_append_iff) (meson order.strict_trans1 order.strict_trans2)
qed

text \<open>C34. Joining a nested runtime's address onto its host's: the join is refused exactly when both
  claim a level or the suffix starts outside the prefix; otherwise it is the host's segments followed
  by the nested ones, a legal address that satisfies both parts as patterns.\<close>

theorem address_join_correct:
  assumes "wf_address p" "wf_address q"
  shows "address_join p q =
           (if p \<noteq> [] \<and> q \<noteq> [] \<and> seg_level (hd q) \<le> seg_level (last p) then Inl InvalidRequest
            else Inr (p @ q))
         \<and> (\<forall>j. address_join p q = Inr j \<longrightarrow> wf_address j \<and> satisfies j p \<and> satisfies j q)"
proof (intro conjI allI impI)
  show eq: "address_join p q =
           (if p \<noteq> [] \<and> q \<noteq> [] \<and> seg_level (hd q) \<le> seg_level (last p) then Inl InvalidRequest
            else Inr (p @ q))"
    using wf_append_iff_last_hd [OF assms]
    by (auto simp: address_join_def address_new_Inr_iff not_le)
  fix j assume "address_join p q = Inr j"
  then have j: "j = p @ q" "wf_address j"
    by (auto simp: address_join_def address_new_Inr_iff split: if_splits)
  then show "wf_address j" "satisfies j p" "satisfies j q"
    by (simp_all add: satisfies_iff_subset)
qed

theorem address_join_correct_witness:
  "address_join [\<lparr>seg_level = Space, seg_index = 2\<rparr>] [\<lparr>seg_level = Pane, seg_index = 7\<rparr>]
     = Inr [\<lparr>seg_level = Space, seg_index = 2\<rparr>, \<lparr>seg_level = Pane, seg_index = 7\<rparr>]
   \<and> satisfies [\<lparr>seg_level = Space, seg_index = 2\<rparr>, \<lparr>seg_level = Pane, seg_index = 7\<rparr>]
       [\<lparr>seg_level = Pane, seg_index = 7\<rparr>]"
  using address_join_correct [of "[\<lparr>seg_level = Space, seg_index = 2\<rparr>]" "[\<lparr>seg_level = Pane, seg_index = 7\<rparr>]"]
  by (simp add: wf_address_def less_eq_level_def)

end
