(* ===== verification/MeshIdentity.thy ===== *)
theory MeshIdentity
  imports MeshAddress
begin

text \<open>
  Identity (\<open>agent-mesh-core/src/lib.rs\<close>): opaque identifiers, aliases, peer labels, the kind
  of runtime an endpoint lives in, agent states, and the endpoint record the resolver works on.
\<close>

section \<open>Opaque identifiers\<close>

type_synonym opaque = string

definition hex_digit :: "nat \<Rightarrow> char" where
  "hex_digit n = (if n < 10 then char_of (48 + n) else char_of (87 + n))"

definition hex :: "8 word list \<Rightarrow> string" where
  "hex bytes = concat (map (\<lambda>b. [hex_digit (unat b div 16), hex_digit (unat b mod 16)]) bytes)"

definition opaque_ok :: "string \<Rightarrow> bool" where
  "opaque_ok s \<longleftrightarrow> length s = 32 \<and> list_all (\<lambda>c. is_ascii_hexdigit c \<and> \<not> is_ascii_uppercase c) s"

definition opaque_parse :: "string \<Rightarrow> opaque result" where
  "opaque_parse s = (if opaque_ok s then Inr s else Inl InvalidRequest)"

text \<open>\<open>Opaque::generate\<close> on the sixteen bytes the operating system supplied.\<close>

definition opaque_generate :: "8 word list \<Rightarrow> opaque" where
  "opaque_generate entropy = hex entropy"

lemma hex_digit_class:
  "n < 16 \<Longrightarrow> is_ascii_hexdigit (hex_digit n) \<and> \<not> is_ascii_uppercase (hex_digit n)"
  by (auto simp: hex_digit_def is_ascii_hexdigit_def is_ascii_uppercase_def is_ascii_digit_def)

lemma hex_digit_inject: "m < 16 \<Longrightarrow> n < 16 \<Longrightarrow> hex_digit m = hex_digit n \<Longrightarrow> m = n"
  by (auto simp: hex_digit_def dest!: arg_cong [where f = byte] split: if_splits)

lemma unat8_less: "unat (b :: 8 word) < 256"
proof -
  have "unat b < 2 ^ LENGTH(8)" by (rule unsigned_less)
  then show ?thesis by simp
qed

lemma hex_Nil [simp]: "hex [] = []"
  by (simp add: hex_def)

lemma hex_Cons: "hex (b # bs) = hex_digit (unat b div 16) # hex_digit (unat b mod 16) # hex bs"
  by (simp add: hex_def)

lemma hex_length [simp]: "length (hex bs) = 2 * length bs"
  by (induction bs) (simp_all add: hex_Cons)

lemma hex_chars: "c \<in> set (hex bs) \<Longrightarrow> is_ascii_hexdigit c \<and> \<not> is_ascii_uppercase c"
proof (induction bs)
  case Nil
  then show ?case by simp
next
  case (Cons b bs)
  have "unat b div 16 < 16" using unat8_less [of b] by simp
  with Cons show ?case using hex_digit_class by (auto simp: hex_Cons)
qed

lemma hex_inject: "hex xs = hex bs \<Longrightarrow> xs = bs"
proof (induction xs arbitrary: bs)
  case Nil
  then show ?case by (cases bs) (simp_all add: hex_Cons)
next
  case (Cons a xs)
  then obtain b bs' where bs: "bs = b # bs'" by (cases bs) (simp_all add: hex_Cons)
  have "unat a div 16 < 16" "unat b div 16 < 16" using unat8_less [of a] unat8_less [of b] by simp_all
  with Cons.prems bs have "unat a div 16 = unat b div 16" "unat a mod 16 = unat b mod 16"
    by (auto simp: hex_Cons intro: hex_digit_inject)
  then have "unat a = unat b" by (metis div_mult_mod_eq)
  then have "a = b" by (rule unsigned_word_eqI)
  with Cons bs show ?case by (simp add: hex_Cons)
qed

text \<open>Every minted identifier is one \<open>Opaque::parse\<close> accepts (32 lowercase hex characters), and
  two identifiers are equal only if the sixteen random bytes they were minted from are.\<close>

theorem opaque_generate_wellformed:
  assumes "length e = 16"
  shows "opaque_parse (opaque_generate e) = Inr (opaque_generate e)
    \<and> (\<forall>e'. opaque_generate e' = opaque_generate e \<longrightarrow> e' = e)"
proof -
  have "opaque_ok (hex e)"
    using assms hex_chars [of _ e] by (auto simp: opaque_ok_def list_all_iff)
  then show ?thesis
    using hex_inject by (auto simp: opaque_parse_def opaque_generate_def)
qed

theorem opaque_generate_wellformed_witness:
  "opaque_parse (opaque_generate (replicate 16 255)) = Inr (replicate 32 (CHR ''f''))"
proof -
  have "opaque_generate (replicate 16 255) = replicate 32 (CHR ''f'')"
    by code_simp
  moreover have "opaque_parse (opaque_generate (replicate 16 255)) = Inr (opaque_generate (replicate 16 255))"
    by (rule opaque_generate_wellformed [THEN conjunct1]) simp
  ultimately show ?thesis by (simp only:)
qed

section \<open>Aliases and peer labels\<close>

type_synonym alias_name = string

definition MAX_ALIAS_BYTES :: nat where "MAX_ALIAS_BYTES = 32"

definition MAX_PEER_LABEL_BYTES :: nat where "MAX_PEER_LABEL_BYTES = 64"

definition alias_byte :: "char \<Rightarrow> bool" where
  "alias_byte c \<longleftrightarrow> is_ascii_lowercase c \<or> is_ascii_digit c \<or> c = CHR ''-'' \<or> c = CHR ''_''"

definition alias_ok :: "string \<Rightarrow> bool" where
  "alias_ok s \<longleftrightarrow> s \<noteq> [] \<and> length s \<le> MAX_ALIAS_BYTES \<and> is_ascii_lowercase (hd s)
     \<and> list_all alias_byte (tl s)"

definition alias_parse :: "string \<Rightarrow> alias_name result" where
  "alias_parse s = (if alias_ok s then Inr s else Inl InvalidRequest)"

type_synonym peer_label = string

definition label_byte :: "char \<Rightarrow> bool" where
  "label_byte c \<longleftrightarrow> is_ascii_lowercase c \<or> is_ascii_digit c \<or> c = CHR ''-'' \<or> c = CHR ''_''
     \<or> c = CHR ''.''"

definition label_ok :: "string \<Rightarrow> bool" where
  "label_ok s \<longleftrightarrow> s \<noteq> [] \<and> length s \<le> MAX_PEER_LABEL_BYTES
     \<and> (is_ascii_lowercase (hd s) \<or> is_ascii_digit (hd s)) \<and> list_all label_byte (tl s)"

definition label_parse :: "string \<Rightarrow> peer_label result" where
  "label_parse s = (if label_ok s then Inr s else Inl InvalidRequest)"

definition to_ascii_lowercase :: "string \<Rightarrow> string" where
  "to_ascii_lowercase = map (\<lambda>c. if is_ascii_uppercase c then char_of (byte c + 32) else c)"

definition label_from_destination :: "string \<Rightarrow> peer_label result" where
  "label_from_destination destination =
     (let rest = (case strip_prefix ''ssh://'' destination of Some r \<Rightarrow> r | None \<Rightarrow> destination);
          host = (case rsplit_once (CHR ''@'') rest of Some (_, h) \<Rightarrow> h | None \<Rightarrow> rest);
          host = (if strip_prefix ''ssh://'' destination \<noteq> None
                  then (case split_once (CHR '':'') host of Some (h, _) \<Rightarrow> h | None \<Rightarrow> host)
                  else host)
      in label_parse (to_ascii_lowercase host))"

lemma label_parse_Inr_iff: "label_parse s = Inr l \<longleftrightarrow> label_ok s \<and> l = s"
  by (auto simp: label_parse_def)

lemma alias_parse_Inr_iff: "alias_parse s = Inr a \<longleftrightarrow> alias_ok s \<and> a = s"
  by (auto simp: alias_parse_def)

lemma opaque_parse_Inr_iff: "opaque_parse s = Inr a \<longleftrightarrow> opaque_ok s \<and> a = s"
  by (auto simp: opaque_parse_def)

lemma label_ok_bytes: "label_ok s \<Longrightarrow> c \<in> set s \<Longrightarrow> label_byte c"
  by (cases s) (auto simp: label_ok_def label_byte_def list_all_iff)

lemma alias_ok_bytes: "alias_ok s \<Longrightarrow> c \<in> set s \<Longrightarrow> alias_byte c"
  by (cases s) (auto simp: alias_ok_def alias_byte_def list_all_iff)

lemma label_byte_not_upper: "label_byte c \<Longrightarrow> \<not> is_ascii_uppercase c"
  by (auto simp: label_byte_def is_ascii_lowercase_def is_ascii_uppercase_def is_ascii_digit_def byte_def)

lemma label_byte_no_separator:
  "label_byte c \<Longrightarrow> c \<noteq> CHR ''@'' \<and> c \<noteq> CHR '':'' \<and> c \<noteq> CHR ''/''"
  by (auto simp: label_byte_def is_ascii_lowercase_def is_ascii_digit_def byte_def)

lemma alias_byte_no_separator:
  "alias_byte c \<Longrightarrow> c \<noteq> CHR ''@'' \<and> c \<noteq> CHR '':'' \<and> c \<noteq> CHR ''/''"
  by (auto simp: alias_byte_def is_ascii_lowercase_def is_ascii_digit_def byte_def)

lemma label_ok_lowercase: "label_ok s \<Longrightarrow> to_ascii_lowercase s = s"
  using label_ok_bytes label_byte_not_upper
  by (auto simp: to_ascii_lowercase_def intro!: map_idI)

lemma label_ok_no_separator:
  "label_ok s \<Longrightarrow> CHR ''@'' \<notin> set s \<and> CHR '':'' \<notin> set s \<and> CHR ''/'' \<notin> set s"
  using label_ok_bytes label_byte_no_separator by blast

lemma rsplit_once_append: "c \<notin> set b \<Longrightarrow> rsplit_once c (a @ c # b) = Some (a, b)"
  using split_once_append [of c "rev b" "rev a"] by (simp add: rsplit_once_def)

text \<open>The label an SSH destination implies is its host alone: for a host that is a legal label, the
  plain, \<open>user@host\<close>, \<open>ssh://host\<close> and \<open>ssh://user@host:port\<close> forms (with no further
  \<open>@\<close> in the port) all give that host, whatever the user part holds, and whatever is accepted
  is a legal label, so it never contains \<open>@\<close>, \<open>:\<close> or \<open>/\<close>.\<close>

theorem label_from_destination_host:
  assumes "label_ok h" and "CHR ''@'' \<notin> set port"
    and "strip_prefix ''ssh://'' h = None" and "strip_prefix ''ssh://'' (user @ ''@'' @ h) = None"
  shows "label_from_destination h = Inr h
    \<and> label_from_destination (user @ ''@'' @ h) = Inr h
    \<and> label_from_destination (''ssh://'' @ h) = Inr h
    \<and> label_from_destination (''ssh://'' @ user @ ''@'' @ h @ '':'' @ port) = Inr h
    \<and> (\<forall>d l. label_from_destination d = Inr l \<longrightarrow>
          label_ok l \<and> CHR ''@'' \<notin> set l \<and> CHR '':'' \<notin> set l \<and> CHR ''/'' \<notin> set l)"
proof -
  note h = label_ok_no_separator [OF assms(1)] label_ok_lowercase [OF assms(1)]
  have none: "rsplit_once (CHR ''@'') h = None" "split_once (CHR '':'') h = None"
    using h by (simp_all add: rsplit_once_def split_once_None_iff)
  have at: "rsplit_once (CHR ''@'') (user @ CHR ''@'' # h) = Some (user, h)"
    using h by (intro rsplit_once_append) simp
  have at_port: "rsplit_once (CHR ''@'') (user @ CHR ''@'' # h @ CHR '':'' # port) = Some (user, h @ CHR '':'' # port)"
    using h assms(2) by (intro rsplit_once_append) simp
  have port: "split_once (CHR '':'') (h @ CHR '':'' # port) = Some (h, port)"
    using h by (intro split_once_append) simp
  have ssh: "strip_prefix ''ssh://'' (''ssh://'' @ t) = Some t" for t
    by (rule strip_prefix_append)
  have p: "label_parse h = Inr h" using assms(1) by (simp add: label_parse_def)
  have 1: "label_from_destination h = Inr h"
    using none h p assms(3) by (simp add: label_from_destination_def Let_def)
  have 2: "label_from_destination (user @ ''@'' @ h) = Inr h"
    using at h p assms(4) by (simp add: label_from_destination_def Let_def)
  have 3: "label_from_destination (''ssh://'' @ h) = Inr h"
    unfolding label_from_destination_def ssh using none h p by (simp add: Let_def)
  have 4: "label_from_destination (''ssh://'' @ user @ ''@'' @ h @ '':'' @ port) = Inr h"
    unfolding label_from_destination_def ssh using at_port port h p by (simp add: Let_def)
  have 5: "label_ok l" if "label_from_destination d = Inr l" for d l
    using that unfolding label_from_destination_def Let_def label_parse_Inr_iff by simp
  show ?thesis using 1 2 3 4 5 label_ok_no_separator by blast
qed

theorem label_from_destination_host_witness:
  "label_from_destination ''ssh://me@buildbox:2222'' = Inr ''buildbox''"
proof -
  have "label_ok ''buildbox''" by code_simp
  moreover have "CHR ''@'' \<notin> set ''2222''" by simp
  moreover have "strip_prefix ''ssh://'' ''buildbox'' = None"
    and "strip_prefix ''ssh://'' (''me'' @ ''@'' @ ''buildbox'') = None" by code_simp+
  ultimately have "label_from_destination (''ssh://'' @ ''me'' @ ''@'' @ ''buildbox'' @ '':'' @ ''2222'') = Inr ''buildbox''"
    by (rule label_from_destination_host [THEN conjunct2, THEN conjunct2, THEN conjunct2, THEN conjunct1])
  then show ?thesis by simp
qed

section \<open>Runtimes, states and endpoints\<close>

datatype runtime_kind = Vvmux | Vivido | Vivida | Wrapper | PeerRuntime

fun runtime_kind_str :: "runtime_kind \<Rightarrow> string" where
  "runtime_kind_str Vvmux = ''vvmux''"
| "runtime_kind_str Vivido = ''vivido''"
| "runtime_kind_str Vivida = ''vivida''"
| "runtime_kind_str Wrapper = ''wrapper''"
| "runtime_kind_str PeerRuntime = ''peer''"

definition runtime_kind_parse :: "string \<Rightarrow> runtime_kind result" where
  "runtime_kind_parse s =
     (if s = ''vvmux'' then Inr Vvmux
      else if s = ''vivido'' then Inr Vivido
      else if s = ''vivida'' then Inr Vivida
      else if s = ''wrapper'' then Inr Wrapper
      else if s = ''peer'' then Inr PeerRuntime
      else Inl InvalidRequest)"

interpretation runtime_kind_codec: strict_codec runtime_kind_str runtime_kind_parse "\<lambda>_. True"
proof
  show "runtime_kind_parse (runtime_kind_str k) = Inr k" for k
    by (cases k) (simp_all add: runtime_kind_parse_def)
qed (auto simp: runtime_kind_parse_def split: if_splits)

datatype agent_state = Unknown | Idle | Working | Blocked | Offline

fun agent_state_str :: "agent_state \<Rightarrow> string" where
  "agent_state_str Unknown = ''unknown''"
| "agent_state_str Idle = ''idle''"
| "agent_state_str Working = ''working''"
| "agent_state_str Blocked = ''blocked''"
| "agent_state_str Offline = ''offline''"

definition agent_state_parse :: "string \<Rightarrow> agent_state result" where
  "agent_state_parse s =
     (if s = ''unknown'' then Inr Unknown
      else if s = ''idle'' then Inr Idle
      else if s = ''working'' then Inr Working
      else if s = ''blocked'' then Inr Blocked
      else if s = ''offline'' then Inr Offline
      else Inl InvalidRequest)"

interpretation agent_state_codec: strict_codec agent_state_str agent_state_parse "\<lambda>_. True"
proof
  show "agent_state_parse (agent_state_str k) = Inr k" for k
    by (cases k) (simp_all add: agent_state_parse_def)
qed (auto simp: agent_state_parse_def split: if_splits)

record locator =
  loc_kind :: runtime_kind
  loc_instance_id :: opaque
  loc_instance_name :: "string option"
  loc_address :: "address option"

record endpoint =
  ep_id :: opaque
  ep_incarnation :: "opaque option"
  ep_alias :: "alias_name option"
  ep_provider :: "string option"
  ep_locator :: locator
  ep_online :: bool
  ep_generation :: int
  ep_state :: agent_state
  ep_pending :: int

end
