(* ===== verification/MeshSelector.thy ===== *)
theory MeshSelector
  imports MeshIdentity
begin

text \<open>
  Selectors (\<open>agent-mesh-core/src/lib.rs\<close>): what a caller may type to name an agent, the remote
  forms that name one on a peer host, and resolution against a candidate set. Resolution is the
  sequence of narrowing steps of \<open>resolve\<close>; its failures carry the candidates the caller may
  retype.
\<close>

section \<open>Parsing\<close>

record qualified_scope =
  qs_kind :: runtime_kind
  qs_instance :: string

record selector =
  sel_endpoint :: "opaque option"
  sel_scope :: "qualified_scope option"
  sel_alias :: "alias_name option"
  sel_address :: "address option"

definition strip_local :: "string \<Rightarrow> string" where
  "strip_local s = (case strip_prefix ''agent://local/'' s of Some r \<Rightarrow> r | None \<Rightarrow> s)"

definition selector_scope :: "string \<Rightarrow> (qualified_scope option \<times> string) result" where
  "selector_scope s =
     (case split_once (CHR '':'') s of
        None \<Rightarrow> Inr (None, s)
      | Some (runtime, rest) \<Rightarrow>
          and_then (runtime_kind_parse runtime) (\<lambda>kind.
            case split_once (CHR ''/'') rest of
              None \<Rightarrow> Inl InvalidRequest
            | Some (instance_name, target) \<Rightarrow>
                if instance_name = [] then Inl InvalidRequest
                else Inr (Some \<lparr>qs_kind = kind, qs_instance = instance_name\<rparr>, target)))"

definition selector_parse :: "string \<Rightarrow> selector result" where
  "selector_parse s =
     (let s = strip_local s in
      case opaque_parse s of
        Inr i \<Rightarrow> Inr \<lparr>sel_endpoint = Some i, sel_scope = None, sel_alias = None, sel_address = None\<rparr>
      | Inl _ \<Rightarrow>
          and_then (selector_scope s) (\<lambda>(scope, target).
            let a = ok (alias_parse target); d = ok (address_parse target) in
            if a = None \<and> d = None then Inl InvalidRequest
            else Inr \<lparr>sel_endpoint = None, sel_scope = scope, sel_alias = a, sel_address = d\<rparr>))"

definition MAX_SELECTOR_BYTES :: nat where "MAX_SELECTOR_BYTES = 256"

datatype remote_selector =
    Exact peer_label opaque
  | Named peer_label string
  | Through u32 address

text \<open>The three shapes of \<open>RemoteSelector::parse\<close>, in the order the code tries them.\<close>

definition remote_by_scheme :: "string \<Rightarrow> remote_selector option result" where
  "remote_by_scheme rest =
     (case split_once (CHR ''/'') rest of
        None \<Rightarrow> Inr None
      | Some (peer, i) \<Rightarrow>
          if peer = ''local'' then Inr None
          else and_then (label_parse peer) (\<lambda>l. and_then (opaque_parse i) (\<lambda>o'. Inr (Some (Exact l o')))))"

definition remote_by_at :: "string \<Rightarrow> remote_selector option result" where
  "remote_by_at rest =
     (case split_once (CHR '':'') rest of
        None \<Rightarrow> Inl InvalidRequest
      | Some (peer, sel) \<Rightarrow>
          and_then (label_parse peer) (\<lambda>l.
            let sel = strip_local sel in
            case opaque_parse sel of
              Inr i \<Rightarrow> Inr (Some (Exact l i))
            | Inl _ \<Rightarrow>
                if sel = [] \<or> length sel > MAX_SELECTOR_BYTES \<or> has_control sel then Inl InvalidRequest
                else if strip_prefix ''@'' sel \<noteq> None \<or> strip_prefix ''agent://'' sel \<noteq> None
                  then Inl InvalidRequest
                else Inr (Some (Named l sel))))"

definition remote_by_position :: "string \<Rightarrow> remote_selector option result" where
  "remote_by_position s =
     (case address_parse s of
        Inl _ \<Rightarrow> Inr None
      | Inr a \<Rightarrow>
          (case address_get a Window of
             None \<Rightarrow> Inr None
           | Some w \<Rightarrow>
               (let rest = filter (\<lambda>g. seg_level g > Window) a in
                if rest = [] then Inr None
                else and_then (address_new rest) (\<lambda>r. Inr (Some (Through w r))))))"

definition remote_parse :: "string \<Rightarrow> remote_selector option result" where
  "remote_parse s =
     (case strip_prefix ''agent://'' s of
        Some rest \<Rightarrow> remote_by_scheme rest
      | None \<Rightarrow>
          (case strip_prefix ''@'' s of
             Some rest \<Rightarrow> remote_by_at rest
           | None \<Rightarrow> remote_by_position s))"

section \<open>Resolution\<close>

record origin =
  org_scope :: "opaque option"
  org_address :: "address option"
  org_endpoint :: "opaque option"

definition MAX_AMBIGUOUS_CANDIDATES :: nat where "MAX_AMBIGUOUS_CANDIDATES = 8"

definition qualified_name :: "endpoint \<Rightarrow> string" where
  "qualified_name e =
     (case loc_instance_name (ep_locator e) of
        None \<Rightarrow> ''agent://local/'' @ ep_id e
      | Some instance_name \<Rightarrow>
          (case (ep_alias e, loc_address (ep_locator e)) of
             (Some a, _) \<Rightarrow> runtime_kind_str (loc_kind (ep_locator e)) @ '':'' @ instance_name @ ''/'' @ a
           | (None, Some d) \<Rightarrow>
               runtime_kind_str (loc_kind (ep_locator e)) @ '':'' @ instance_name @ ''/'' @ address_str d
           | (None, None) \<Rightarrow> ''agent://local/'' @ ep_id e))"

definition qualified_address :: "endpoint \<Rightarrow> string option" where
  "qualified_address e =
     (case (loc_instance_name (ep_locator e), loc_address (ep_locator e)) of
        (Some instance_name, Some d) \<Rightarrow>
          Some (runtime_kind_str (loc_kind (ep_locator e)) @ '':'' @ instance_name @ ''/'' @ address_str d)
      | _ \<Rightarrow> None)"

definition in_scope_of :: "selector \<Rightarrow> endpoint \<Rightarrow> bool" where
  "in_scope_of sel e =
     (case sel_scope sel of
        Some sc \<Rightarrow> loc_kind (ep_locator e) = qs_kind sc
                  \<and> loc_instance_name (ep_locator e) = Some (qs_instance sc)
      | None \<Rightarrow> True)"

definition selector_matches :: "selector \<Rightarrow> endpoint \<Rightarrow> bool" where
  "selector_matches sel e \<longleftrightarrow>
     in_scope_of sel e \<and>
     ((case sel_alias sel of Some a \<Rightarrow> ep_alias e = Some a | None \<Rightarrow> False)
      \<or> (case (sel_address sel, loc_address (ep_locator e)) of
           (Some pattern, Some a) \<Rightarrow> satisfies a pattern
         | _ \<Rightarrow> False))"

text \<open>Steps 4 and 5: restrict to a preferred part when that leaves anything.\<close>

definition prefer_part :: "('a \<Rightarrow> bool) \<Rightarrow> 'a list \<Rightarrow> 'a list" where
  "prefer_part P xs = (if length xs > 1 then (let ys = filter P xs in if ys = [] then xs else ys) else xs)"

definition prefer_others :: "origin \<Rightarrow> endpoint list \<Rightarrow> endpoint list" where
  "prefer_others org es =
     (case org_endpoint org of Some me \<Rightarrow> prefer_part (\<lambda>e. ep_id e \<noteq> me) es | None \<Rightarrow> es)"

definition prefer_instance :: "origin \<Rightarrow> endpoint list \<Rightarrow> endpoint list" where
  "prefer_instance org es =
     (case org_scope org of
        Some s \<Rightarrow> prefer_part (\<lambda>e. loc_instance_id (ep_locator e) = s) es
      | None \<Rightarrow> es)"

definition nearness :: "address \<Rightarrow> endpoint \<Rightarrow> nat" where
  "nearness here e =
     (case loc_address (ep_locator e) of Some a \<Rightarrow> shared_prefix a here | None \<Rightarrow> 0)"

text \<open>Step 6. \<open>best\<close> is the greatest shared prefix among the matches that have an address.\<close>

definition prefer_nearest :: "origin \<Rightarrow> endpoint list \<Rightarrow> endpoint list" where
  "prefer_nearest org es =
     (case org_address org of
        Some here \<Rightarrow>
          if length es > 1 then
            (let best = fold max (map (nearness here) (filter (\<lambda>e. loc_address (ep_locator e) \<noteq> None) es)) 0
             in if best > 0
                then filter (\<lambda>e. loc_address (ep_locator e) \<noteq> None \<and> nearness here e = best) es
                else es)
          else es
      | None \<Rightarrow> es)"

type_synonym resolve_error = "error_code \<times> string list"

definition resolve :: "selector \<Rightarrow> endpoint list \<Rightarrow> origin \<Rightarrow> resolve_error + endpoint" where
  "resolve sel candidates org =
     (case sel_endpoint sel of
        Some i \<Rightarrow>
          (case List.find (\<lambda>e. ep_id e = i) candidates of
             Some e \<Rightarrow> Inr e
           | None \<Rightarrow> Inl (AgentNotFound, []))
      | None \<Rightarrow>
          (case prefer_nearest org (prefer_instance org (prefer_others org
                  (filter (selector_matches sel) candidates))) of
             [] \<Rightarrow> Inl (AgentNotFound, [])
           | [e] \<Rightarrow> Inr e
           | es \<Rightarrow> Inl (AgentAmbiguous, take MAX_AMBIGUOUS_CANDIDATES (map qualified_name es))))"

section \<open>Narrowing never empties and never guesses\<close>

lemma prefer_part_subset: "set (prefer_part P xs) \<subseteq> set xs"
  by (auto simp: prefer_part_def Let_def)

lemma prefer_part_eq_Nil [simp]: "prefer_part P xs = [] \<longleftrightarrow> xs = []"
  by (auto simp: prefer_part_def Let_def)

lemma prefer_part_dropped: "x \<in> set xs \<Longrightarrow> x \<notin> set (prefer_part P xs) \<Longrightarrow> \<not> P x \<and> (\<forall>y \<in> set (prefer_part P xs). P y)"
  by (auto simp: prefer_part_def Let_def split: if_splits)

lemma prefer_part_kept:
  assumes "x \<in> set (prefer_part P xs)" "\<not> P x" "y \<in> set xs"
  shows "\<not> P y"
proof (cases "filter P xs = []")
  case True
  with assms(3) show ?thesis by (simp add: filter_empty_conv)
next
  case False
  with assms have "length xs \<le> 1" "x \<in> set xs" by (auto simp: prefer_part_def split: if_splits)
  then have "xs = [x]" by (cases xs) auto
  with assms show ?thesis by simp
qed

lemma fold_max_eq: "fold max xs (n :: nat) = Max (insert n (set xs))"
  by (metis Max.set_eq_fold list.simps(15))

lemma fold_max_ge: "x \<in> set xs \<Longrightarrow> x \<le> fold max xs (n :: nat)"
  by (simp add: fold_max_eq)

lemma fold_max_in: "fold max xs (n :: nat) = n \<or> fold max xs n \<in> set xs"
  using Max_in [of "insert n (set xs)"] by (auto simp: fold_max_eq)

lemma prefer_nearest_subset: "set (prefer_nearest org es) \<subseteq> set es"
  by (auto simp: prefer_nearest_def Let_def split: option.splits if_splits)

lemma prefer_nearest_cases:
  obtains (same) "prefer_nearest org es = es"
  | (near) here best where "org_address org = Some here" "best > 0"
      "prefer_nearest org es = filter (\<lambda>e. loc_address (ep_locator e) \<noteq> None \<and> nearness here e = best) es"
      "\<And>e. e \<in> set es \<Longrightarrow> nearness here e \<le> best"
      "\<exists>e \<in> set es. loc_address (ep_locator e) \<noteq> None \<and> nearness here e = best"
proof (cases "org_address org")
  case None
  then show thesis using same by (simp add: prefer_nearest_def)
next
  case (Some here)
  let ?ns = "map (nearness here) (filter (\<lambda>e. loc_address (ep_locator e) \<noteq> None) es)"
  let ?best = "fold max ?ns 0"
  show thesis
  proof (cases "length es > 1 \<and> ?best > 0")
    case False
    with Some show thesis by (intro same) (simp add: prefer_nearest_def Let_def)
  next
    case True
    have le: "nearness here e \<le> ?best" if "e \<in> set es" for e
    proof (cases "loc_address (ep_locator e)")
      case None
      then show ?thesis by (simp add: nearness_def)
    next
      case (Some a)
      then show ?thesis using that by (intro fold_max_ge) auto
    qed
    have "?best \<in> set ?ns" using fold_max_in [of ?ns 0] True by auto
    then have "\<exists>e \<in> set es. loc_address (ep_locator e) \<noteq> None \<and> nearness here e = ?best"
      by auto
    with Some True le show thesis by (intro near) (auto simp: prefer_nearest_def Let_def)
  qed
qed

lemma prefer_nearest_eq_Nil [simp]: "prefer_nearest org es = [] \<longleftrightarrow> es = []"
  by (cases org es rule: prefer_nearest_cases) (auto simp: filter_empty_conv)

lemma prefer_others_eq_Nil [simp]: "prefer_others org es = [] \<longleftrightarrow> es = []"
  by (simp add: prefer_others_def split: option.splits)

lemma prefer_instance_eq_Nil [simp]: "prefer_instance org es = [] \<longleftrightarrow> es = []"
  by (simp add: prefer_instance_def split: option.splits)

lemma prefer_nearest_dropped:
  assumes "f \<in> set es" "f \<notin> set (prefer_nearest org es)" "e \<in> set (prefer_nearest org es)"
  shows "\<exists>here. org_address org = Some here \<and> nearness here f < nearness here e"
proof (cases org es rule: prefer_nearest_cases)
  case same
  with assms show ?thesis by simp
next
  case (near here best)
  with assms have "nearness here e = best" "nearness here f \<le> best"
    and "loc_address (ep_locator f) = None \<or> nearness here f \<noteq> best" by auto
  then have "nearness here f < nearness here e"
    using near(2) by (auto simp: nearness_def)
  with near show ?thesis by blast
qed

definition narrowed :: "selector \<Rightarrow> endpoint list \<Rightarrow> origin \<Rightarrow> endpoint list" where
  "narrowed sel candidates org =
     prefer_nearest org (prefer_instance org (prefer_others org (filter (selector_matches sel) candidates)))"

lemma prefer_others_subset: "set (prefer_others org es) \<subseteq> set es"
  by (simp add: prefer_others_def prefer_part_subset split: option.splits)

lemma prefer_instance_subset: "set (prefer_instance org es) \<subseteq> set es"
  by (simp add: prefer_instance_def prefer_part_subset split: option.splits)

lemma narrowed_subset: "set (narrowed sel cs org) \<subseteq> {e \<in> set cs. selector_matches sel e}"
proof -
  have "set (narrowed sel cs org) \<subseteq> set (filter (selector_matches sel) cs)"
    unfolding narrowed_def
    by (rule subset_trans [OF prefer_nearest_subset subset_trans [OF prefer_instance_subset prefer_others_subset]])
  then show ?thesis by simp
qed

lemma narrowed_eq_Nil: "narrowed sel cs org = [] \<longleftrightarrow> (\<forall>e \<in> set cs. \<not> selector_matches sel e)"
  by (simp add: narrowed_def filter_empty_conv)

lemma resolve_by_name:
  "sel_endpoint sel = None \<Longrightarrow>
   resolve sel cs org =
     (case narrowed sel cs org of
        [] \<Rightarrow> Inl (AgentNotFound, [])
      | [e] \<Rightarrow> Inr e
      | es \<Rightarrow> Inl (AgentAmbiguous, take MAX_AMBIGUOUS_CANDIDATES (map qualified_name es)))"
  by (simp add: resolve_def narrowed_def)

lemma resolve_by_name_Inr:
  "sel_endpoint sel = None \<Longrightarrow> resolve sel cs org = Inr e \<Longrightarrow> narrowed sel cs org = [e]"
  by (auto simp: resolve_by_name split: list.splits)

definition preferred_over :: "origin \<Rightarrow> endpoint \<Rightarrow> endpoint \<Rightarrow> bool" where
  "preferred_over org e f \<longleftrightarrow>
     org_endpoint org = Some (ep_id f)
     \<or> (\<exists>s. org_scope org = Some s \<and> loc_instance_id (ep_locator e) = s
            \<and> loc_instance_id (ep_locator f) \<noteq> s)
     \<or> (\<exists>here. org_address org = Some here \<and> nearness here f < nearness here e)"

lemma narrowed_dropped:
  assumes f: "f \<in> set cs" "selector_matches sel f" "f \<notin> set (narrowed sel cs org)"
    and e: "e \<in> set (narrowed sel cs org)"
  shows "preferred_over org e f"
proof -
  let ?a = "filter (selector_matches sel) cs"
  let ?b = "prefer_others org ?a"
  let ?c = "prefer_instance org ?b"
  have ec: "e \<in> set ?c" using e prefer_nearest_subset unfolding narrowed_def by fastforce
  have fa: "f \<in> set ?a" using f by simp
  consider (others) "f \<notin> set ?b" | (inst) "f \<in> set ?b" "f \<notin> set ?c" | (near) "f \<in> set ?c" by blast
  then show ?thesis
  proof cases
    case others
    with fa obtain me where me: "org_endpoint org = Some me"
      and "f \<notin> set (prefer_part (\<lambda>e. ep_id e \<noteq> me) ?a)"
      by (auto simp: prefer_others_def split: option.splits)
    from prefer_part_dropped [OF fa this(2)] me show ?thesis by (simp add: preferred_over_def)
  next
    case inst
    then obtain sc where sc: "org_scope org = Some sc"
      and c: "?c = prefer_part (\<lambda>e. loc_instance_id (ep_locator e) = sc) ?b"
      by (auto simp: prefer_instance_def split: option.splits)
    from prefer_part_dropped [OF inst(1)] inst(2) ec sc show ?thesis
      unfolding c preferred_over_def by blast
  next
    case near
    then show ?thesis using f(3) e prefer_nearest_dropped [of f ?c org e]
      by (auto simp: narrowed_def preferred_over_def)
  qed
qed

text \<open>C26. Resolution never silently narrows several matches to one: when an alias or address resolves,
  the answer is one of the candidates and matches the selector, and every other matching candidate
  was set aside for one of the three stated preferences: it is the caller itself, or the answer is
  in the caller's own runtime instance and it is not, or the answer shares a longer address prefix
  with the caller.\<close>

theorem resolve_never_guesses:
  assumes "sel_endpoint sel = None" and "resolve sel cs org = Inr e"
  shows "e \<in> set cs \<and> selector_matches sel e
    \<and> (\<forall>f \<in> set cs. selector_matches sel f \<and> f \<noteq> e \<longrightarrow> preferred_over org e f)"
proof -
  have n: "narrowed sel cs org = [e]" by (rule resolve_by_name_Inr [OF assms])
  then have "e \<in> set cs" "selector_matches sel e"
    using narrowed_subset [of sel cs org] by auto
  moreover have "preferred_over org e f" if "f \<in> set cs" "selector_matches sel f" "f \<noteq> e" for f
    using that n by (intro narrowed_dropped) auto
  ultimately show ?thesis by blast
qed

definition sample_endpoint :: "string \<Rightarrow> string \<Rightarrow> address \<Rightarrow> endpoint" where
  "sample_endpoint i inst a =
     \<lparr>ep_id = i, ep_incarnation = None, ep_alias = Some ''reviewer'', ep_provider = None,
      ep_locator = \<lparr>loc_kind = Vvmux, loc_instance_id = inst, loc_instance_name = Some inst,
                    loc_address = Some a\<rparr>,
      ep_online = True, ep_generation = 1, ep_state = Idle, ep_pending = 0\<rparr>"

definition sample_selector :: selector where
  "sample_selector = \<lparr>sel_endpoint = None, sel_scope = None, sel_alias = Some ''reviewer'', sel_address = None\<rparr>"

theorem resolve_never_guesses_witness:
  "resolve sample_selector [sample_endpoint ''1'' ''a'' [], sample_endpoint ''2'' ''b'' []]
       \<lparr>org_scope = Some ''b'', org_address = None, org_endpoint = None\<rparr>
     = Inr (sample_endpoint ''2'' ''b'' [])
   \<and> selector_matches sample_selector (sample_endpoint ''2'' ''b'' [])"
proof -
  have r: "resolve sample_selector [sample_endpoint ''1'' ''a'' [], sample_endpoint ''2'' ''b'' []]
       \<lparr>org_scope = Some ''b'', org_address = None, org_endpoint = None\<rparr>
     = Inr (sample_endpoint ''2'' ''b'' [])"
    by (simp add: resolve_def sample_selector_def sample_endpoint_def selector_matches_def in_scope_of_def
        prefer_others_def prefer_instance_def prefer_part_def prefer_nearest_def)
  show ?thesis
    using r resolve_never_guesses [OF _ r] by (simp add: sample_selector_def)
qed



section \<open>Names that can be retyped\<close>

lemma no_colon_not_opaque: "CHR '':'' \<in> set s \<Longrightarrow> opaque_parse s = Inl InvalidRequest"
proof -
  assume "CHR '':'' \<in> set s"
  moreover have "\<not> is_ascii_hexdigit (CHR '':'')"
    by (simp add: is_ascii_hexdigit_def is_ascii_digit_def byte_def)
  ultimately show ?thesis by (auto simp: opaque_parse_def opaque_ok_def list_all_iff)
qed

lemma runtime_prefix:
  "CHR '':'' \<notin> set (runtime_kind_str k)" "strip_prefix ''agent://local/'' (runtime_kind_str k @ '':'' @ t) = None"
  by (cases k; simp add: strip_prefix_def)+

lemma selector_parse_qualified:
  assumes "inst \<noteq> []" "CHR ''/'' \<notin> set inst" and "alias_ok t \<or> (\<exists>a. address_parse t = Inr a)"
  shows "selector_parse (runtime_kind_str k @ '':'' @ inst @ ''/'' @ t) =
    Inr \<lparr>sel_endpoint = None, sel_scope = Some \<lparr>qs_kind = k, qs_instance = inst\<rparr>,
         sel_alias = ok (alias_parse t), sel_address = ok (address_parse t)\<rparr>"
proof -
  let ?s = "runtime_kind_str k @ '':'' @ inst @ ''/'' @ t"
  have strip: "strip_local ?s = ?s"
    using runtime_prefix(2) [of k "inst @ ''/'' @ t"] by (simp add: strip_local_def)
  have opq: "opaque_parse ?s = Inl InvalidRequest" by (rule no_colon_not_opaque) simp
  have col: "split_once (CHR '':'') ?s = Some (runtime_kind_str k, inst @ CHR ''/'' # t)"
    using split_once_append [OF runtime_prefix(1), of k "inst @ CHR ''/'' # t"] by simp
  have sl: "split_once (CHR ''/'') (inst @ CHR ''/'' # t) = Some (inst, t)"
    using assms(2) by (rule split_once_append)
  have scope: "selector_scope ?s = Inr (Some \<lparr>qs_kind = k, qs_instance = inst\<rparr>, t)"
    using assms(1) runtime_kind_codec.reader_render [of k]
    unfolding selector_scope_def col by (simp add: sl)
  have "ok (alias_parse t) \<noteq> None \<or> ok (address_parse t) \<noteq> None"
    using assms(3) by (auto simp: alias_parse_def)
  then show ?thesis
    unfolding selector_parse_def Let_def strip opq scope by auto
qed



section \<open>Remote selectors\<close>



end
