(* ===== verification/MeshEnvelope.thy ===== *)
theory MeshEnvelope
  imports MeshIdentity
begin

text \<open>
  The envelope (\<open>agent-mesh-core/src/lib.rs\<close>): message kinds, outcomes and lifecycle states,
  principals, references and their validation, and the draft a caller submits with its bounds, the
  bytes it charges and the content digest that tells a replay from a conflict.
  SHA-256 and the JSON writer are not part of the repository: they are the parameters \<open>sha\<close> and
  \<open>json\<close> of the definitions that use them.
\<close>

section \<open>Kinds, outcomes, states\<close>

datatype kind = Request | Response | Notice

fun kind_str :: "kind \<Rightarrow> string" where
  "kind_str Request = ''request''"
| "kind_str Response = ''response''"
| "kind_str Notice = ''notice''"

definition kind_parse :: "string \<Rightarrow> kind result" where
  "kind_parse s =
     (if s = ''request'' then Inr Request
      else if s = ''response'' then Inr Response
      else if s = ''notice'' then Inr Notice
      else Inl InvalidRequest)"

definition may_use_reserve :: "kind \<Rightarrow> bool" where
  "may_use_reserve k \<longleftrightarrow> k = Response"

interpretation kind_codec: strict_codec kind_str kind_parse "\<lambda>_. True"
proof
  show "kind_parse (kind_str k) = Inr k" for k
    by (cases k) (simp_all add: kind_parse_def)
qed (auto simp: kind_parse_def split: if_splits)

datatype outcome = Completed | Answered | Refused | Failed | OutcomeCancelled

fun outcome_str :: "outcome \<Rightarrow> string" where
  "outcome_str Completed = ''completed''"
| "outcome_str Answered = ''answered''"
| "outcome_str Refused = ''refused''"
| "outcome_str Failed = ''failed''"
| "outcome_str OutcomeCancelled = ''cancelled''"

definition outcome_parse :: "string \<Rightarrow> outcome result" where
  "outcome_parse s =
     (if s = ''completed'' then Inr Completed
      else if s = ''answered'' then Inr Answered
      else if s = ''refused'' then Inr Refused
      else if s = ''failed'' then Inr Failed
      else if s = ''cancelled'' then Inr OutcomeCancelled
      else Inl InvalidRequest)"

interpretation outcome_codec: strict_codec outcome_str outcome_parse "\<lambda>_. True"
proof
  show "outcome_parse (outcome_str k) = Inr k" for k
    by (cases k) (simp_all add: outcome_parse_def)
qed (auto simp: outcome_parse_def split: if_splits)

datatype msg_state =
    Queued | Claimed | Delivered | Consumed | CancellationRequested | Cancelled | Expired
  | Undeliverable

fun state_str :: "msg_state \<Rightarrow> string" where
  "state_str Queued = ''queued''"
| "state_str Claimed = ''claimed''"
| "state_str Delivered = ''delivered''"
| "state_str Consumed = ''consumed''"
| "state_str CancellationRequested = ''cancellation_requested''"
| "state_str Cancelled = ''cancelled''"
| "state_str Expired = ''expired''"
| "state_str Undeliverable = ''undeliverable''"

definition state_parse :: "string \<Rightarrow> msg_state result" where
  "state_parse s =
     (if s = ''queued'' then Inr Queued
      else if s = ''claimed'' then Inr Claimed
      else if s = ''delivered'' then Inr Delivered
      else if s = ''consumed'' then Inr Consumed
      else if s = ''cancellation_requested'' then Inr CancellationRequested
      else if s = ''cancelled'' then Inr Cancelled
      else if s = ''expired'' then Inr Expired
      else if s = ''undeliverable'' then Inr Undeliverable
      else Inl InvalidRequest)"

definition is_pending :: "msg_state \<Rightarrow> bool" where
  "is_pending s \<longleftrightarrow> s \<in> {Queued, Claimed, Delivered, CancellationRequested}"

interpretation state_codec: strict_codec state_str state_parse "\<lambda>_. True"
proof
  show "state_parse (state_str k) = Inr k" for k
    by (cases k) (simp_all add: state_parse_def)
qed (auto simp: state_parse_def split: if_splits)

lemma is_pending_simps [simp]:
  "is_pending Queued" "is_pending Claimed" "is_pending Delivered" "is_pending CancellationRequested"
  "\<not> is_pending Consumed" "\<not> is_pending Cancelled" "\<not> is_pending Expired" "\<not> is_pending Undeliverable"
  by (simp_all add: is_pending_def)

section \<open>Principals\<close>

datatype principal_kind = Agent | LocalUser | PeerPrincipal

fun principal_kind_str :: "principal_kind \<Rightarrow> string" where
  "principal_kind_str Agent = ''agent''"
| "principal_kind_str LocalUser = ''local_user''"
| "principal_kind_str PeerPrincipal = ''peer''"

definition principal_kind_parse :: "string \<Rightarrow> principal_kind result" where
  "principal_kind_parse s =
     (if s = ''agent'' then Inr Agent
      else if s = ''local_user'' then Inr LocalUser
      else if s = ''peer'' then Inr PeerPrincipal
      else Inl InvalidRequest)"

interpretation principal_kind_codec: strict_codec principal_kind_str principal_kind_parse "\<lambda>_. True"
proof
  show "principal_kind_parse (principal_kind_str k) = Inr k" for k
    by (cases k) (simp_all add: principal_kind_parse_def)
qed (auto simp: principal_kind_parse_def split: if_splits)

record principal =
  pr_kind :: principal_kind
  pr_endpoint :: "opaque option"
  pr_incarnation :: "opaque option"

section \<open>References\<close>

datatype media_binding = Pinned | Live

fun media_binding_str :: "media_binding \<Rightarrow> string" where
  "media_binding_str Pinned = ''pinned''"
| "media_binding_str Live = ''live''"

definition media_binding_parse :: "string \<Rightarrow> media_binding result" where
  "media_binding_parse s =
     (if s = ''pinned'' then Inr Pinned
      else if s = ''live'' then Inr Live
      else Inl InvalidRequest)"

interpretation media_binding_codec: strict_codec media_binding_str media_binding_parse "\<lambda>_. True"
proof
  show "media_binding_parse (media_binding_str k) = Inr k" for k
    by (cases k) (simp_all add: media_binding_parse_def)
qed (auto simp: media_binding_parse_def split: if_splits)

record pane_ref =
  pane_runtime :: runtime_kind
  pane_workspace :: "string option"
  pane_tab :: "string option"
  pane_id :: "nat option"

record file_ref =
  file_path :: string
  file_sha256 :: "string option"
  file_bytes :: "nat option"
  file_host :: "opaque option"

datatype reference =
    File file_ref
  | PaneOf opaque pane_ref
  | Media opaque string media_binding

definition MAX_PATH_BYTES :: nat where "MAX_PATH_BYTES = 4096"
definition MAX_PANE_FIELD_BYTES :: nat where "MAX_PANE_FIELD_BYTES = 64"
definition MAX_RESOURCE_ID_BYTES :: nat where "MAX_RESOURCE_ID_BYTES = 128"

definition looks_absolute_anywhere :: "string \<Rightarrow> bool" where
  "looks_absolute_anywhere p \<longleftrightarrow>
     strip_prefix ''/'' p \<noteq> None
     \<or> strip_prefix [CHR 0x5C, CHR 0x5C] p \<noteq> None
     \<or> (length p \<ge> 3 \<and> is_ascii_alphabetic (p ! 0) \<and> p ! 1 = CHR '':''
         \<and> (p ! 2 = CHR 0x5C \<or> p ! 2 = CHR ''/''))"

text \<open>\<open>Path::is_absolute\<close> on Unix.\<close>

definition is_absolute :: "string \<Rightarrow> bool" where
  "is_absolute p \<longleftrightarrow> strip_prefix ''/'' p \<noteq> None"

definition sha256_field_ok :: "string \<Rightarrow> bool" where
  "sha256_field_ok d \<longleftrightarrow> length d = 64 \<and> list_all is_ascii_hexdigit d"

definition pane_field_ok :: "string option \<Rightarrow> bool" where
  "pane_field_ok f =
     (case f of None \<Rightarrow> True
      | Some v \<Rightarrow> length v \<le> MAX_PANE_FIELD_BYTES \<and> \<not> list_ex control_byte v)"

fun ref_check :: "bool \<Rightarrow> reference \<Rightarrow> unit result" where
  "ref_check elsewhere (File f) =
     (if file_path f = [] \<or> length (file_path f) > MAX_PATH_BYTES then Inl InvalidRequest
      else if list_ex control_byte (file_path f) then Inl InvalidRequest
      else if \<not> (if elsewhere then looks_absolute_anywhere (file_path f) else is_absolute (file_path f))
        then Inl InvalidRequest
      else (case file_sha256 f of
              Some digest \<Rightarrow> if sha256_field_ok digest then Inr () else Inl InvalidRequest
            | None \<Rightarrow> Inr ()))"
| "ref_check elsewhere (PaneOf i l) =
     (if pane_field_ok (pane_workspace l) \<and> pane_field_ok (pane_tab l) then Inr ()
      else Inl InvalidRequest)"
| "ref_check elsewhere (Media i resource b) =
     (if resource = [] \<or> length resource > MAX_RESOURCE_ID_BYTES then Inl InvalidRequest
      else if list_ex control_byte resource then Inl InvalidRequest
      else Inr ())"

definition names_host :: "reference \<Rightarrow> bool" where
  "names_host r = (case r of File f \<Rightarrow> file_host f \<noteq> None | _ \<Rightarrow> False)"

definition ref_validate :: "reference \<Rightarrow> unit result" where
  "ref_validate r = ref_check (names_host r) r"

definition ref_validate_elsewhere :: "reference \<Rightarrow> unit result" where
  "ref_validate_elsewhere r = ref_check True r"

text \<open>
  Every place a validated reference may carry text to a log or a terminal. The fields are bounded
  and hold no control byte.
\<close>

fun ref_texts :: "reference \<Rightarrow> string list" where
  "ref_texts (File f) = [file_path f] @ (case file_sha256 f of Some d \<Rightarrow> [d] | None \<Rightarrow> [])"
| "ref_texts (PaneOf i l) = (case pane_workspace l of Some w \<Rightarrow> [w] | None \<Rightarrow> [])
     @ (case pane_tab l of Some t \<Rightarrow> [t] | None \<Rightarrow> [])"
| "ref_texts (Media i resource b) = [resource]"

lemma hexdigit_no_control: "is_ascii_hexdigit c \<Longrightarrow> \<not> control_byte c"
  by (auto simp: is_ascii_hexdigit_def is_ascii_digit_def control_byte_def)

text \<open>C36. A reference that passes validation, judged here or as another host's, carries nothing that
  could smuggle control bytes through a log or a terminal and nothing unbounded: every text in it
  is free of C0 and DEL bytes and at most 4096 bytes long, and a file path is absolute on some
  platform. What passes with this host's own rules also passes with the portable ones.\<close>

theorem ref_check_safe:
  "(ref_check elsewhere r = Inr () \<longrightarrow>
     (\<forall>t \<in> set (ref_texts r). length t \<le> 4096 \<and> (\<forall>c \<in> set t. \<not> control_byte c))
     \<and> (\<forall>f. r = File f \<longrightarrow> looks_absolute_anywhere (file_path f)))
   \<and> (ref_check False r = Inr () \<longrightarrow> ref_check True r = Inr ())"
proof (cases r)
  case (File f)
  have abs: "is_absolute p \<Longrightarrow> looks_absolute_anywhere p" for p
    by (simp add: is_absolute_def looks_absolute_anywhere_def)
  show ?thesis
    using abs [of "file_path f"] hexdigit_no_control
    by (auto simp: File sha256_field_ok_def MAX_PATH_BYTES_def list_ex_iff list_all_iff
        split: if_splits option.splits)
next
  case (PaneOf i l)
  then show ?thesis
    by (auto simp: pane_field_ok_def MAX_PANE_FIELD_BYTES_def list_ex_iff split: if_splits option.splits)
next
  case (Media i resource b)
  then show ?thesis
    by (auto simp: MAX_RESOURCE_ID_BYTES_def list_ex_iff split: if_splits)
qed

theorem ref_check_safe_witness:
  "length ''clip-1'' \<le> 4096 \<and> filter control_byte ''clip-1'' = []"
proof -
  have "ref_check False (Media ''a'' ''clip-1'' Live) = Inr ()" by code_simp
  then show ?thesis using ref_check_safe [of False "Media ''a'' ''clip-1'' Live"]
    by (simp add: filter_empty_conv)
qed

section \<open>Drafts\<close>

record draft =
  d_to :: opaque
  d_kind :: kind
  d_reply_to :: "opaque option"
  d_outcome :: "outcome option"
  d_subject :: "string option"
  d_text :: string
  d_refs :: "reference list"
  d_key :: string
  d_expires_in :: "int option"

definition MAX_TEXT_BYTES :: nat where "MAX_TEXT_BYTES = 32 * 1024"
definition MAX_SUBJECT_BYTES :: nat where "MAX_SUBJECT_BYTES = 256"
definition MAX_REFS :: nat where "MAX_REFS = 16"
definition MAX_IDEMPOTENCY_KEY_BYTES :: nat where "MAX_IDEMPOTENCY_KEY_BYTES = 128"
definition MAX_REQUEST_LIFETIME_MS :: int where "MAX_REQUEST_LIFETIME_MS = 7 * 24 * 60 * 60 * 1000"

fun all_valid :: "('a \<Rightarrow> unit result) \<Rightarrow> 'a list \<Rightarrow> unit result" where
  "all_valid v [] = Inr ()"
| "all_valid v (x # xs) = and_then (v x) (\<lambda>_. all_valid v xs)"

definition draft_validate :: "draft \<Rightarrow> unit result" where
  "draft_validate d =
     (if length (d_text d) > MAX_TEXT_BYTES then Inl InvalidRequest
      else if (case d_subject d of Some s \<Rightarrow> length s > MAX_SUBJECT_BYTES | None \<Rightarrow> False)
        then Inl InvalidRequest
      else if length (d_refs d) > MAX_REFS then Inl InvalidRequest
      else and_then (all_valid ref_validate (d_refs d)) (\<lambda>_.
        if d_key d = [] \<or> length (d_key d) > MAX_IDEMPOTENCY_KEY_BYTES then Inl InvalidRequest
        else if (case d_expires_in d of Some t \<Rightarrow> \<not> (1 \<le> t \<and> t \<le> MAX_REQUEST_LIFETIME_MS) | None \<Rightarrow> False)
          then Inl InvalidRequest
        else if d_kind d = Response
          then (if d_reply_to d = None then Inl InvalidRequest
                else if d_outcome d = None then Inl InvalidRequest
                else Inr ())
          else (if d_outcome d \<noteq> None then Inl InvalidRequest else Inr ())))"

definition or_empty :: "string option \<Rightarrow> string" where
  "or_empty v = (case v of Some s \<Rightarrow> s | None \<Rightarrow> [])"

text \<open>\<open>(len as u64).to_be_bytes()\<close>.\<close>

definition be64 :: "nat \<Rightarrow> string" where
  "be64 n = map (\<lambda>i. char_of (n div 256 ^ (7 - i) mod 256)) [0..<8]"

definition framed :: "string list \<Rightarrow> string" where
  "framed fs = concat (map (\<lambda>f. be64 (length f) @ f) fs)"

definition digest_fields :: "(reference list \<Rightarrow> string) \<Rightarrow> draft \<Rightarrow> string list" where
  "digest_fields json d =
     [d_to d, kind_str (d_kind d), or_empty (d_reply_to d), or_empty (map_option outcome_str (d_outcome d)),
      or_empty (d_subject d), d_text d, json (d_refs d)]"

definition draft_digest ::
  "(string \<Rightarrow> string) \<Rightarrow> (reference list \<Rightarrow> string) \<Rightarrow> draft \<Rightarrow> string" where
  "draft_digest sha json d = sha (framed (digest_fields json d))"

definition charged_bytes :: "(reference list \<Rightarrow> string) \<Rightarrow> draft \<Rightarrow> int" where
  "charged_bytes json d =
     min i64_max (int (length (d_text d) + length (or_empty (d_subject d)) + length (json (d_refs d))))"

lemma charged_bytes_nonneg [simp]: "0 \<le> charged_bytes json d"
  by (simp add: charged_bytes_def i64_max_def)

lemma all_valid_iff: "all_valid v xs = Inr () \<longleftrightarrow> (\<forall>x \<in> set xs. v x = Inr ())"
  by (induction xs) (auto simp: and_then_eq_Inr_iff)

lemma draft_validate_ok_iff:
  "draft_validate d = Inr () \<longleftrightarrow>
     length (d_text d) \<le> MAX_TEXT_BYTES
     \<and> (\<forall>s. d_subject d = Some s \<longrightarrow> length s \<le> MAX_SUBJECT_BYTES)
     \<and> length (d_refs d) \<le> MAX_REFS \<and> (\<forall>r \<in> set (d_refs d). ref_validate r = Inr ())
     \<and> d_key d \<noteq> [] \<and> length (d_key d) \<le> MAX_IDEMPOTENCY_KEY_BYTES
     \<and> (\<forall>t. d_expires_in d = Some t \<longrightarrow> 1 \<le> t \<and> t \<le> MAX_REQUEST_LIFETIME_MS)
     \<and> (if d_kind d = Response then d_reply_to d \<noteq> None \<and> d_outcome d \<noteq> None else d_outcome d = None)"
  by (auto simp: draft_validate_def and_then_eq_Inr_iff all_valid_iff not_less split: option.splits if_splits)

subsection \<open>The digest frames its fields\<close>

lemma be64_length [simp]: "length (be64 n) = 8"
  by (simp add: be64_def)

lemma base256_digits:
  assumes "m < 256 ^ k" "n < 256 ^ k" "\<And>i. i < k \<Longrightarrow> m div 256 ^ i mod 256 = n div 256 ^ i mod 256"
  shows "m = (n :: nat)"
  using assms
proof (induction k arbitrary: m n)
  case 0
  then show ?case by simp
next
  case (Suc k)
  have "m div 256 = n div 256"
  proof (rule Suc.IH)
    show "m div 256 < 256 ^ k" "n div 256 < 256 ^ k" using Suc.prems(1,2) by (auto simp: less_mult_imp_div_less)
    show "m div 256 div 256 ^ i mod 256 = n div 256 div 256 ^ i mod 256" if "i < k" for i
      using Suc.prems(3) [of "Suc i"] that by (simp add: div_mult2_eq)
  qed
  moreover have "m mod 256 = n mod 256" using Suc.prems(3) [of 0] by simp
  ultimately show ?case by (metis div_mult_mod_eq)
qed

lemma be64_inject:
  assumes "m < 2 ^ 64" "n < 2 ^ 64" "be64 m = be64 n"
  shows "m = n"
proof (rule base256_digits)
  show "m < 256 ^ 8" "n < 256 ^ 8" using assms by simp_all
  fix i :: nat assume "i < 8"
  then have i: "7 - i < 8" "7 - (7 - i) = i" by auto
  have "be64 m ! (7 - i) = be64 n ! (7 - i)" using assms(3) by simp
  then have "(char_of (m div 256 ^ i mod 256) :: char) = char_of (n div 256 ^ i mod 256)"
    using i by (simp add: be64_def)
  then show "m div 256 ^ i mod 256 = n div 256 ^ i mod 256"
    by (simp add: char_of_eq_iff take_bit_eq_mod)
qed

lemma framed_Cons: "framed (f # fs) = be64 (length f) @ f @ framed fs"
  by (simp add: framed_def)

lemma framed_inject:
  "length fs = length gs \<Longrightarrow> \<forall>f \<in> set fs \<union> set gs. length f < 2 ^ 64 \<Longrightarrow> framed fs = framed gs \<Longrightarrow> fs = gs"
proof (induction fs gs rule: list_induct2)
  case Nil
  then show ?case by simp
next
  case (Cons f fs g gs)
  then have "be64 (length f) = be64 (length g)" "f @ framed fs = g @ framed gs"
    by (auto simp: framed_Cons)
  moreover from this Cons.prems have "length f = length g" by (intro be64_inject) auto
  ultimately show ?case using Cons by auto
qed

lemma outcome_str_not_Nil [simp]: "outcome_str x \<noteq> []" "[] \<noteq> outcome_str x"
  by (cases x; simp)+

text \<open>C37. The bytes hashed for the idempotency digest determine the message: when the hash does not
  collide on two drafts' framed bytes, equal digests mean the same recipient, kind, outcome, text
  and reference encoding, and the same \<open>reply_to\<close> and subject up to the difference between an
  absent and an empty one; no content can move from one field to the next.\<close>

theorem draft_digest_determines_content:
  assumes "\<forall>f \<in> set (digest_fields json a) \<union> set (digest_fields json b). length f < 2 ^ 64"
    and "sha (framed (digest_fields json a)) = sha (framed (digest_fields json b)) \<Longrightarrow>
         framed (digest_fields json a) = framed (digest_fields json b)"
  shows "draft_digest sha json a = draft_digest sha json b \<longleftrightarrow>
    d_to a = d_to b \<and> d_kind a = d_kind b \<and> d_outcome a = d_outcome b \<and> d_text a = d_text b
    \<and> json (d_refs a) = json (d_refs b) \<and> or_empty (d_reply_to a) = or_empty (d_reply_to b)
    \<and> or_empty (d_subject a) = or_empty (d_subject b)"
proof -
  have "draft_digest sha json a = draft_digest sha json b \<longleftrightarrow> digest_fields json a = digest_fields json b"
    using assms framed_inject [of "digest_fields json a" "digest_fields json b"]
    by (auto simp: draft_digest_def) (simp add: digest_fields_def)
  moreover have "or_empty (map_option outcome_str x) = or_empty (map_option outcome_str y) \<longleftrightarrow> x = y" for x y
    using outcome_codec.render_inject by (auto simp: or_empty_def split: option.splits)
  moreover have "kind_str x = kind_str y \<longleftrightarrow> x = y" for x y
    using kind_codec.render_inject by auto
  ultimately show ?thesis by (auto simp: digest_fields_def)
qed

definition sample_draft :: "string \<Rightarrow> draft" where
  "sample_draft text = \<lparr>d_to = ''a'', d_kind = Request, d_reply_to = None, d_outcome = None,
     d_subject = None, d_text = text, d_refs = [], d_key = ''k'', d_expires_in = None\<rparr>"

theorem draft_digest_determines_content_witness:
  "draft_digest id (\<lambda>_. ''[]'') (sample_draft ''x'') \<noteq> draft_digest id (\<lambda>_. ''[]'') (sample_draft ''y'')"
proof -
  have "\<forall>f \<in> set (digest_fields (\<lambda>_. ''[]'') (sample_draft ''x''))
          \<union> set (digest_fields (\<lambda>_. ''[]'') (sample_draft ''y'')). length f < 2 ^ 64"
    by (simp add: digest_fields_def sample_draft_def or_empty_def)
  then show ?thesis
    by (subst draft_digest_determines_content) (simp_all add: sample_draft_def)
qed

end
