(* ===== verification/MeshPolicy.thy ===== *)
theory MeshPolicy
  imports MeshEnvelope
begin

text \<open>
  Policy gates (\<open>agent-mesh-core/src/lib.rs\<close>): who may queue a message, make it visible, start a
  turn, nudge a terminal or interrupt, decided by \<open>Policy::evaluate\<close> from the target's policy and
  what the store knows about the sender.
\<close>

datatype gate = Enqueue | MakeVisible | Activate | PtyNudge | Interrupt

datatype admit = Nobody | RepliesOnly | RepliesAndTeam | RepliesAndTrusted | Anyone

datatype team_scope = TeamOff | TeamRuntimeInstance | TeamSpace

fun team_scope_str :: "team_scope \<Rightarrow> string" where
  "team_scope_str TeamOff = ''off''"
| "team_scope_str TeamRuntimeInstance = ''runtime_instance''"
| "team_scope_str TeamSpace = ''space''"

definition team_scope_parse :: "string \<Rightarrow> team_scope result" where
  "team_scope_parse s =
     (if s = ''off'' then Inr TeamOff
      else if s = ''runtime_instance'' then Inr TeamRuntimeInstance
      else if s = ''space'' then Inr TeamSpace
      else Inl InvalidRequest)"

interpretation team_scope_codec: strict_codec team_scope_str team_scope_parse "\<lambda>_. True"
proof
  show "team_scope_parse (team_scope_str k) = Inr k" for k
    by (cases k) (simp_all add: team_scope_parse_def)
qed (auto simp: team_scope_parse_def split: if_splits)

record policy =
  pol_enqueue :: admit
  pol_make_visible :: admit
  pol_activate :: admit
  pol_pty_nudge :: bool
  pol_interrupt :: bool
  pol_trusted :: "opaque list"
  pol_team :: team_scope
  pol_max_inbound :: nat
  pol_max_auto_turns :: nat
  pol_attach :: bool

definition default_policy :: policy where
  "default_policy = \<lparr>pol_enqueue = Anyone, pol_make_visible = RepliesAndTrusted,
     pol_activate = RepliesAndTeam, pol_pty_nudge = False, pol_interrupt = False, pol_trusted = [],
     pol_team = TeamRuntimeInstance, pol_max_inbound = 60, pol_max_auto_turns = 4, pol_attach = True\<rparr>"

record gate_request =
  rq_sender :: principal
  rq_sender_scope :: "opaque option"
  rq_target_scope :: opaque
  rq_is_reply :: bool
  rq_sender_address :: "address option"
  rq_target_address :: "address option"
  rq_peer_trusted :: bool

datatype rule = RuleAnyone | RuleReply | RuleTeam | RuleTrusted | RuleNotAdmitted | RuleDisabled

fun rule_str :: "rule \<Rightarrow> string" where
  "rule_str RuleAnyone = ''anyone''"
| "rule_str RuleReply = ''reply''"
| "rule_str RuleTeam = ''team''"
| "rule_str RuleTrusted = ''trusted''"
| "rule_str RuleNotAdmitted = ''not_admitted''"
| "rule_str RuleDisabled = ''disabled''"

record decision =
  dec_allowed :: bool
  dec_rule :: rule

definition allow :: "rule \<Rightarrow> decision" where
  "allow r = \<lparr>dec_allowed = True, dec_rule = r\<rparr>"

definition refuse :: decision where
  "refuse = \<lparr>dec_allowed = False, dec_rule = RuleNotAdmitted\<rparr>"

definition flag_decision :: "bool \<Rightarrow> decision" where
  "flag_decision b = \<lparr>dec_allowed = b, dec_rule = (if b then RuleAnyone else RuleDisabled)\<rparr>"

fun gate_admit :: "policy \<Rightarrow> gate \<Rightarrow> admit option" where
  "gate_admit p Enqueue = Some (pol_enqueue p)"
| "gate_admit p MakeVisible = Some (pol_make_visible p)"
| "gate_admit p Activate = Some (pol_activate p)"
| "gate_admit p PtyNudge = None"
| "gate_admit p Interrupt = None"

definition trusts :: "policy \<Rightarrow> gate_request \<Rightarrow> bool" where
  "trusts p r = (case pr_endpoint (rq_sender r) of Some i \<Rightarrow> i \<in> set (pol_trusted p) | None \<Rightarrow> False)"

definition peer_decision :: "policy \<Rightarrow> admit \<Rightarrow> gate_request \<Rightarrow> decision" where
  "peer_decision p a r =
     (if a = Nobody then refuse
      else if rq_is_reply r then allow RuleReply
      else if (rq_peer_trusted r \<or> trusts p r) \<and> (a = Anyone \<or> a = RepliesAndTrusted) then allow RuleTrusted
      else refuse)"

definition same_instance :: "policy \<Rightarrow> gate_request \<Rightarrow> bool" where
  "same_instance p r =
     (case pol_team p of
        TeamOff \<Rightarrow> False
      | TeamRuntimeInstance \<Rightarrow> rq_sender_scope r = Some (rq_target_scope r)
      | TeamSpace \<Rightarrow>
          (case (rq_sender_address r, rq_target_address r) of
             (Some theirs, Some ours) \<Rightarrow>
               address_get ours Space \<noteq> None \<and> address_get theirs Space = address_get ours Space
           | _ \<Rightarrow> rq_sender_scope r = Some (rq_target_scope r)))"

definition local_decision :: "policy \<Rightarrow> gate \<Rightarrow> admit \<Rightarrow> gate_request \<Rightarrow> decision" where
  "local_decision p g a r =
     (if pr_kind (rq_sender r) = LocalUser \<and> g = MakeVisible \<and> a = RepliesAndTrusted then allow RuleAnyone
      else if rq_is_reply r \<and> a \<noteq> Nobody then allow RuleReply
      else if a = Anyone then allow RuleAnyone
      else if a = RepliesAndTrusted \<and> trusts p r then allow RuleTrusted
      else if a = RepliesAndTrusted \<and> same_instance p r then allow RuleTeam
      else if a = RepliesAndTeam \<and> same_instance p r then allow RuleTeam
      else refuse)"

definition evaluate :: "policy \<Rightarrow> gate \<Rightarrow> gate_request \<Rightarrow> decision" where
  "evaluate p g r =
     (case gate_admit p g of
        None \<Rightarrow> flag_decision (if g = PtyNudge then pol_pty_nudge p else pol_interrupt p)
      | Some a \<Rightarrow>
          if pr_kind (rq_sender r) = PeerPrincipal then peer_decision p a r
          else local_decision p g a r)"

lemma decision_simps [simp]:
  "dec_allowed (allow r)" "\<not> dec_allowed refuse" "dec_rule (allow r) = r" "dec_rule refuse = RuleNotAdmitted"
  "dec_allowed (flag_decision b) \<longleftrightarrow> b"
  by (simp_all add: allow_def refuse_def flag_decision_def)

text \<open>
  What the rules promise, stated independently of the order in which the code decides: who a
  rule admits.
\<close>

definition admits :: "policy \<Rightarrow> gate \<Rightarrow> admit \<Rightarrow> gate_request \<Rightarrow> bool" where
  "admits p g a r \<longleftrightarrow>
     (if pr_kind (rq_sender r) = PeerPrincipal
      then a \<noteq> Nobody \<and> (rq_is_reply r
             \<or> (rq_peer_trusted r \<or> trusts p r) \<and> (a = Anyone \<or> a = RepliesAndTrusted))
      else (case a of
              Nobody \<Rightarrow> False
            | RepliesOnly \<Rightarrow> rq_is_reply r
            | RepliesAndTeam \<Rightarrow> rq_is_reply r \<or> same_instance p r
            | RepliesAndTrusted \<Rightarrow> rq_is_reply r \<or> same_instance p r \<or> trusts p r
                \<or> (pr_kind (rq_sender r) = LocalUser \<and> g = MakeVisible)
            | Anyone \<Rightarrow> True))"

lemma evaluate_admits:
  assumes "gate_admit p g = Some a"
  shows "dec_allowed (evaluate p g r) = admits p g a r"
  using assms by (cases a) (simp_all add: evaluate_def peer_decision_def local_decision_def admits_def)

lemma evaluate_refusal:
  "dec_allowed (evaluate p g r) \<longleftrightarrow> dec_rule (evaluate p g r) \<notin> {RuleNotAdmitted, RuleDisabled}"
proof (cases "gate_admit p g")
  case None
  then have "g = PtyNudge \<or> g = Interrupt" by (cases g) auto
  with None show ?thesis by (auto simp: evaluate_def flag_decision_def)
next
  case (Some a)
  then show ?thesis
    by (cases a) (simp_all add: evaluate_def peer_decision_def local_decision_def)
qed

text \<open>C28. The gate decision is exactly the published rules. For the enqueue, visibility and activation
  gates a sender is admitted iff the gate's rule admits it: a peer host's agent only by a
  correlated reply or explicit trust where the rule takes trust (no team, no "anyone"), a local
  sender by reply, team or trust as the rule says, the local operator past a "replies and trusted"
  visibility gate, and under \<open>nobody\<close> no one; the PTY and interrupt gates follow their own flags
  alone. A refusal is always reported as not admitted or disabled, an admission never.\<close>

theorem evaluate_spec:
  "(dec_allowed (evaluate p g r) \<longleftrightarrow>
     (case gate_admit p g of
        Some a \<Rightarrow> admits p g a r
      | None \<Rightarrow> (g = PtyNudge \<and> pol_pty_nudge p) \<or> (g = Interrupt \<and> pol_interrupt p)))
   \<and> (dec_allowed (evaluate p g r) \<longleftrightarrow> dec_rule (evaluate p g r) \<notin> {RuleNotAdmitted, RuleDisabled})"
proof -
  have "gate_admit p g = None \<Longrightarrow> g = PtyNudge \<or> g = Interrupt" by (cases g) auto
  then show ?thesis
    unfolding evaluate_refusal [symmetric]
    by (cases "gate_admit p g") (auto simp: evaluate_admits evaluate_def [where g = PtyNudge]
        evaluate_def [where g = Interrupt])
qed

fun admit_rank :: "admit \<Rightarrow> nat" where
  "admit_rank Nobody = 0"
| "admit_rank RepliesOnly = 1"
| "admit_rank RepliesAndTeam = 2"
| "admit_rank RepliesAndTrusted = 3"
| "admit_rank Anyone = 4"

lemma admits_mono: "admit_rank a \<le> admit_rank b \<Longrightarrow> admits p g a r \<Longrightarrow> admits p g b r"
  by (cases a; cases b) (auto simp: admits_def split: if_splits)


definition sample_request :: "principal_kind \<Rightarrow> gate_request" where
  "sample_request k = \<lparr>rq_sender = \<lparr>pr_kind = k, pr_endpoint = Some ''e'', pr_incarnation = None\<rparr>,
     rq_sender_scope = Some ''s'', rq_target_scope = ''s'', rq_is_reply = False,
     rq_sender_address = None, rq_target_address = None, rq_peer_trusted = False\<rparr>"


end
