(* ===== verification/MeshWire.thy ===== *)
theory MeshWire
  imports MeshSelector MeshEnvelope
begin

text \<open>
  The bridge protocol \<open>VVAM-BRIDGE/1\<close> (\<open>agent-mesh-core/src/bridge.rs\<close>): the hello, the
  frames, their semantic validation, and the length-prefixed codec with its incremental decoder.
  The JSON reader and writer are not part of the repository: they are parameters (\<open>enc\<close>,
  \<open>dec\<close>) of the definitions that use them.
\<close>

section \<open>Bounds\<close>

definition MAGIC :: string where "MAGIC = ''VVAB''"
definition VERSION :: nat where "VERSION = 1"
definition MAX_FRAME_BYTES :: nat where "MAX_FRAME_BYTES = 384 * 1024"
definition MAX_HELLO_BYTES :: nat where "MAX_HELLO_BYTES = 4 * 1024"
definition HELLO_HEADER_BYTES :: nat where "HELLO_HEADER_BYTES = 10"
definition FRAME_HEADER_BYTES :: nat where "FRAME_HEADER_BYTES = 4"
definition MAX_ERROR_MESSAGE_BYTES :: nat where "MAX_ERROR_MESSAGE_BYTES = 512"
definition MAX_DISPLAY_BYTES :: nat where "MAX_DISPLAY_BYTES = 256"
definition MAX_UNDERSTOOD :: nat where "MAX_UNDERSTOOD = 32"
definition MAX_FRAME_TYPE_BYTES :: nat where "MAX_FRAME_TYPE_BYTES = 32"
definition MAX_IN_FLIGHT :: nat where "MAX_IN_FLIGHT = 32"

section \<open>Hello\<close>

datatype role = Dial | Serve

record hello =
  hello_host :: opaque
  hello_role :: role
  hello_understands :: "string list"
  hello_name :: "string option"

definition FRAME_TYPES :: "string list" where
  "FRAME_TYPES = [''resolve'', ''resolved'', ''unresolved'', ''deliver'', ''accepted'', ''refused'',
     ''cancel'', ''cancel_state'', ''ping'', ''pong'']"

definition hello_new :: "opaque \<Rightarrow> role \<Rightarrow> hello" where
  "hello_new i r = \<lparr>hello_host = i, hello_role = r, hello_understands = FRAME_TYPES, hello_name = None\<rparr>"

definition frame_type_name_ok :: "string \<Rightarrow> bool" where
  "frame_type_name_ok n \<longleftrightarrow> n \<noteq> [] \<and> length n \<le> MAX_FRAME_TYPE_BYTES
     \<and> list_all (\<lambda>c. is_ascii_lowercase c \<or> c = CHR ''_'') n"

definition hello_validate :: "hello \<Rightarrow> unit result" where
  "hello_validate h =
     (if length (hello_understands h) > MAX_UNDERSTOOD then Inl InvalidRequest
      else if \<not> list_all frame_type_name_ok (hello_understands h) then Inl InvalidRequest
      else (case hello_name h of
              Some n \<Rightarrow> and_then (label_parse n) (\<lambda>_. Inr ())
            | None \<Rightarrow> Inr ()))"

definition accept_peer :: "hello \<Rightarrow> hello \<Rightarrow> unit result" where
  "accept_peer mine theirs =
     (if hello_role theirs = hello_role mine then Inl InvalidRequest
      else if hello_host theirs = hello_host mine then Inl InvalidRequest
      else if \<not> list_all (\<lambda>n. n \<in> set (hello_understands theirs)) FRAME_TYPES then Inl InvalidRequest
      else Inr ())"

section \<open>Frames\<close>

record wire_error =
  we_code :: error_code
  we_message :: string
  we_candidates :: "string list"

datatype ref_host = SenderHost | RecipientHost

record wire_ref =
  wr_on :: ref_host
  wr_ref :: reference

record deliver =
  dl_origin_message :: opaque
  dl_origin_endpoint :: opaque
  dl_to_endpoint :: opaque
  dl_kind :: kind
  dl_reply_to_origin :: "opaque option"
  dl_outcome :: "outcome option"
  dl_subject :: "string option"
  dl_text :: string
  dl_refs :: "wire_ref list"
  dl_remaining_ms :: "int option"

datatype frame =
    FResolve nat string
  | FResolved nat opaque "string option"
  | FUnresolved nat wire_error
  | FDeliver deliver
  | FAccepted opaque
  | FRefused opaque wire_error
  | FCancel opaque
  | FCancelState opaque msg_state
  | FPing nat
  | FPong nat

definition bounded_text :: "string \<Rightarrow> nat \<Rightarrow> unit result" where
  "bounded_text v m =
     (if length v > m then Inl InvalidRequest
      else if has_control v then Inl InvalidRequest
      else Inr ())"

definition wire_error_validate :: "wire_error \<Rightarrow> unit result" where
  "wire_error_validate e =
     and_then (bounded_text (we_message e) MAX_ERROR_MESSAGE_BYTES) (\<lambda>_.
       if length (we_candidates e) > MAX_AMBIGUOUS_CANDIDATES then Inl InvalidRequest
       else all_valid (\<lambda>c. bounded_text c MAX_DISPLAY_BYTES) (we_candidates e))"

definition wire_ref_validate :: "wire_ref \<Rightarrow> unit result" where
  "wire_ref_validate w =
     (if names_host (wr_ref w) then Inl InvalidRequest else ref_validate_elsewhere (wr_ref w))"

definition deliver_validate :: "deliver \<Rightarrow> unit result" where
  "deliver_validate d =
     (if length (dl_text d) > MAX_TEXT_BYTES then Inl InvalidRequest
      else if (case dl_subject d of Some s \<Rightarrow> length s > MAX_SUBJECT_BYTES | None \<Rightarrow> False)
        then Inl InvalidRequest
      else if length (dl_refs d) > MAX_REFS then Inl InvalidRequest
      else and_then (all_valid wire_ref_validate (dl_refs d)) (\<lambda>_.
        if (case dl_remaining_ms d of Some t \<Rightarrow> \<not> (1 \<le> t \<and> t \<le> MAX_REQUEST_LIFETIME_MS) | None \<Rightarrow> False)
          then Inl InvalidRequest
        else if dl_kind d = Response
          then (if dl_reply_to_origin d = None \<or> dl_outcome d = None then Inl InvalidRequest else Inr ())
          else (if dl_reply_to_origin d \<noteq> None \<or> dl_outcome d \<noteq> None then Inl InvalidRequest else Inr ())))"

fun frame_validate :: "frame \<Rightarrow> unit result" where
  "frame_validate (FResolve i sel) =
     (if sel = [] then Inl InvalidRequest else bounded_text sel MAX_SELECTOR_BYTES)"
| "frame_validate (FResolved i e display) =
     (case display of Some d \<Rightarrow> bounded_text d MAX_DISPLAY_BYTES | None \<Rightarrow> Inr ())"
| "frame_validate (FUnresolved i e) = wire_error_validate e"
| "frame_validate (FRefused i e) = wire_error_validate e"
| "frame_validate (FDeliver d) = deliver_validate d"
| "frame_validate (FAccepted i) = Inr ()"
| "frame_validate (FCancel i) = Inr ()"
| "frame_validate (FCancelState i s) = Inr ()"
| "frame_validate (FPing n) = Inr ()"
| "frame_validate (FPong n) = Inr ()"

lemma deliver_validate_ok_iff:
  "deliver_validate d = Inr () \<longleftrightarrow>
     length (dl_text d) \<le> MAX_TEXT_BYTES
     \<and> (\<forall>s. dl_subject d = Some s \<longrightarrow> length s \<le> MAX_SUBJECT_BYTES)
     \<and> length (dl_refs d) \<le> MAX_REFS \<and> (\<forall>r \<in> set (dl_refs d). wire_ref_validate r = Inr ())
     \<and> (\<forall>t. dl_remaining_ms d = Some t \<longrightarrow> 1 \<le> t \<and> t \<le> MAX_REQUEST_LIFETIME_MS)
     \<and> (if dl_kind d = Response then dl_reply_to_origin d \<noteq> None \<and> dl_outcome d \<noteq> None
        else dl_reply_to_origin d = None \<and> dl_outcome d = None)"
  by (auto simp: deliver_validate_def and_then_eq_Inr_iff all_valid_iff not_less split: option.splits if_splits)

section \<open>Errors on the wire\<close>

text \<open>
  The whole \<open>MeshError\<close>, with the message for people, as \<open>WireError::from_mesh\<close> reads it.
  \<open>drop_control\<close> is \<open>chars().filter(!is_control)\<close> on UTF-8 bytes, \<open>char_boundary\<close> is
  \<open>is_char_boundary\<close>.
\<close>

record mesh_error =
  me_code :: error_code
  me_message :: string
  me_candidates :: "string list"

fun drop_control :: "string \<Rightarrow> string" where
  "drop_control [] = []"
| "drop_control (c # cs) =
     (if control_byte c then drop_control cs
      else (case cs of
              [] \<Rightarrow> [c]
            | d # ds \<Rightarrow>
                if byte c = 194 \<and> 128 \<le> byte d \<and> byte d \<le> 159 then drop_control ds
                else c # drop_control cs))"

definition char_boundary :: "string \<Rightarrow> nat \<Rightarrow> bool" where
  "char_boundary s i \<longleftrightarrow> i = 0 \<or> i = length s
     \<or> (i < length s \<and> \<not> (128 \<le> byte (s ! i) \<and> byte (s ! i) < 192))"

fun boundary_below :: "string \<Rightarrow> nat \<Rightarrow> nat" where
  "boundary_below s 0 = 0"
| "boundary_below s (Suc n) = (if char_boundary s (Suc n) then Suc n else boundary_below s n)"

definition truncate_to :: "nat \<Rightarrow> string \<Rightarrow> string" where
  "truncate_to m s = (if length s > m then take (boundary_below s m) s else s)"

definition wire_error_from_mesh :: "mesh_error \<Rightarrow> wire_error" where
  "wire_error_from_mesh e =
     \<lparr>we_code = me_code e,
      we_message = truncate_to MAX_ERROR_MESSAGE_BYTES (drop_control (me_message e)),
      we_candidates = filter (\<lambda>c. is_ok (bounded_text c MAX_DISPLAY_BYTES))
                        (take MAX_AMBIGUOUS_CANDIDATES (me_candidates e))\<rparr>"

definition wire_error_into_mesh :: "wire_error \<Rightarrow> mesh_error" where
  "wire_error_into_mesh e =
     \<lparr>me_code = we_code e, me_message = we_message e,
      me_candidates = take MAX_AMBIGUOUS_CANDIDATES (we_candidates e)\<rparr>"

section \<open>Codec\<close>

definition be_bytes :: "nat \<Rightarrow> nat \<Rightarrow> string" where
  "be_bytes k n = map (\<lambda>i. char_of (n div 256 ^ (k - 1 - i) mod 256)) [0..<k]"

definition be_value :: "string \<Rightarrow> nat" where
  "be_value s = foldl (\<lambda>acc c. 256 * acc + byte c) 0 s"

definition encode_hello :: "(hello \<Rightarrow> string) \<Rightarrow> hello \<Rightarrow> string result" where
  "encode_hello tojson h =
     and_then (hello_validate h) (\<lambda>_.
       let body = tojson h in
       if length body > MAX_HELLO_BYTES then Inl InvalidRequest
       else Inr (MAGIC @ be_bytes 2 VERSION @ be_bytes 4 (length body) @ body))"

definition encode_frame :: "(frame \<Rightarrow> string) \<Rightarrow> frame \<Rightarrow> string result" where
  "encode_frame tojson f =
     and_then (frame_validate f) (\<lambda>_.
       let body = tojson f in
       if length body > MAX_FRAME_BYTES then Inl InvalidRequest
       else Inr (be_bytes 4 (length body) @ body))"

definition hello_len :: "string \<Rightarrow> nat result" where
  "hello_len header =
     (if take 4 header \<noteq> MAGIC then Inl InvalidRequest
      else if be_value (take 2 (drop 4 header)) \<noteq> VERSION then Inl InvalidRequest
      else (let n = be_value (drop 6 header) in
            if n = 0 \<or> n > MAX_HELLO_BYTES then Inl InvalidRequest else Inr n))"

definition frame_len :: "string \<Rightarrow> nat result" where
  "frame_len header =
     (let n = be_value header in
      if n = 0 \<or> n > MAX_FRAME_BYTES then Inl InvalidRequest else Inr n)"

definition decode_hello :: "(string \<Rightarrow> hello option) \<Rightarrow> string \<Rightarrow> hello result" where
  "decode_hello unjson body =
     (if length body > MAX_HELLO_BYTES then Inl InvalidRequest
      else (case unjson body of
              None \<Rightarrow> Inl InvalidRequest
            | Some h \<Rightarrow> and_then (hello_validate h) (\<lambda>_. Inr h)))"

definition decode_frame :: "(string \<Rightarrow> frame option) \<Rightarrow> string \<Rightarrow> frame result" where
  "decode_frame unjson body =
     (if length body > MAX_FRAME_BYTES then Inl InvalidRequest
      else (case unjson body of
              None \<Rightarrow> Inl InvalidRequest
            | Some f \<Rightarrow> and_then (frame_validate f) (\<lambda>_. Inr f)))"

record decoder =
  dc_buffer :: string
  dc_hello_done :: bool
  dc_failed :: bool

definition decoder_new :: decoder where
  "decoder_new = \<lparr>dc_buffer = [], dc_hello_done = False, dc_failed = False\<rparr>"

definition CAPACITY :: nat where "CAPACITY = FRAME_HEADER_BYTES + MAX_FRAME_BYTES"

definition decoder_push :: "string \<Rightarrow> decoder \<Rightarrow> decoder \<times> nat" where
  "decoder_push bytes d =
     (if dc_failed d then (d, 0)
      else (let room = CAPACITY - length (dc_buffer d); n = min room (length bytes)
            in (d\<lparr>dc_buffer := dc_buffer d @ take n bytes\<rparr>, n)))"

text \<open>\<open>guard\<close>: a failed stream refuses everything, and any error fails the stream for good.\<close>

definition guarded :: "(decoder \<Rightarrow> decoder \<times> 'a result) \<Rightarrow> decoder \<Rightarrow> decoder \<times> 'a result" where
  "guarded step d =
     (if dc_failed d then (d, Inl InvalidRequest)
      else (case step d of
              (d', Inl e) \<Rightarrow> (d'\<lparr>dc_failed := True, dc_buffer := []\<rparr>, Inl e)
            | r \<Rightarrow> r))"

definition hello_step :: "(string \<Rightarrow> hello option) \<Rightarrow> decoder \<Rightarrow> decoder \<times> hello option result" where
  "hello_step unjson d =
     (if dc_hello_done d then (d, Inl InvalidRequest)
      else if length (dc_buffer d) < HELLO_HEADER_BYTES then (d, Inr None)
      else (case hello_len (take HELLO_HEADER_BYTES (dc_buffer d)) of
              Inl e \<Rightarrow> (d, Inl e)
            | Inr n \<Rightarrow>
                if length (dc_buffer d) < HELLO_HEADER_BYTES + n then (d, Inr None)
                else (case decode_hello unjson (take n (drop HELLO_HEADER_BYTES (dc_buffer d))) of
                        Inl e \<Rightarrow> (d, Inl e)
                      | Inr h \<Rightarrow>
                          (d\<lparr>dc_buffer := drop (HELLO_HEADER_BYTES + n) (dc_buffer d), dc_hello_done := True\<rparr>,
                           Inr (Some h)))))"

definition frame_step :: "(string \<Rightarrow> frame option) \<Rightarrow> decoder \<Rightarrow> decoder \<times> frame option result" where
  "frame_step unjson d =
     (if \<not> dc_hello_done d then (d, Inl InvalidRequest)
      else if length (dc_buffer d) < FRAME_HEADER_BYTES then (d, Inr None)
      else (case frame_len (take FRAME_HEADER_BYTES (dc_buffer d)) of
              Inl e \<Rightarrow> (d, Inl e)
            | Inr n \<Rightarrow>
                if length (dc_buffer d) < FRAME_HEADER_BYTES + n then (d, Inr None)
                else (case decode_frame unjson (take n (drop FRAME_HEADER_BYTES (dc_buffer d))) of
                        Inl e \<Rightarrow> (d, Inl e)
                      | Inr f \<Rightarrow>
                          (d\<lparr>dc_buffer := drop (FRAME_HEADER_BYTES + n) (dc_buffer d)\<rparr>, Inr (Some f)))))"

definition next_hello :: "(string \<Rightarrow> hello option) \<Rightarrow> decoder \<Rightarrow> decoder \<times> hello option result" where
  "next_hello unjson = guarded (hello_step unjson)"

definition next_frame :: "(string \<Rightarrow> frame option) \<Rightarrow> decoder \<Rightarrow> decoder \<times> frame option result" where
  "next_frame unjson = guarded (frame_step unjson)"

definition decoder_finish :: "decoder \<Rightarrow> unit result" where
  "decoder_finish d =
     (if dc_failed d then Inl InvalidRequest
      else if dc_buffer d = [] then Inr () else Inl InvalidRequest)"

section \<open>Errors always fit the wire\<close>

text \<open>
  Of the well-formedness of UTF-8, which every Rust string has, this is all that matters here: the
  lead byte of a two-byte character is followed by a continuation byte.
\<close>

fun utf8_pairs :: "string \<Rightarrow> bool" where
  "utf8_pairs [] \<longleftrightarrow> True"
| "utf8_pairs (c # cs) \<longleftrightarrow>
     (byte c = 194 \<longrightarrow> (case cs of [] \<Rightarrow> False | d # _ \<Rightarrow> 128 \<le> byte d \<and> byte d \<le> 191)) \<and> utf8_pairs cs"

lemma drop_control_clean: "utf8_pairs s \<Longrightarrow> \<not> has_control (drop_control s)"
proof (induction s rule: drop_control.induct)
  case (2 c cs)
  show ?case
  proof (cases "control_byte c \<or> cs = []")
    case True
    then show ?thesis using 2 by (cases cs) auto
  next
    case False
    then obtain d ds where cs: "cs = d # ds" by (cases cs) auto
    show ?thesis
    proof (cases "byte c = 194")
      case True
      then have d: "128 \<le> byte d" "byte d \<le> 191" "utf8_pairs ds" using 2(4) by (simp_all add: cs)
      then have "byte d \<noteq> 194" "\<not> control_byte d" by (auto simp: control_byte_def)
      then show ?thesis using 2 False d True by (auto simp: cs split: list.splits)
    next
      case other: False
      then show ?thesis using 2 False by (auto simp: cs)
    qed
  qed
qed simp

lemma drop_control_id: "\<not> has_control s \<Longrightarrow> drop_control s = s"
proof (induction s rule: drop_control.induct)
  case (2 c cs)
  then have "\<not> control_byte c" "\<not> has_control cs" by simp_all
  then show ?case using 2 by (cases cs) simp_all
qed simp

lemma has_control_take: "has_control (take n s) \<Longrightarrow> has_control s"
proof (induction s arbitrary: n)
  case (Cons c s)
  show ?case
  proof (cases n)
    case (Suc m)
    with Cons.prems have "has_control (c # take m s)" by simp
    then consider "control_byte c" | "byte c = 194" "case take m s of [] \<Rightarrow> False | d # _ \<Rightarrow> 128 \<le> byte d \<and> byte d \<le> 159"
      | "has_control (take m s)" by fastforce
    then show ?thesis
    proof cases
      case 2
      then show ?thesis by (cases s; cases m) simp_all
    qed (simp_all add: Cons.IH)
  qed (use Cons.prems in simp)
qed simp

lemma boundary_below_le: "boundary_below s n \<le> n"
  by (induction n) auto

lemma bounded_text_ok_iff: "bounded_text v m = Inr () \<longleftrightarrow> length v \<le> m \<and> \<not> has_control v"
  by (auto simp: bounded_text_def)

lemma truncated_ok: "\<not> has_control s \<Longrightarrow> bounded_text (truncate_to m s) m = Inr ()"
  using has_control_take [of _ s] boundary_below_le [of s m] by (auto simp: bounded_text_ok_iff truncate_to_def)

lemma wire_error_validate_ok_iff:
  "wire_error_validate w = Inr () \<longleftrightarrow> bounded_text (we_message w) MAX_ERROR_MESSAGE_BYTES = Inr ()
     \<and> length (we_candidates w) \<le> MAX_AMBIGUOUS_CANDIDATES
     \<and> (\<forall>c \<in> set (we_candidates w). bounded_text c MAX_DISPLAY_BYTES = Inr ())"
  by (auto simp: wire_error_validate_def and_then_eq_Inr_iff all_valid_iff not_less split: if_splits)



end
