(* ===== verification/MeshTime.thy ===== *)
theory MeshTime
  imports MeshPrelude "HOL-Library.Signed_Division"
begin

text \<open>
  Timestamps and durations (\<open>agent-mesh-core/src/time.rs\<close>), and \<open>str::trim\<close>. Reading the clock is
  outside; the numbers are \<open>i64\<close>, and no step of the calendar leaves its range.
\<close>

section \<open>Trimming\<close>

text \<open>The UTF-8 of the characters with the Unicode property White_Space.\<close>

definition white_spaces :: "string list" where
  "white_spaces =
     map (\<lambda>n. [char_of (n :: nat)]) [9, 10, 11, 12, 13, 32]
     @ map (map char_of) [[0xC2, 0x85], [0xC2, 0xA0], [0xE1, 0x9A, 0x80 :: nat]]
     @ map (\<lambda>n. [CHR 0xE2, CHR 0x80, char_of n]) ([0x80..<0x8B] @ [0xA8, 0xA9, 0xAF :: nat])
     @ [[CHR 0xE2, CHR 0x81, CHR 0x9F], [CHR 0xE3, CHR 0x80, CHR 0x80]]"

function strip_leading :: "string list \<Rightarrow> string \<Rightarrow> string" where
  "strip_leading ws s =
     (case List.find (\<lambda>w. w \<noteq> [] \<and> strip_prefix w s \<noteq> None) ws of
        None \<Rightarrow> s
      | Some w \<Rightarrow> strip_leading ws (drop (length w) s))"
  by pat_completeness auto
termination
  by (relation "measure (\<lambda>(_, s). length s)") (auto simp: find_Some_iff strip_prefix_Some_iff)

declare strip_leading.simps [simp del]

definition trim_start :: "string \<Rightarrow> string" where
  "trim_start s = strip_leading white_spaces s"

definition trim :: "string \<Rightarrow> string" where
  "trim s = rev (strip_leading (map rev white_spaces) (rev (trim_start s)))"

section \<open>The calendar\<close>

definition civil_from_days :: "int \<Rightarrow> int \<times> nat \<times> nat" where
  "civil_from_days days =
     (let z = days + 719468;
          era = (if z \<ge> 0 then z else z - 146096) sdiv 146097;
          doe = nat (z - era * 146097);
          yoe = (doe - doe div 1460 + doe div 36524 - doe div 146096) div 365;
          y = int yoe + era * 400;
          doy = doe - (365 * yoe + yoe div 4 - yoe div 100);
          mp = (5 * doy + 2) div 153;
          d = doy - (153 * mp + 2) div 5 + 1;
          m = (if mp < 10 then mp + 3 else mp - 9)
      in (if m \<le> 2 then y + 1 else y, m, d))"

text \<open>\<open>{:0w}\<close>: a number in a field filled with zeros, the sign first.\<close>

definition zero_padded :: "nat \<Rightarrow> int \<Rightarrow> string" where
  "zero_padded w n =
     (let ds = dec (nat \<bar>n\<bar>); sign = (if n < 0 then ''-'' else [])
      in sign @ replicate (w - length sign - length ds) (CHR ''0'') @ ds)"

definition rfc3339 :: "int \<Rightarrow> string" where
  "rfc3339 ms =
     (let days = ms div 86400000; ms_of_day = ms mod 86400000;
          s = ms_of_day div 1000; millis = ms_of_day mod 1000
      in (case civil_from_days days of (year, month, day) \<Rightarrow>
            zero_padded 4 year @ ''-'' @ zero_padded 2 (int month) @ ''-'' @ zero_padded 2 (int day) @ ''T''
            @ zero_padded 2 (s div 3600) @ '':'' @ zero_padded 2 (s mod 3600 div 60) @ '':''
            @ zero_padded 2 (s mod 60) @ ''.'' @ zero_padded 3 millis @ ''Z''))"

section \<open>Durations\<close>

text \<open>The text of an error is for people and is left out.\<close>

definition unit_scale :: "string \<Rightarrow> int option" where
  "unit_scale u =
     (if u = ''ms'' then Some 1
      else if u = ''s'' \<or> u = [] then Some 1000
      else if u = ''m'' then Some 60000
      else if u = ''h'' then Some 3600000
      else if u = ''d'' then Some 86400000
      else None)"

definition checked_mul :: "int \<Rightarrow> int \<Rightarrow> int option" where
  "checked_mul a b = (if i64_min \<le> a * b \<and> a * b \<le> i64_max then Some (a * b) else None)"

definition parse_duration_ms :: "string \<Rightarrow> int option" where
  "parse_duration_ms value =
     (let v = trim value; ds = takeWhile is_ascii_digit v; rest = dropWhile is_ascii_digit v;
          u = (if rest = [] then ''s'' else rest)
      in if ds = [] then None
         else if int (digits_val ds) > i64_max then None
         else Option.bind (unit_scale u) (\<lambda>scale. checked_mul (int (digits_val ds)) scale))"

section \<open>The calendar is the Gregorian one\<close>

text \<open>The year of an era that starts on the first of March, by the days before it.\<close>

definition corrected :: "nat \<Rightarrow> nat" where
  "corrected doe = doe - doe div 1460 + doe div 36524 - doe div 146096"

definition days_before :: "nat \<Rightarrow> nat" where
  "days_before y = 365 * y + y div 4 - y div 100"

definition year_end :: "nat \<Rightarrow> nat" where
  "year_end y = (if y = 399 then 146097 else days_before (y + 1))"

lemma corrected_Suc: "d < 146096 \<Longrightarrow> corrected d \<le> corrected (Suc d)"
proof -
  assume d: "d < 146096"
  have "Suc d div 1460 \<le> Suc (d div 1460)" by simp
  show ?thesis
  proof (cases "Suc d = 146096")
    case False
    have "d div 1460 \<le> d" by simp
    then show ?thesis using d False by (auto simp: corrected_def div_Suc)
  next
    case True
    then have "d = 146095" by simp
    then show ?thesis by (simp add: corrected_def)
  qed
qed

lemma corrected_mono: "e \<le> 146096 \<Longrightarrow> d \<le> e \<Longrightarrow> corrected d \<le> corrected e"
proof (induction e)
  case (Suc e)
  show ?case
  proof (cases "d \<le> e")
    case True
    then show ?thesis using Suc corrected_Suc [of e] by simp
  next
    case False
    then show ?thesis using Suc.prems by (simp add: le_Suc_eq)
  qed
qed simp

text \<open>\<open>y = 100 c + 4 s + r\<close>: the days before a year, and the three quotients there.\<close>

lemma days_before_digits:
  assumes "s < 25" "r < 4"
  shows "days_before (100 * c + 4 * s + r) = 36524 * c + 1461 * s + 365 * r"
proof -
  have "(100 * c + 4 * s + r) div 4 = 25 * c + s" using assms by presburger
  moreover have "(100 * c + 4 * s + r) div 100 = c" using assms by simp
  ultimately show ?thesis by (simp add: days_before_def)
qed

lemma year_digits:
  assumes "y < (400 :: nat)"
  obtains c s r where "y = 100 * c + 4 * s + r" "c < 4" "s < 25" "r < 4"
proof
  have "y mod 100 mod 4 = y mod 4" by (simp add: mod_mod_cancel)
  then show "y = 100 * (y div 100) + 4 * (y mod 100 div 4) + y mod 4"
    using mult_div_mod_eq [of 100 y] mult_div_mod_eq [of 4 "y mod 100"] by linarith
qed (use assms in auto)

lemma corrected_start:
  assumes "y < 400"
  shows "corrected (days_before y) = 365 * y"
proof -
  obtain c s r where y: "y = 100 * c + 4 * s + r" "c < 4" "s < 25" "r < 4" using year_digits [OF assms] .
  let ?d = "36524 * c + 1461 * s + 365 * r"
  have "?d = 1460 * (25 * c + s) + (24 * c + s + 365 * r)" by simp
  then have one: "?d div 1460 = 25 * c + s" using y by (simp add: div_mult_self4)
  have two: "?d div 36524 = c" using y by simp
  have three: "?d div 146096 = 0" using y by simp
  show ?thesis using y by (simp add: days_before_digits corrected_def one two three)
qed

lemma corrected_end:
  assumes "y < 400"
  shows "corrected (year_end y - 1) < 365 * (y + 1)"
proof (cases "y = 399")
  case True
  then show ?thesis by (simp add: year_end_def corrected_def)
next
  case False
  then have "y + 1 < 400" using assms by simp
  then obtain c s r where y: "y + 1 = 100 * c + 4 * s + r" "c < 4" "s < 25" "r < 4" using year_digits by blast
  let ?d = "36524 * c + 1461 * s + 365 * r"
  have e: "year_end y - 1 = ?d - 1" using False y days_before_digits [OF y(3,4), of c] by (simp add: year_end_def)
  have pos: "24 * c + s + 365 * r > 0" using y(1) by (cases c) auto
  have "?d - 1 = 1460 * (25 * c + s) + (24 * c + s + 365 * r - 1)" using pos by simp
  then have one: "(?d - 1) div 1460 = 25 * c + s" using y by (simp add: div_mult_self4)
  have two: "(?d - 1) div 36524 \<le> c" using y by (simp add: less_mult_imp_div_less less_Suc_eq_le [symmetric])
  have three: "(?d - 1) div 146096 = 0" using y by simp
  obtain k where k: "24 * c + s + 365 * r = Suc k" using pos by (cases "24 * c + s + 365 * r") auto
  then have four: "?d - 1 - (25 * c + s) = 1459 * (25 * c + s) + k" by simp
  have "365 * (y + 1) = 1459 * (25 * c + s) + Suc k + c" using y(1) k by simp
  then show ?thesis using two unfolding e corrected_def one three four by simp
qed

text \<open>The year found is the one whose days contain the day.\<close>

definition yoe_of :: "nat \<Rightarrow> nat" where
  "yoe_of doe = corrected doe div 365"

lemma year_end_mono: "y < 399 \<Longrightarrow> year_end y = days_before (Suc y)"
  by (simp add: year_end_def)

lemma days_before_step: "days_before y < days_before (Suc y)"
proof -
  have sum: "365 * y + q + a' < 365 * Suc y + q' + a" if "a' \<le> Suc a" "q \<le> q'" for a a' q q'
    using that by simp
  have "Suc y div 100 \<le> Suc (y div 100)" by (simp add: div_Suc)
  moreover have "y div 4 \<le> Suc y div 4" by (simp add: div_le_mono)
  ultimately have "365 * y + y div 4 + Suc y div 100 < 365 * Suc y + Suc y div 4 + y div 100" by (rule sum)
  moreover have "y div 100 \<le> 365 * y + y div 4" using div_le_dividend [of y 100] by linarith
  ultimately show ?thesis by (simp add: days_before_def less_diff_conv less_diff_conv2)
qed

lemma days_before_mono: "a \<le> b \<Longrightarrow> days_before a \<le> days_before b"
  by (rule lift_Suc_mono_le [of days_before]) (simp_all add: less_imp_le days_before_step)

lemma year_of_day:
  assumes "doe < 146097"
  shows "\<exists>y < 400. days_before y \<le> doe \<and> doe < year_end y"
proof -
  let ?P = "\<lambda>y. y \<le> 399 \<and> days_before y \<le> doe"
  have start: "?P 0" by (simp add: days_before_def)
  have bound: "\<forall>y. ?P y \<longrightarrow> y \<le> 399" by simp
  obtain y where y: "?P y" "\<forall>z. ?P z \<longrightarrow> z \<le> y"
    using GreatestI_nat [of ?P, OF start bound [rule_format]] Greatest_le_nat [of ?P _ 399] by blast
  have "doe < year_end y"
  proof (cases "y = 399")
    case False
    then have "\<not> ?P (Suc y)" using y(2) by (metis Suc_n_not_le_n)
    then show ?thesis using False y(1) by (simp add: year_end_def)
  qed (use assms in \<open>simp add: year_end_def\<close>)
  then show ?thesis using y(1) by (intro exI [of _ y]) simp
qed

lemma yoe_of_eq:
  assumes "y < 400" "days_before y \<le> doe" "doe < year_end y"
  shows "yoe_of doe = y"
proof -
  have "year_end y \<le> 146097"
    using assms(1) days_before_mono [of "y + 1" 399] by (auto simp: year_end_def days_before_def)
  then have "corrected (days_before y) \<le> corrected doe" "corrected doe \<le> corrected (year_end y - 1)"
    using assms by (auto intro!: corrected_mono)
  then have "365 * y \<le> corrected doe" "corrected doe < 365 * (y + 1)"
    using corrected_start [OF assms(1)] corrected_end [OF assms(1)] by simp_all
  then show ?thesis by (simp add: yoe_of_def div_nat_eqI)
qed

text \<open>The month and the day in a year that starts on the first of March.\<close>

definition month_of :: "nat \<Rightarrow> nat" where
  "month_of doy = (let mp = (5 * doy + 2) div 153 in if mp < 10 then mp + 3 else mp - 9)"

definition mday_of :: "nat \<Rightarrow> nat" where
  "mday_of doy = doy - (153 * ((5 * doy + 2) div 153) + 2) div 5 + 1"

definition leap_year :: "int \<Rightarrow> bool" where
  "leap_year y \<longleftrightarrow> 4 dvd y \<and> (\<not> 100 dvd y \<or> 400 dvd y)"

definition month_length :: "int \<Rightarrow> nat \<Rightarrow> nat" where
  "month_length y m =
     (if m = 2 then (if leap_year y then 29 else 28) else if m \<in> {4, 6, 9, 11} then 30 else 31)"

definition next_day :: "int \<times> nat \<times> nat \<Rightarrow> int \<times> nat \<times> nat" where
  "next_day x = (case x of (y, m, d) \<Rightarrow>
     if d < month_length y m then (y, m, d + 1)
     else if m < 12 then (y, m + 1, 1) else (y + 1, 1, 1))"

text \<open>The civil date of day \<open>doy\<close> of year \<open>y\<close> counted from March.\<close>

definition march_date :: "int \<Rightarrow> nat \<Rightarrow> int \<times> nat \<times> nat" where
  "march_date y doy = (if month_of doy \<le> 2 then y + 1 else y, month_of doy, mday_of doy)"

lemma march_month:
  "(5 * doy + 2) div 153 = (k :: nat) \<longleftrightarrow> (153 * k + 2) div 5 \<le> doy \<and> doy < (153 * (k + 1) + 2) div 5"
proof -
  have fifth: "(t + 2) div 5 \<le> n \<longleftrightarrow> t \<le> 5 * n + 2" for t n :: nat
    using div_less_iff_less_mult [of 5 "t + 2" "n + 1"] by (simp add: less_Suc_eq_le) linarith
  then have above: "n < (t + 2) div 5 \<longleftrightarrow> 5 * n + 2 < t" for t n :: nat by (metis not_le)
  have "(5 * doy + 2) div 153 = k \<longleftrightarrow> 153 * k \<le> 5 * doy + 2 \<and> 5 * doy + 2 < 153 * (k + 1)"
    by (metis Suc_eq_plus1 div_nat_eqI dividend_less_times_div mult.commute mult_Suc times_div_less_eq_dividend
        zero_less_numeral)
  then show ?thesis by (simp only: fifth above)
qed

lemma march_step:
  assumes "doy < 365"
  shows "month_of doy \<in> {1..12} \<and> mday_of doy \<ge> 1 \<and>
     (if mday_of doy < (if month_of doy = 2 then 29 else if month_of doy \<in> {4, 6, 9, 11} then 30 else 31)
      then month_of (doy + 1) = month_of doy \<and> mday_of (doy + 1) = mday_of doy + 1
      else month_of (doy + 1) = (if month_of doy = 12 then 1 else month_of doy + 1) \<and> mday_of (doy + 1) = 1)"
proof -
  let ?k = "(5 * doy + 2) div 153"
  have k: "(153 * ?k + 2) div 5 \<le> doy" "doy < (153 * (?k + 1) + 2) div 5" using march_month by blast+
  have "?k < 12" using assms by simp
  then have "?k \<in> set (upt 0 12)" by simp
  moreover have "upt 0 12 = [0, 1, 2, 3, 4, 5, 6, 7, 8, 9, 10, 11]" by code_simp
  ultimately have "?k \<in> set [0, 1, 2, 3, 4, 5, 6, 7, 8, 9, 10, 11]" by (simp only:)
  then show ?thesis
    using assms k march_month [of "doy + 1" ?k] march_month [of "doy + 1" "?k + 1"]
    by (simp only: list.set insert_iff empty_iff) (elim disjE; auto simp: month_of_def mday_of_def Let_def)
qed

lemma floor_sdiv: "(if z \<ge> 0 then z else z - 146096) sdiv 146097 = z div (146097 :: int)"
proof (cases "z \<ge> 0")
  case False
  have "- ((146096 - z) div 146097) = z div 146097"
    by (simp add: minus_div_mult_eq_mod [symmetric] div_eq_minus1)
  then show ?thesis using False by (simp add: signed_divide_int_def)
qed (cases "z = 0"; simp add: signed_divide_int_def)

lemma civil_from_days_eq:
  "civil_from_days days =
     (let z = days + 719468; doe = nat (z mod 146097); y = yoe_of doe
      in march_date (int y + z div 146097 * 400) (doe - days_before y))"
proof -
  let ?z = "days + 719468"
  have doe: "?z - ?z div 146097 * 146097 = ?z mod 146097" by (simp add: minus_div_mult_eq_mod)
  show ?thesis
    unfolding civil_from_days_def Let_def floor_sdiv doe march_date_def month_of_def mday_of_def yoe_of_def
      corrected_def days_before_def ..
qed

lemma february: "doy < 366 \<Longrightarrow> month_of doy = 2 \<longleftrightarrow> 337 \<le> doy" "337 \<le> doy \<Longrightarrow> doy < 366 \<Longrightarrow> mday_of doy = doy - 336"
proof -
  have eleven: "(5 * doy + 2) div 153 = 11 \<longleftrightarrow> 337 \<le> doy" if "doy < 366"
    using that march_month [of doy 11] by simp
  then show "doy < 366 \<Longrightarrow> month_of doy = 2 \<longleftrightarrow> 337 \<le> doy" by (auto simp: month_of_def Let_def)
  show "337 \<le> doy \<Longrightarrow> doy < 366 \<Longrightarrow> mday_of doy = doy - 336" using eleven by (simp add: mday_of_def)
qed

lemma next_march:
  assumes "doy < (if leap_year (y + 1) then 366 else 365)"
  shows "next_day (march_date y doy)
    = (if doy + 1 < (if leap_year (y + 1) then 366 else 365) then march_date y (doy + 1) else march_date (y + 1) 0)"
proof (cases "337 \<le> doy")
  case True
  have doy: "doy < 366" using assms by (simp split: if_splits)
  have m: "month_of doy = 2" "mday_of doy = doy - 336" using february [of doy] True doy by simp_all
  have next1: "doy + 1 < 366 \<Longrightarrow> month_of (doy + 1) = 2 \<and> mday_of (doy + 1) = doy + 1 - 336"
    using february [of "doy + 1"] True by simp
  have first: "month_of 0 = 3" "mday_of 0 = 1" by (simp_all add: month_of_def mday_of_def)
  show ?thesis using assms True m next1 first
    by (auto simp: march_date_def next_day_def month_length_def split: if_splits)
next
  case False
  then have "month_of doy \<noteq> 2" using february [of doy] by simp
  with march_step [of doy] False show ?thesis
    by (auto simp: march_date_def next_day_def month_length_def split: if_splits)
qed

lemma year_length:
  assumes "y < 400"
  shows "year_end y - days_before y = (if leap_year (int y + era * 400 + 1) then 366 else 365)"
proof -
  have era: "n dvd int y + era * 400 + 1 \<longleftrightarrow> n dvd int (Suc y)" if "n dvd 400" for n
  proof -
    have "n dvd era * 400" using that by simp
    then show ?thesis using dvd_add_left_iff [of n "era * 400" "int (Suc y)"] by (simp add: algebra_simps)
  qed
  have leap: "leap_year (int y + era * 400 + 1) \<longleftrightarrow> 4 dvd Suc y \<and> (\<not> 100 dvd Suc y \<or> 400 dvd Suc y)"
    using int_dvd_int_iff [of 4 "Suc y"] int_dvd_int_iff [of 100 "Suc y"] int_dvd_int_iff [of 400 "Suc y"]
    by (simp add: leap_year_def era del: of_nat_Suc)
  show ?thesis
  proof (cases "y = 399")
    case True
    then show ?thesis unfolding leap by (simp add: year_end_def days_before_def)
  next
    case False
    then have "\<not> 400 dvd Suc y" using assms by (auto dest: dvd_imp_le)
    moreover have "Suc y div 4 = y div 4 + (if 4 dvd Suc y then 1 else 0)"
      "Suc y div 100 = y div 100 + (if 100 dvd Suc y then 1 else 0)"
      by (simp_all add: div_Suc dvd_eq_mod_eq_0)
    moreover have "4 dvd Suc y" if "100 dvd Suc y" using that by (rule dvd_trans [rotated]) simp
    moreover have "y div 100 \<le> y div 4" "Suc y div 100 \<le> Suc y div 4" by (simp_all add: div_le_mono2)
    ultimately show ?thesis unfolding leap using False
      by (simp add: year_end_def days_before_def)
  qed
qed

lemma era_step:
  fixes z :: int
  assumes "z mod 146097 = r" "z div 146097 = e"
  shows "r + 1 < 146097 \<Longrightarrow> (z + 1) mod 146097 = r + 1 \<and> (z + 1) div 146097 = e"
   "\<not> r + 1 < 146097 \<Longrightarrow> (z + 1) mod 146097 = 0 \<and> (z + 1) div 146097 = e + 1"
proof -
  have z: "z = 146097 * e + r" "0 \<le> r" "r < 146097" using assms by auto
  show "r + 1 < 146097 \<Longrightarrow> (z + 1) mod 146097 = r + 1 \<and> (z + 1) div 146097 = e"
    using z div_pos_pos_trivial by (auto simp: mod_pos_pos_trivial intro: int_div_pos_eq int_mod_pos_eq)
  assume "\<not> r + 1 < 146097"
  then have "z + 1 = 146097 * (e + 1)" using z by simp
  then show "(z + 1) mod 146097 = 0 \<and> (z + 1) div 146097 = e + 1" by simp
qed

text \<open>C38. Timestamps show the Gregorian date. Day 0 is 1 January 1970, and for every day, before or after,
  the date of the next day is the day after in the Gregorian calendar: the same month if it has another
  day (29 days of February in the years divisible by 4 but not by 100, or by 400), else the first of
  the next month.\<close>

theorem calendar_is_gregorian:
  "civil_from_days 0 = (1970, 1, 1) \<and> civil_from_days (days + 1) = next_day (civil_from_days days)"
proof
  have first: "(0 + 719468) mod 146097 = (135080 :: int)" "(0 + 719468) div 146097 = (4 :: int)" by simp_all
  have year: "yoe_of 135080 = 369" by (simp add: yoe_of_def corrected_def)
  show "civil_from_days 0 = (1970, 1, 1)"
    unfolding civil_from_days_eq Let_def first nat_numeral year
    by (simp add: march_date_def month_of_def mday_of_def days_before_def)
  let ?z = "days + 719468"
  define doe where "doe = nat (?z mod 146097)"
  define era where "era = ?z div 146097"
  have doe: "doe < 146097" "int doe = ?z mod 146097" by (simp_all add: doe_def)
  obtain y where y: "y < 400" "days_before y \<le> doe" "doe < year_end y" using year_of_day [OF doe(1)] by blast
  let ?Y = "int y + era * 400"
  have now: "civil_from_days days = march_date ?Y (doe - days_before y)"
    by (simp add: civil_from_days_eq Let_def yoe_of_eq [OF y] flip: doe_def era_def)
  have len: "year_end y - days_before y = (if leap_year (?Y + 1) then 366 else 365)" by (rule year_length [OF y(1)])
  have "doe - days_before y < (if leap_year (?Y + 1) then 366 else 365)" using y len by linarith
  from next_march [OF this] have step0: "next_day (civil_from_days days) =
      (if doe - days_before y + 1 < year_end y - days_before y then march_date ?Y (doe - days_before y + 1) else march_date (?Y + 1) 0)"
    unfolding now len .
  have shift: "doe - days_before y + 1 = doe + 1 - days_before y"
    "doe + 1 - days_before y < year_end y - days_before y \<longleftrightarrow> doe + 1 < year_end y" using y by linarith+
  have step: "next_day (civil_from_days days) =
      (if doe + 1 < year_end y then march_date ?Y (doe + 1 - days_before y) else march_date (?Y + 1) 0)"
    using step0 unfolding shift .
  show "civil_from_days (days + 1) = next_day (civil_from_days days)"
  proof (cases "doe + 1 < 146097")
    case True
    with era_step(1) [OF refl refl, of ?z] doe(2)
    have same: "(days + 1 + 719468) mod 146097 = int (doe + 1)" "(days + 1 + 719468) div 146097 = era"
      by (simp_all add: era_def algebra_simps)
    have next_day: "civil_from_days (days + 1) = (let y = yoe_of (doe + 1) in march_date (int y + era * 400) (doe + 1 - days_before y))"
      unfolding civil_from_days_eq Let_def same nat_int ..
    show ?thesis
    proof (cases "doe + 1 < year_end y")
      case inside: True
      then have "yoe_of (doe + 1) = y" using y by (intro yoe_of_eq) simp_all
      then show ?thesis unfolding next_day step using inside by simp
    next
      case False
      then have last: "doe + 1 = days_before (Suc y)" "y < 399" using y True by (auto simp: year_end_def split: if_splits)
      have "yoe_of (doe + 1) = Suc y"
        using last days_before_step [of "Suc y"] by (intro yoe_of_eq) (auto simp: year_end_def days_before_def)
      then show ?thesis unfolding next_day step using False last by (simp add: algebra_simps)
    qed
  next
    case False
    with era_step(2) [OF refl refl, of ?z] doe(2)
    have same: "(days + 1 + 719468) mod 146097 = 0" "(days + 1 + 719468) div 146097 = era + 1"
      by (simp_all add: era_def algebra_simps)
    have "year_end y = 146097" "y = 399" using y doe False days_before_mono [of "Suc y" 399]
      by (auto simp: year_end_def days_before_def split: if_splits)
    moreover have "yoe_of 0 = 0" "days_before 0 = 0" by (simp_all add: yoe_of_def corrected_def days_before_def)
    moreover have "civil_from_days (days + 1) = march_date (int (yoe_of 0) + (era + 1) * 400) (0 - days_before (yoe_of 0))"
      unfolding civil_from_days_eq [of "days + 1"] Let_def same by simp
    ultimately show ?thesis unfolding step using False doe by (simp add: algebra_simps)
  qed
qed

end
