(* ===== verification/BridgeStream.thy ===== *)
theory BridgeStream
  imports MeshWire
begin

text \<open>
  The reading side of a bridge (\<open>spawn_reader\<close> of \<open>vvagent/src/bridge.rs\<close>) on the incremental decoder of
  \<open>agent-mesh-core/src/bridge.rs\<close>: bytes arrive in chunks of any size, the decoder buffers at most one
  maximal frame, and the loop hands complete items on. The theory proves that the chunking never
  matters, that the loops end, and that a stream which failed once stays failed.
\<close>

section \<open>The reader\<close>

datatype incoming = InHello hello | InFrame frame | InClosed | InFailed error_code

text \<open>What \<open>read\<close> returned: bytes (none at the end of the stream), an interruption, or an error.\<close>

datatype read_result = Bytes string | Interrupted | Broken

definition next_item ::
  "(string \<Rightarrow> hello option) \<Rightarrow> (string \<Rightarrow> frame option) \<Rightarrow> bool \<Rightarrow> decoder \<Rightarrow> decoder \<times> incoming option result" where
  "next_item unh unf greeted d =
     (if greeted
      then (case next_frame unf d of
              (d', Inl e) \<Rightarrow> (d', Inl e) | (d', Inr r) \<Rightarrow> (d', Inr (map_option InFrame r)))
      else (case next_hello unh d of
              (d', Inl e) \<Rightarrow> (d', Inl e) | (d', Inr r) \<Rightarrow> (d', Inr (map_option InHello r))))"

lemma next_item_shrinks:
  assumes "next_item unh unf greeted d = (d', Inr (Some x))"
  shows "length (dc_buffer d') < length (dc_buffer d)"
  using assms
  by (auto simp: next_item_def next_frame_def next_hello_def guarded_def frame_step_def hello_step_def
      frame_len_def hello_len_def Let_def HELLO_HEADER_BYTES_def FRAME_HEADER_BYTES_def
      split: if_splits sum.splits option.splits prod.splits)

text \<open>The inner loop: every complete item in the buffer, until one is incomplete or refused.\<close>

function drain ::
  "(string \<Rightarrow> hello option) \<Rightarrow> (string \<Rightarrow> frame option) \<Rightarrow> bool \<Rightarrow> decoder \<Rightarrow> bool \<times> decoder \<times> incoming list \<times> error_code option" where
  "drain unh unf greeted d =
     (case next_item unh unf greeted d of
        (d', Inl e) \<Rightarrow> (greeted, d', [], Some e)
      | (d', Inr None) \<Rightarrow> (greeted, d', [], None)
      | (d', Inr (Some x)) \<Rightarrow>
          (case drain unh unf True d' of (g, d'', xs, err) \<Rightarrow> (g, d'', x # xs, err)))"
  by pat_completeness auto
termination
  by (relation "measure (\<lambda>(_, _, _, d). length (dc_buffer d))") (auto dest: next_item_shrinks [OF sym])

declare drain.simps [simp del]

text \<open>
  The middle loop: what one \<open>read\<close> returned goes into the decoder as far as it fits. The result is
  the reader's state, what it handed on, and whether it stopped.
\<close>

function feed ::
  "(string \<Rightarrow> hello option) \<Rightarrow> (string \<Rightarrow> frame option) \<Rightarrow> bool \<Rightarrow> decoder \<Rightarrow> string \<Rightarrow> bool \<times> decoder \<times> incoming list \<times> bool" where
  "feed unh unf greeted d rest =
     (if rest = [] then (greeted, d, [], False)
      else (case decoder_push rest d of (d1, taken) \<Rightarrow>
             (case drain unh unf greeted d1 of
                (g, d2, xs, Some e) \<Rightarrow> (g, d2, xs @ [InFailed e], True)
              | (g, d2, xs, None) \<Rightarrow>
                  if taken = 0 then (g, d2, xs @ [InFailed InvalidRequest], True)
                  else (case feed unh unf g d2 (drop taken rest) of
                          (g', d3, ys, stop) \<Rightarrow> (g', d3, xs @ ys, stop)))))"
  by pat_completeness auto
termination
  by (relation "measure (\<lambda>(_, _, _, _, rest). length rest)") auto

declare feed.simps [simp del]

text \<open>The thread, from the results of its reads. It ends at the end of the stream or at the first failure.\<close>

fun reader ::
  "(string \<Rightarrow> hello option) \<Rightarrow> (string \<Rightarrow> frame option) \<Rightarrow> bool \<Rightarrow> decoder \<Rightarrow> read_result list \<Rightarrow> incoming list" where
  "reader unh unf greeted d [] = []"
| "reader unh unf greeted d (Interrupted # rs) = reader unh unf greeted d rs"
| "reader unh unf greeted d (Broken # rs) = [InFailed IoError]"
| "reader unh unf greeted d (Bytes bs # rs) =
     (if bs = [] then (case decoder_finish d of Inr _ \<Rightarrow> [InClosed] | Inl e \<Rightarrow> [InFailed e])
      else (case feed unh unf greeted d bs of
              (g, d', xs, stop) \<Rightarrow> if stop then xs else xs @ reader unh unf g d' rs))"

definition spawn_reader ::
  "(string \<Rightarrow> hello option) \<Rightarrow> (string \<Rightarrow> frame option) \<Rightarrow> read_result list \<Rightarrow> incoming list" where
  "spawn_reader unh unf rs = reader unh unf False decoder_new rs"

section \<open>Lengths on the wire\<close>

lemma be_bytes_Suc: "be_bytes (Suc k) n = char_of (n div 256 ^ k mod 256) # be_bytes k n"
proof -
  have "map (\<lambda>i. char_of (n div 256 ^ (k - i) mod 256)) [1..<Suc k]
      = map (\<lambda>i. char_of (n div 256 ^ (k - Suc i) mod 256)) [0..<k]"
    by (simp only: map_Suc_upt [symmetric] One_nat_def list.map_comp comp_def)
  moreover have "[0..<Suc k] = 0 # [1..<Suc k]" by (simp add: upt_conv_Cons del: upt_Suc)
  ultimately show ?thesis by (simp add: be_bytes_def del: upt_Suc)
qed

lemma length_be_bytes [simp]: "length (be_bytes k n) = k"
  by (simp add: be_bytes_def)

lemma be_value_Cons: "be_value (c # s) = byte c * 256 ^ length s + be_value s"
proof -
  have "foldl (\<lambda>acc c. 256 * acc + byte c) a s = a * 256 ^ length s + foldl (\<lambda>acc c. 256 * acc + byte c) 0 s" for a
  proof (induction s arbitrary: a)
    case (Cons x s)
    have "foldl (\<lambda>acc c. 256 * acc + byte c) a (x # s) = (256 * a + byte x) * 256 ^ length s + foldl (\<lambda>acc c. 256 * acc + byte c) 0 s"
      using Cons.IH [of "256 * a + byte x"] by simp
    moreover have "foldl (\<lambda>acc c. 256 * acc + byte c) 0 (x # s) = byte x * 256 ^ length s + foldl (\<lambda>acc c. 256 * acc + byte c) 0 s"
      using Cons.IH [of "byte x"] by simp
    ultimately show ?case by (simp add: algebra_simps)
  qed simp
  from this [of "byte c"] show ?thesis by (simp add: be_value_def)
qed

lemma be_value_be_bytes: "be_value (be_bytes k n) = n mod 256 ^ k"
proof (induction k)
  case (Suc k)
  have "be_value (be_bytes (Suc k) n) = (n div 256 ^ k mod 256) * 256 ^ k + n mod 256 ^ k"
    by (simp add: be_bytes_Suc be_value_Cons Suc byte_def)
  also have "\<dots> = n mod (256 ^ k * 256)"
    by (simp add: mod_mult2_eq)
  finally show ?case by (simp add: mult.commute)
qed (simp add: be_bytes_def be_value_def)

section \<open>One item\<close>

text \<open>The bytes of an item, and the item a reader in a given state expects next.\<close>

fun item_bytes :: "(hello \<Rightarrow> string) \<Rightarrow> (frame \<Rightarrow> string) \<Rightarrow> incoming \<Rightarrow> string result" where
  "item_bytes hj fj (InHello h) = encode_hello hj h"
| "item_bytes hj fj (InFrame f) = encode_frame fj f"
| "item_bytes hj fj x = Inl InvalidRequest"

fun is_frame :: "incoming \<Rightarrow> bool" where
  "is_frame (InFrame f) = True"
| "is_frame x = False"

definition reading :: "bool \<Rightarrow> decoder \<Rightarrow> bool" where
  "reading greeted d \<longleftrightarrow> \<not> dc_failed d \<and> dc_hello_done d = greeted"

text \<open>
  What the writer and the reader of JSON must agree on: the item is written as at least one byte and
  read back unchanged.
\<close>

fun reads_back ::
  "(hello \<Rightarrow> string) \<Rightarrow> (frame \<Rightarrow> string) \<Rightarrow> (string \<Rightarrow> hello option) \<Rightarrow> (string \<Rightarrow> frame option) \<Rightarrow> incoming \<Rightarrow> bool" where
  "reads_back hj fj unh unf (InHello h) \<longleftrightarrow> unh (hj h) = Some h \<and> hj h \<noteq> []"
| "reads_back hj fj unh unf (InFrame f) \<longleftrightarrow> unf (fj f) = Some f \<and> fj f \<noteq> []"
| "reads_back hj fj unh unf x \<longleftrightarrow> True"

lemma hello_item:
  assumes "encode_hello hj h = Inr e" "hj h \<noteq> []"
  obtains n where "n = length (hj h)" "n \<le> MAX_HELLO_BYTES" "n \<noteq> 0" "hello_validate h = Inr ()"
    "e = (MAGIC @ be_bytes 2 VERSION @ be_bytes 4 n) @ hj h" "length e = HELLO_HEADER_BYTES + n"
    "hello_len (MAGIC @ be_bytes 2 VERSION @ be_bytes 4 n) = Inr n"
proof (rule that [of "length (hj h)"])
  have e: "hello_validate h = Inr ()" "length (hj h) \<le> MAX_HELLO_BYTES"
    "e = (MAGIC @ be_bytes 2 VERSION @ be_bytes 4 (length (hj h))) @ hj h"
    using assms(1) by (auto simp: encode_hello_def and_then_eq_Inr_iff Let_def split: if_splits)
  show "length (hj h) \<le> MAX_HELLO_BYTES" "hello_validate h = Inr ()"
    "e = (MAGIC @ be_bytes 2 VERSION @ be_bytes 4 (length (hj h))) @ hj h" by (rule e)+
  show "length (hj h) \<noteq> 0" using assms(2) by simp
  show "length e = HELLO_HEADER_BYTES + length (hj h)"
    by (simp add: e(3) MAGIC_def HELLO_HEADER_BYTES_def)
  have "be_value (be_bytes 4 (length (hj h))) = length (hj h)"
    using e(2) by (simp add: be_value_be_bytes MAX_HELLO_BYTES_def)
  moreover have "be_value (be_bytes 2 VERSION) = VERSION"
    by (simp add: be_value_be_bytes VERSION_def)
  ultimately show "hello_len (MAGIC @ be_bytes 2 VERSION @ be_bytes 4 (length (hj h))) = Inr (length (hj h))"
    using e(2) assms(2) by (simp add: hello_len_def MAGIC_def Let_def)
qed simp

lemma frame_item:
  assumes "encode_frame fj f = Inr e" "fj f \<noteq> []"
  obtains n where "n = length (fj f)" "n \<le> MAX_FRAME_BYTES" "n \<noteq> 0" "frame_validate f = Inr ()"
    "e = be_bytes 4 n @ fj f" "length e = FRAME_HEADER_BYTES + n" "frame_len (be_bytes 4 n) = Inr n"
proof (rule that [of "length (fj f)"])
  have e: "frame_validate f = Inr ()" "length (fj f) \<le> MAX_FRAME_BYTES" "e = be_bytes 4 (length (fj f)) @ fj f"
    using assms(1) by (auto simp: encode_frame_def and_then_eq_Inr_iff Let_def split: if_splits)
  show "length (fj f) \<le> MAX_FRAME_BYTES" "frame_validate f = Inr ()" "e = be_bytes 4 (length (fj f)) @ fj f"
    by (rule e)+
  show "length (fj f) \<noteq> 0" using assms(2) by simp
  show "length e = FRAME_HEADER_BYTES + length (fj f)" by (simp add: e(3) FRAME_HEADER_BYTES_def)
  show "frame_len (be_bytes 4 (length (fj f))) = Inr (length (fj f))"
    using e(2) assms(2) by (simp add: frame_len_def Let_def be_value_be_bytes MAX_FRAME_BYTES_def)
qed simp

lemma item_fits: "item_bytes hj fj x = Inr e \<Longrightarrow> reads_back hj fj unh unf x \<Longrightarrow> 0 < length e \<and> length e \<le> CAPACITY"
  by (cases x) (auto elim!: hello_item frame_item
      simp: CAPACITY_def HELLO_HEADER_BYTES_def FRAME_HEADER_BYTES_def MAX_HELLO_BYTES_def MAX_FRAME_BYTES_def)

text \<open>A whole item is taken off the buffer; a strict prefix of one changes nothing.\<close>

lemma next_complete:
  assumes "reading greeted d" "item_bytes hj fj x = Inr e" "is_frame x = greeted" and rb: "reads_back hj fj unh unf x" and "dc_buffer d = e @ tail"
  shows "next_item unh unf greeted d = (d\<lparr>dc_buffer := tail, dc_hello_done := True\<rparr>, Inr (Some x))"
proof (cases x)
  case (InHello h)
  then obtain n where n: "n \<le> MAX_HELLO_BYTES" "hello_validate h = Inr ()"
    "e = (MAGIC @ be_bytes 2 VERSION @ be_bytes 4 n) @ hj h" "n = length (hj h)"
    "hello_len (MAGIC @ be_bytes 2 VERSION @ be_bytes 4 n) = Inr n"
    using assms(2) rb by (auto elim: hello_item)
  have head: "take HELLO_HEADER_BYTES (dc_buffer d) = MAGIC @ be_bytes 2 VERSION @ be_bytes 4 n"
    and body: "take n (drop HELLO_HEADER_BYTES (dc_buffer d)) = hj h"
    by (simp_all add: assms(5) n(3,4) HELLO_HEADER_BYTES_def MAGIC_def)
  have "length e = HELLO_HEADER_BYTES + n" by (simp add: n(3,4) HELLO_HEADER_BYTES_def MAGIC_def)
  then have rest: "drop (HELLO_HEADER_BYTES + n) (dc_buffer d) = tail"
    unfolding assms(5) by (metis append_eq_conv_conj)
  have "decode_hello unh (hj h) = Inr h" using n(1,2,4) rb InHello by (simp add: decode_hello_def)
  moreover have "\<not> length (dc_buffer d) < HELLO_HEADER_BYTES + n"
    by (simp add: assms(5) n(3,4) HELLO_HEADER_BYTES_def MAGIC_def)
  moreover from this have "\<not> length (dc_buffer d) < HELLO_HEADER_BYTES" by linarith
  ultimately have "hello_step unh d = (d\<lparr>dc_buffer := tail, dc_hello_done := True\<rparr>, Inr (Some h))"
    using assms(1,3) InHello by (simp add: hello_step_def reading_def head n(5) body rest)
  then show ?thesis using assms(1,3) InHello
    by (simp add: next_item_def next_hello_def guarded_def reading_def)
next
  case (InFrame f)
  then obtain n where n: "n \<le> MAX_FRAME_BYTES" "frame_validate f = Inr ()"
    "e = be_bytes 4 n @ fj f" "n = length (fj f)" "frame_len (be_bytes 4 n) = Inr n"
    using assms(2) rb by (auto elim: frame_item)
  have head: "take FRAME_HEADER_BYTES (dc_buffer d) = be_bytes 4 n"
    and body: "take n (drop FRAME_HEADER_BYTES (dc_buffer d)) = fj f"
    by (simp_all add: assms(5) n(3,4) FRAME_HEADER_BYTES_def)
  have "length e = FRAME_HEADER_BYTES + n" by (simp add: n(3,4) FRAME_HEADER_BYTES_def)
  then have rest: "drop (FRAME_HEADER_BYTES + n) (dc_buffer d) = tail"
    unfolding assms(5) by (metis append_eq_conv_conj)
  have "decode_frame unf (fj f) = Inr f" using n(1,2,4) rb InFrame by (simp add: decode_frame_def)
  moreover have "\<not> length (dc_buffer d) < FRAME_HEADER_BYTES + n"
    by (simp add: assms(5) n(3,4) FRAME_HEADER_BYTES_def)
  moreover from this have "\<not> length (dc_buffer d) < FRAME_HEADER_BYTES" by linarith
  ultimately have "frame_step unf d = (d\<lparr>dc_buffer := tail, dc_hello_done := True\<rparr>, Inr (Some f))"
    using assms(1,3) InFrame by (simp add: frame_step_def reading_def head n(5) body rest)
  then show ?thesis using assms(1,3) InFrame
    by (simp add: next_item_def next_frame_def guarded_def reading_def)
qed (use assms(2) in simp_all)

lemma next_partial:
  assumes "reading greeted d" "item_bytes hj fj x = Inr e" "is_frame x = greeted" and rb: "reads_back hj fj unh unf x"
    and "dc_buffer d @ later = e" "later \<noteq> []"
  shows "next_item unh unf greeted d = (d, Inr None)"
proof (cases x)
  case (InHello h)
  then obtain n where n: "e = (MAGIC @ be_bytes 2 VERSION @ be_bytes 4 n) @ hj h" "n = length (hj h)"
    "length e = HELLO_HEADER_BYTES + n" "hello_len (MAGIC @ be_bytes 2 VERSION @ be_bytes 4 n) = Inr n"
    using assms(2) rb by (auto elim: hello_item)
  have short: "length (dc_buffer d) < HELLO_HEADER_BYTES + n"
    using n(3) assms(5,6) by (metis add_cancel_left_right length_0_conv length_append less_add_same_cancel1 neq0_conv)
  have head: "take HELLO_HEADER_BYTES (dc_buffer d) = MAGIC @ be_bytes 2 VERSION @ be_bytes 4 n"
    if "HELLO_HEADER_BYTES \<le> length (dc_buffer d)"
  proof -
    have "take HELLO_HEADER_BYTES (dc_buffer d) = take HELLO_HEADER_BYTES (dc_buffer d @ later)" using that by simp
    also have "\<dots> = MAGIC @ be_bytes 2 VERSION @ be_bytes 4 n"
      by (simp add: assms(5) n(1) HELLO_HEADER_BYTES_def MAGIC_def)
    finally show ?thesis .
  qed
  have "hello_step unh d = (d, Inr None)"
    using assms(1,3) InHello short head n(4)
    by (cases "length (dc_buffer d) < HELLO_HEADER_BYTES") (simp_all add: hello_step_def reading_def)
  then show ?thesis using assms(1,3) InHello by (simp add: next_item_def next_hello_def guarded_def reading_def)
next
  case (InFrame f)
  then obtain n where n: "e = be_bytes 4 n @ fj f" "n = length (fj f)"
    "length e = FRAME_HEADER_BYTES + n" "frame_len (be_bytes 4 n) = Inr n"
    using assms(2) rb by (auto elim: frame_item)
  have short: "length (dc_buffer d) < FRAME_HEADER_BYTES + n"
    using n(3) assms(5,6) by (metis add_cancel_left_right length_0_conv length_append less_add_same_cancel1 neq0_conv)
  have head: "take FRAME_HEADER_BYTES (dc_buffer d) = be_bytes 4 n"
    if "FRAME_HEADER_BYTES \<le> length (dc_buffer d)"
  proof -
    have "take FRAME_HEADER_BYTES (dc_buffer d) = take FRAME_HEADER_BYTES (dc_buffer d @ later)" using that by simp
    also have "\<dots> = be_bytes 4 n" by (simp add: assms(5) n(1) FRAME_HEADER_BYTES_def)
    finally show ?thesis .
  qed
  have "frame_step unf d = (d, Inr None)"
    using assms(1,3) InFrame short head n(4)
    by (cases "length (dc_buffer d) < FRAME_HEADER_BYTES") (simp_all add: frame_step_def reading_def)
  then show ?thesis using assms(1,3) InFrame by (simp add: next_item_def next_frame_def guarded_def reading_def)
qed (use assms(2) in simp_all)

lemma next_empty: "reading greeted d \<Longrightarrow> dc_buffer d = [] \<Longrightarrow> next_item unh unf greeted d = (d, Inr None)"
  by (simp add: next_item_def next_frame_def next_hello_def guarded_def reading_def frame_step_def hello_step_def
      HELLO_HEADER_BYTES_def FRAME_HEADER_BYTES_def)

section \<open>A stream of items\<close>

definition item_ok ::
  "(hello \<Rightarrow> string) \<Rightarrow> (frame \<Rightarrow> string) \<Rightarrow> (string \<Rightarrow> hello option) \<Rightarrow> (string \<Rightarrow> frame option) \<Rightarrow> incoming \<Rightarrow> string \<Rightarrow> bool" where
  "item_ok hj fj unh unf x e \<longleftrightarrow> item_bytes hj fj x = Inr e \<and> reads_back hj fj unh unf x"

text \<open>A hello first when none was received, frames after it.\<close>

fun in_order :: "bool \<Rightarrow> incoming list \<Rightarrow> bool" where
  "in_order greeted [] \<longleftrightarrow> True"
| "in_order greeted (x # xs) \<longleftrightarrow> is_frame x = greeted \<and> in_order True xs"

text \<open>The reader has handed on \<open>sent\<close>; its buffer and the bytes still to come make up the rest.\<close>

definition midway ::
  "(hello \<Rightarrow> string) \<Rightarrow> (frame \<Rightarrow> string) \<Rightarrow> (string \<Rightarrow> hello option) \<Rightarrow> (string \<Rightarrow> frame option)
    \<Rightarrow> bool \<Rightarrow> decoder \<Rightarrow> string \<Rightarrow> incoming list \<Rightarrow> string list \<Rightarrow> bool" where
  "midway hj fj unh unf greeted d later items es \<longleftrightarrow>
     reading greeted d \<and> list_all2 (item_ok hj fj unh unf) items es \<and> in_order greeted items
     \<and> dc_buffer d @ later = concat es"

text \<open>Nothing complete is left in the buffer.\<close>

definition waiting :: "decoder \<Rightarrow> string list \<Rightarrow> bool" where
  "waiting d es \<longleftrightarrow> (case es of [] \<Rightarrow> dc_buffer d = [] | e # _ \<Rightarrow> length (dc_buffer d) < length e)"

lemma drain_spec:
  assumes "midway hj fj unh unf greeted d later items es"
  shows "\<exists>k d'. drain unh unf greeted d = (greeted \<or> 0 < k, d', take k items, None) \<and> k \<le> length items
    \<and> midway hj fj unh unf (greeted \<or> 0 < k) d' later (drop k items) (drop k es) \<and> waiting d' (drop k es)"
  using assms
proof (induction items arbitrary: greeted d es)
  case Nil
  then have "es = []" "dc_buffer d = []" "reading greeted d" by (auto simp: midway_def)
  then have "drain unh unf greeted d = (greeted, d, [], None)"
    by (subst drain.simps) (simp add: next_empty)
  with Nil \<open>es = []\<close> \<open>dc_buffer d = []\<close> show ?case
    by (intro exI [of _ 0] exI [of _ d]) (auto simp: waiting_def)
next
  case (Cons x items)
  then obtain e es' where es: "es = e # es'" and x: "item_bytes hj fj x = Inr e" "reads_back hj fj unh unf x"
    and rest: "list_all2 (item_ok hj fj unh unf) items es'" and ord: "is_frame x = greeted" "in_order True items"
    and rd: "reading greeted d" and buf: "dc_buffer d @ later = e @ concat es'"
    by (auto simp: midway_def item_ok_def list_all2_Cons1)
  show ?case
  proof (cases "length e \<le> length (dc_buffer d)")
    case True
    then obtain tail where tail: "dc_buffer d = e @ tail" "tail @ later = concat es'"
      using buf by (auto simp: append_eq_append_conv2)
    let ?d = "d\<lparr>dc_buffer := tail, dc_hello_done := True\<rparr>"
    have step: "next_item unh unf greeted d = (?d, Inr (Some x))"
      by (rule next_complete [OF rd x(1) ord(1) x(2) tail(1)])
    have "midway hj fj unh unf True ?d later items es'"
      using rd rest ord tail(2) by (simp add: midway_def reading_def)
    from Cons.IH [OF this] obtain k d' where k: "drain unh unf True ?d = (True, d', take k items, None)" "k \<le> length items"
      "midway hj fj unh unf True d' later (drop k items) (drop k es')" "waiting d' (drop k es')" by auto
    have "drain unh unf greeted d = (True, d', x # take k items, None)"
      by (subst drain.simps) (simp add: step k(1))
    with k show ?thesis by (intro exI [of _ "Suc k"] exI [of _ d']) (simp add: es)
  next
    case False
    then obtain more' where more: "dc_buffer d @ more' = e" "more' \<noteq> []"
      using buf by (auto simp: append_eq_append_conv2)
    have "drain unh unf greeted d = (greeted, d, [], None)"
      by (subst drain.simps) (simp add: next_partial [OF rd x(1) ord(1) x(2) more])
    with Cons.prems False show ?thesis
      by (intro exI [of _ 0] exI [of _ d]) (auto simp: es waiting_def)
  qed
qed

lemma waiting_room:
  assumes "waiting d es" "list_all2 (item_ok hj fj unh unf) items es"
  shows "length (dc_buffer d) < CAPACITY"
proof (cases es)
  case (Cons e es')
  then obtain x where "item_ok hj fj unh unf x e" using assms(2) by (auto simp: list_all2_Cons2)
  then have "length e \<le> CAPACITY" using item_fits by (auto simp: item_ok_def)
  then show ?thesis using assms(1) Cons by (simp add: waiting_def)
qed (use assms(1) in \<open>simp add: waiting_def CAPACITY_def FRAME_HEADER_BYTES_def MAX_FRAME_BYTES_def\<close>)

lemma feed_spec:
  assumes "midway hj fj unh unf greeted d (bs @ later) items es" "waiting d es"
  shows "\<exists>k d'. feed unh unf greeted d bs = (greeted \<or> 0 < k, d', take k items, False) \<and> k \<le> length items
    \<and> midway hj fj unh unf (greeted \<or> 0 < k) d' later (drop k items) (drop k es) \<and> waiting d' (drop k es)"
  using assms
proof (induction "length bs" arbitrary: greeted d bs items es rule: less_induct)
  case less
  show ?case
  proof (cases "bs = []")
    case True
    then show ?thesis using less.prems
      by (intro exI [of _ 0] exI [of _ d]) (subst feed.simps, simp)
  next
    case False
    have all: "list_all2 (item_ok hj fj unh unf) items es" and rd: "reading greeted d"
      using less.prems(1) by (auto simp: midway_def)
    define n where "n = min (CAPACITY - length (dc_buffer d)) (length bs)"
    have n: "0 < n" "n \<le> length bs"
      using waiting_room [OF less.prems(2) all] False by (auto simp: n_def)
    let ?d = "d\<lparr>dc_buffer := dc_buffer d @ take n bs\<rparr>"
    have push: "decoder_push bs d = (?d, n)"
      using rd by (simp add: decoder_push_def n_def reading_def Let_def)
    have "dc_buffer ?d @ drop n bs @ later = dc_buffer d @ bs @ later"
      by (metis append.assoc append_take_drop_id decoder.select_convs(1) decoder.surjective decoder.update_convs(1))
    then have "midway hj fj unh unf greeted ?d (drop n bs @ later) items es"
      using less.prems(1) unfolding midway_def reading_def by simp
    from drain_spec [OF this] obtain j d1 where j: "drain unh unf greeted ?d = (greeted \<or> 0 < j, d1, take j items, None)"
      "j \<le> length items" "midway hj fj unh unf (greeted \<or> 0 < j) d1 (drop n bs @ later) (drop j items) (drop j es)"
      "waiting d1 (drop j es)" by blast
    have "length (drop n bs) < length bs" using n by simp
    from less.hyps [OF this j(3,4)] obtain k d2 where k:
      "feed unh unf (greeted \<or> 0 < j) d1 (drop n bs) = ((greeted \<or> 0 < j) \<or> 0 < k, d2, take k (drop j items), False)"
      "k \<le> length (drop j items)" "midway hj fj unh unf ((greeted \<or> 0 < j) \<or> 0 < k) d2 later (drop k (drop j items)) (drop k (drop j es))"
      "waiting d2 (drop k (drop j es))" by blast
    have "feed unh unf greeted d bs = ((greeted \<or> 0 < j) \<or> 0 < k, d2, take j items @ take k (drop j items), False)"
      using False n(1) by (subst feed.simps) (simp add: push j(1) k(1))
    moreover have "((greeted \<or> 0 < j) \<or> 0 < k) = (greeted \<or> 0 < j + k)" by auto
    ultimately show ?thesis using j(2) k(2,3,4)
      by (intro exI [of _ "j + k"] exI [of _ d2]) (simp add: take_add add.commute)
  qed
qed

text \<open>The bytes a run of reads carried.\<close>

fun carried :: "read_result list \<Rightarrow> string" where
  "carried [] = []"
| "carried (Bytes bs # rs) = bs @ carried rs"
| "carried (r # rs) = carried rs"

lemma reader_spec:
  assumes "midway hj fj unh unf greeted d (carried rs @ missing) items es" "waiting d es"
    and "\<forall>r \<in> set rs. r \<noteq> Broken \<and> r \<noteq> Bytes []"
  shows "\<exists>k d'. reader unh unf greeted d (rs @ Bytes [] # after) = take k items @ [if dc_buffer d' = [] then InClosed else InFailed InvalidRequest]
    \<and> k \<le> length items \<and> dc_buffer d' @ missing = concat (drop k es) \<and> waiting d' (drop k es)"
  using assms
proof (induction rs arbitrary: greeted d items es)
  case Nil
  then have "\<not> dc_failed d" "dc_buffer d @ missing = concat es" by (auto simp: midway_def reading_def)
  then show ?case using Nil.prems(2) by (intro exI [of _ 0] exI [of _ d]) (simp add: decoder_finish_def)
next
  case (Cons r rs)
  have rest: "\<forall>r \<in> set rs. r \<noteq> Broken \<and> r \<noteq> Bytes []" using Cons.prems(3) by simp
  show ?case
  proof (cases r)
    case (Bytes bs)
    have "midway hj fj unh unf greeted d (bs @ (carried rs @ missing)) items es" using Cons.prems(1) Bytes by simp
    from feed_spec [OF this Cons.prems(2)] obtain j d1 where j:
      "feed unh unf greeted d bs = (greeted \<or> 0 < j, d1, take j items, False)" "j \<le> length items"
      "midway hj fj unh unf (greeted \<or> 0 < j) d1 (carried rs @ missing) (drop j items) (drop j es)" "waiting d1 (drop j es)" by blast
    from Cons.IH [OF j(3,4) rest] obtain k d2 where k:
      "reader unh unf (greeted \<or> 0 < j) d1 (rs @ Bytes [] # after)
        = take k (drop j items) @ [if dc_buffer d2 = [] then InClosed else InFailed InvalidRequest]"
      "k \<le> length (drop j items)" "dc_buffer d2 @ missing = concat (drop k (drop j es))" "waiting d2 (drop k (drop j es))" by blast
    have "bs \<noteq> []" using Cons.prems(3) Bytes by simp
    then have "reader unh unf greeted d ((r # rs) @ Bytes [] # after)
        = (take j items @ take k (drop j items)) @ [if dc_buffer d2 = [] then InClosed else InFailed InvalidRequest]"
      by (simp add: Bytes j(1) k(1))
    then show ?thesis using j(2) k(2,3,4)
      by (intro exI [of _ "j + k"] exI [of _ d2]) (simp add: take_add add.commute)
  next
    case Interrupted
    then show ?thesis using Cons.IH [of greeted d items es] Cons.prems(1,2) rest by simp
  qed (use Cons.prems(3) in simp)
qed

lemma encode_not_empty: "list_all2 (item_ok hj fj unh unf) items es \<Longrightarrow> e \<in> set es \<Longrightarrow> e \<noteq> []"
  by (induction rule: list_all2_induct) (auto simp: item_ok_def dest: item_fits)

section \<open>Properties\<close>

text \<open>C9. Chunking never matters. Whatever sizes the carrier delivers the bytes in, and however often it
  is interrupted, the reader hands on exactly the items whose bytes arrived complete, unchanged and in
  order: the hello, then the frames. If all of a well-formed stream arrived, that is all of it and a
  clean close; if it was cut, the end is reported as a failure unless the cut is between two items.\<close>

theorem stream_reassembly:
  assumes "encode_hello hj h = Inr hb" and "unh (hj h) = Some h" and "hj h \<noteq> []"
    and "list_all2 (\<lambda>f e. encode_frame fj f = Inr e \<and> unf (fj f) = Some f \<and> fj f \<noteq> []) fs es"
    and "\<forall>r \<in> set rs. r \<noteq> Broken \<and> r \<noteq> Bytes []" and "carried rs @ missing = concat (hb # es)"
  shows "\<exists>k \<le> Suc (length fs).
      spawn_reader unh unf (rs @ Bytes [] # after) = take k (InHello h # map InFrame fs)
        @ [if carried rs = concat (take k (hb # es)) then InClosed else InFailed InvalidRequest]
      \<and> length (concat (take k (hb # es))) \<le> length (carried rs)
      \<and> (k \<le> length fs \<longrightarrow> length (carried rs) < length (concat (take (Suc k) (hb # es))))
      \<and> (missing = [] \<longrightarrow> k = Suc (length fs) \<and> carried rs = concat (take k (hb # es)))"
proof -
  let ?items = "InHello h # map InFrame fs" and ?es = "hb # es"
  have all: "list_all2 (item_ok hj fj unh unf) ?items ?es"
    using assms(1-4) by (simp add: item_ok_def list_all2_map1 conj_assoc)
  have len: "length ?es = Suc (length fs)" using assms(4) by (simp add: list_all2_lengthD)
  have frames: "in_order True (map InFrame fs)" by (induction fs) simp_all
  have "midway hj fj unh unf False decoder_new (carried rs @ missing) ?items ?es"
    using all frames assms(6) by (simp add: midway_def reading_def decoder_new_def)
  moreover have "waiting decoder_new ?es"
    using encode_not_empty [OF all, of hb] by (simp add: waiting_def decoder_new_def)
  ultimately obtain k d where k: "k \<le> length ?items" "dc_buffer d @ missing = concat (drop k ?es)" "waiting d (drop k ?es)"
    "spawn_reader unh unf (rs @ Bytes [] # after)
      = take k ?items @ [if dc_buffer d = [] then InClosed else InFailed InvalidRequest]"
    using reader_spec [OF _ _ assms(5)] unfolding spawn_reader_def by metis
  have "carried rs @ missing = concat (take k ?es) @ concat (drop k ?es)"
    unfolding assms(6) by (metis append_take_drop_id concat_append)
  then have got: "carried rs = concat (take k ?es) @ dc_buffer d" by (simp flip: k(2))
  have more: "length (carried rs) < length (concat (take (Suc k) ?es))" if "k \<le> length fs"
  proof -
    have lt: "k < length ?es" using that len by simp
    have "length (dc_buffer d) < length (?es ! k)"
      using k(3) Cons_nth_drop_Suc [OF lt] unfolding waiting_def by (metis list.simps(5))
    moreover have "concat (take (Suc k) ?es) = concat (take k ?es) @ ?es ! k"
      using take_Suc_conv_app_nth [OF lt] by simp
    ultimately show ?thesis by (simp add: got)
  qed
  have "k = Suc (length fs)" if "missing = []"
  proof (rule ccontr)
    assume "k \<noteq> Suc (length fs)"
    then have "k \<le> length fs" using k(1) by simp
    then have "length (carried rs) < length (concat (take (Suc k) ?es))" by (rule more)
    also have "\<dots> \<le> length (concat ?es)"
      by (metis append_take_drop_id concat_append le_add1 length_append)
    finally show False using assms(6) that by simp
  qed
  moreover have "carried rs = concat (take k ?es)" if "missing = []" "k = Suc (length fs)"
    using k(2) that len got by simp
  ultimately show ?thesis
    using k(1,4) got more by (intro exI [of _ k]) auto
qed

definition sample_hello :: hello where "sample_hello = hello_new ''0123456789abcdef0123456789abcdef'' Dial"

definition sample_stream :: string where
  "sample_stream = (MAGIC @ be_bytes 2 VERSION @ be_bytes 4 1 @ ''h'') @ (be_bytes 4 1 @ ''p'')"

theorem stream_reassembly_witness:
  "spawn_reader (\<lambda>s. if s = ''h'' then Some sample_hello else None) (\<lambda>s. if s = ''p'' then Some (FPing 7) else None)
     [Bytes (take 7 sample_stream), Interrupted, Bytes (drop 7 sample_stream), Bytes []]
   = [InHello sample_hello, InFrame (FPing 7), InClosed]"
proof -
  let ?unh = "\<lambda>s. if s = ''h'' then Some sample_hello else None" and ?hj = "\<lambda>_. ''h''"
  let ?unf = "\<lambda>s. if s = ''p'' then Some (FPing 7) else None" and ?fj = "\<lambda>_. ''p''"
  let ?rs = "[Bytes (take 7 sample_stream), Interrupted, Bytes (drop 7 sample_stream)]"
  have "hello_validate sample_hello = Inr ()" by code_simp
  then have e: "encode_hello ?hj sample_hello = Inr (MAGIC @ be_bytes 2 VERSION @ be_bytes 4 1 @ ''h'')"
    by (simp add: encode_hello_def MAX_HELLO_BYTES_def)
  have fs: "list_all2 (\<lambda>f e. encode_frame ?fj f = Inr e \<and> ?unf (?fj f) = Some f \<and> ?fj f \<noteq> []) [FPing 7] [be_bytes 4 1 @ ''p'']"
    by (simp add: encode_frame_def MAX_FRAME_BYTES_def)
  have rs: "\<forall>r \<in> set ?rs. r \<noteq> Broken \<and> r \<noteq> Bytes []" by (simp add: sample_stream_def MAGIC_def)
  have bytes: "carried ?rs @ [] = concat [MAGIC @ be_bytes 2 VERSION @ be_bytes 4 1 @ ''h'', be_bytes 4 1 @ ''p'']"
    by (simp only: carried.simps append_Nil2 append_take_drop_id sample_stream_def concat.simps)
  have rb: "?unh (?hj sample_hello) = Some sample_hello" "?hj sample_hello \<noteq> []" by simp_all
  from stream_reassembly [where hj = ?hj and fj = ?fj and unh = ?unh and unf = ?unf and missing = "[]" and after = "[]",
      OF e rb fs rs bytes] show ?thesis by auto
qed

section \<open>The decoder as a machine\<close>

text \<open>Anything a caller can do to a decoder, in any order.\<close>

inductive decoder_step :: "(string \<Rightarrow> hello option) \<Rightarrow> (string \<Rightarrow> frame option) \<Rightarrow> decoder \<Rightarrow> decoder \<Rightarrow> bool"
  for unh :: "string \<Rightarrow> hello option" and unf :: "string \<Rightarrow> frame option" where
  step_push: "decoder_step unh unf d (fst (decoder_push bs d))"
| step_hello: "decoder_step unh unf d (fst (next_hello unh d))"
| step_frame: "decoder_step unh unf d (fst (next_frame unf d))"

definition decoder_ok :: "decoder \<Rightarrow> bool" where
  "decoder_ok d \<longleftrightarrow> length (dc_buffer d) \<le> CAPACITY \<and> (dc_failed d \<longrightarrow> dc_buffer d = [])"

lemma push_ok: "decoder_ok d \<Longrightarrow> decoder_ok (fst (decoder_push bs d)) \<and> (dc_failed d \<longrightarrow> fst (decoder_push bs d) = d)"
  by (auto simp: decoder_push_def decoder_ok_def Let_def)

lemma next_hello_ok: "decoder_ok d \<Longrightarrow> decoder_ok (fst (next_hello unh d)) \<and> (dc_failed d \<longrightarrow> fst (next_hello unh d) = d)"
  by (auto simp: next_hello_def guarded_def hello_step_def decoder_ok_def split: sum.splits if_splits)

lemma next_frame_ok: "decoder_ok d \<Longrightarrow> decoder_ok (fst (next_frame unf d)) \<and> (dc_failed d \<longrightarrow> fst (next_frame unf d) = d)"
  by (auto simp: next_frame_def guarded_def frame_step_def decoder_ok_def split: sum.splits if_splits)

interpretation decoding: advancing_machine "decoder_step unh unf" "\<lambda>d. d = decoder_new" decoder_ok
  "\<lambda>d d'. dc_failed d \<longrightarrow> d' = d" for unh unf
proof
  show "decoder_ok d" if "d = decoder_new" for d using that by (simp add: decoder_ok_def decoder_new_def)
  show "decoder_ok d'" if "decoder_ok d" "decoder_step unh unf d d'" for d d'
    using that(2,1) by cases (simp_all add: push_ok next_hello_ok next_frame_ok)
  show "dc_failed d \<longrightarrow> d' = d" if "decoder_ok d" "decoder_step unh unf d d'" for d d'
    using that(2,1) by cases (simp_all add: push_ok next_hello_ok next_frame_ok)
qed auto

text \<open>C25. The decoder is bounded and fails closed. However its operations are called, it never buffers
  more than one maximal frame; an announced length of zero or over the bound is refused from the header
  alone; and a decoder that reported any violation stays as it is for good, holds nothing, takes no
  byte, yields no item and does not finish.\<close>

theorem decoder_fails_closed:
  assumes "(decoder_step unh unf)\<^sup>*\<^sup>* decoder_new d"
  shows "length (dc_buffer d) \<le> CAPACITY
    \<and> (dc_hello_done d \<and> FRAME_HEADER_BYTES \<le> length (dc_buffer d)
         \<and> be_value (take FRAME_HEADER_BYTES (dc_buffer d)) \<notin> {1..MAX_FRAME_BYTES}
       \<longrightarrow> next_frame unf d = (d\<lparr>dc_failed := True, dc_buffer := []\<rparr>, Inl InvalidRequest))
    \<and> (dc_failed d \<and> (decoder_step unh unf)\<^sup>*\<^sup>* d d'
       \<longrightarrow> d' = d \<and> dc_buffer d' = [] \<and> decoder_push bs d' = (d', 0) \<and> next_hello unh d' = (d', Inl InvalidRequest)
           \<and> next_frame unf d' = (d', Inl InvalidRequest) \<and> decoder_finish d' = Inl InvalidRequest)"
proof (intro conjI impI; (elim conjE)?)
  have ok: "decoder_ok d" by (rule decoding.reachable_inv [OF refl assms])
  then show "length (dc_buffer d) \<le> CAPACITY" by (simp add: decoder_ok_def)
  show "next_frame unf d = (d\<lparr>dc_failed := True, dc_buffer := []\<rparr>, Inl InvalidRequest)"
    if "dc_hello_done d" "FRAME_HEADER_BYTES \<le> length (dc_buffer d)"
      "be_value (take FRAME_HEADER_BYTES (dc_buffer d)) \<notin> {1..MAX_FRAME_BYTES}"
    using that ok by (auto simp: next_frame_def guarded_def frame_step_def frame_len_def Let_def decoder_ok_def
        FRAME_HEADER_BYTES_def not_le)
  assume failed: "dc_failed d" and run: "(decoder_step unh unf)\<^sup>*\<^sup>* d d'"
  show same: "d' = d" using decoding.run_le [OF run ok] failed by simp
  show "dc_buffer d' = []" using ok failed same by (simp add: decoder_ok_def)
  show "decoder_push bs d' = (d', 0)" "next_hello unh d' = (d', Inl InvalidRequest)"
    "next_frame unf d' = (d', Inl InvalidRequest)" "decoder_finish d' = Inl InvalidRequest"
    using failed same by (simp_all add: decoder_push_def next_hello_def next_frame_def guarded_def decoder_finish_def)
qed

theorem decoder_fails_closed_witness:
  "decoder_push ''more'' \<lparr>dc_buffer = [], dc_hello_done = False, dc_failed = True\<rparr>
     = (\<lparr>dc_buffer = [], dc_hello_done = False, dc_failed = True\<rparr>, 0)"
proof -
  let ?unh = "\<lambda>_::string. None :: hello option" and ?unf = "\<lambda>_::string. None :: frame option"
  let ?d = "fst (decoder_push ''HTTP/1.1 200'' decoder_new)"
  have "(decoder_step ?unh ?unf)\<^sup>*\<^sup>* decoder_new (fst (next_hello ?unh ?d))"
    by (rule rtranclp.rtrancl_into_rtrancl, rule r_into_rtranclp, rule step_push, rule step_hello)
  moreover have "fst (next_hello ?unh ?d) = \<lparr>dc_buffer = [], dc_hello_done = False, dc_failed = True\<rparr>"
    by (simp add: decoder_push_def decoder_new_def CAPACITY_def FRAME_HEADER_BYTES_def MAX_FRAME_BYTES_def next_hello_def
        guarded_def hello_step_def HELLO_HEADER_BYTES_def hello_len_def MAGIC_def)
  ultimately have run: "(decoder_step ?unh ?unf)\<^sup>*\<^sup>* decoder_new \<lparr>dc_buffer = [], dc_hello_done = False, dc_failed = True\<rparr>"
    by simp
  from decoder_fails_closed [OF run, of "\<lparr>dc_buffer = [], dc_hello_done = False, dc_failed = True\<rparr>" "''more''"]
  show ?thesis by simp
qed

end
