(* ===== verification/StoreTables.thy ===== *)
theory StoreTables
  imports MeshSelector MeshEnvelope MeshPolicy MeshCapability MeshWire
    "HOL-Library.List_Lexorder" "HOL-Library.Char_ord" "HOL-Library.Option_ord" "HOL-Library.Product_Lexorder"
begin

text \<open>
  The durable store (\<open>agent-mesh-store/src/lib.rs\<close>): its tables, the queries and updates the
  operations are made of, and the decisions read from it. A table is the list of its rows in rowid
  order; a column holds the value whose text form the code writes (the codecs of the earlier
  theories prove that every such text reads back), except the address, which is parsed again on
  every read. JSON columns hold the value: \<open>serde_json\<close> is outside the repository and reads back
  what it wrote. Time and every generated identifier are arguments. An operation maps a store to a
  store and a result; an early return before the commit returns the store it was given.
\<close>

section \<open>Constants\<close>

definition MAX_PENDING_COUNT :: int where "MAX_PENDING_COUNT = 256"
definition MAX_PENDING_BYTES :: int where "MAX_PENDING_BYTES = 4 * 1024 * 1024"
definition RESERVED_COUNT :: int where "RESERVED_COUNT = 16"
definition RESERVED_BYTES :: int where "RESERVED_BYTES = 1024 * 1024"
definition MAX_ENDPOINTS :: int where "MAX_ENDPOINTS = 1024"
definition PEER_MAX_INBOUND_PER_MINUTE :: nat where "PEER_MAX_INBOUND_PER_MINUTE = 60"
definition PEER_MAX_AUTO_TURNS_PER_MINUTE :: nat where "PEER_MAX_AUTO_TURNS_PER_MINUTE = 4"
definition DEFAULT_CLAIM_LEASE_MS :: int where "DEFAULT_CLAIM_LEASE_MS = 5 * 60 * 1000"
definition LOCAL_USER_INSTANCE :: opaque where "LOCAL_USER_INSTANCE = ''00000000000000000000000000000001''"
definition LOCAL_USER_ALIAS :: alias_name where "LOCAL_USER_ALIAS = ''local-user''"
definition RESOLUTION_TIMEOUT_MS :: int where "RESOLUTION_TIMEOUT_MS = 10000"
definition RESOLUTION_RETENTION_MS :: int where "RESOLUTION_RETENTION_MS = 60000"
definition MAX_PENDING_RESOLUTIONS :: int where "MAX_PENDING_RESOLUTIONS = 64"
definition MAX_PROXY_DISPLAY_BYTES :: nat where "MAX_PROXY_DISPLAY_BYTES = MAX_DISPLAY_BYTES"

section \<open>Rows\<close>

record endpoint_row =
  er_id :: opaque
  er_incarnation :: "opaque option"
  er_token_hash :: "string option"
  er_alias :: "alias_name option"
  er_provider :: "string option"
  er_kind :: runtime_kind
  er_instance :: opaque
  er_instance_name :: "string option"
  er_address :: "string option"
  er_online :: bool
  er_state :: agent_state
  er_generation :: int
  er_next_sequence :: int
  er_pending_count :: int
  er_pending_bytes :: int
  er_policy :: "policy option"
  er_capabilities :: "capabilities option"
  er_created_at :: int
  er_updated_at :: int

record message_row =
  mr_id :: opaque
  mr_to :: opaque
  mr_from :: principal
  mr_kind :: kind
  mr_conversation :: opaque
  mr_reply_to :: "opaque option"
  mr_outcome :: "outcome option"
  mr_sequence :: int
  mr_state :: msg_state
  mr_subject :: "string option"
  mr_text :: string
  mr_refs :: "reference list"
  mr_bytes :: int
  mr_created_at :: int
  mr_expires_at :: "int option"
  mr_claim_owner :: "opaque option"
  mr_claim_expires :: "int option"
  mr_activations :: int
  mr_last_activated :: "int option"
  mr_group_send :: "opaque option"
  mr_failure :: "string option"
  mr_origin :: "opaque option"

record idempotency_row =
  id_sender :: string
  id_key :: string
  id_digest :: string
  id_message :: opaque
  id_created_at :: int

record audit_row =
  au_at :: int
  au_message :: "opaque option"
  au_endpoint :: "opaque option"
  au_operation :: string
  au_from :: "string option"
  au_to :: "string option"
  au_rule :: "string option"
  au_bytes :: int
  au_result :: string

record lease_anchor =
  an_runtime :: runtime_kind
  an_instance :: string
  an_window :: nat

record peer_row =
  pe_id :: opaque
  pe_label :: "peer_label option"
  pe_host :: opaque
  pe_trusted :: bool
  pe_retired :: bool
  pe_lease_owner :: "opaque option"
  pe_lease_expires :: "int option"
  pe_lease_anchor :: "lease_anchor option"
  pe_created_at :: int
  pe_updated_at :: int

record proxy_row =
  px_endpoint :: opaque
  px_peer :: opaque
  px_remote :: opaque
  px_display :: "string option"

record group_row =
  gr_name :: alias_name
  gr_created_at :: int

record member_row =
  gm_name :: alias_name
  gm_endpoint :: opaque

record group_send_row =
  gs_id :: opaque
  gs_name :: alias_name
  gs_sender :: string
  gs_members :: string
  gs_created_at :: int

record resolution_row =
  rs_id :: int
  rs_peer :: opaque
  rs_selector :: string
  rs_created_at :: int
  rs_answered_at :: "int option"
  rs_endpoint :: "opaque option"
  rs_display :: "string option"
  rs_error_code :: "error_code option"
  rs_error_message :: "string option"
  rs_candidates :: "string list option"

record attachment_row =
  at_sender :: string
  at_key :: string
  at_position :: int
  at_peer :: opaque
  at_sha256 :: string
  at_bytes :: int
  at_remote_path :: string
  at_created_at :: int

text \<open>\<open>st_resolution_seq\<close> is SQLite's own AUTOINCREMENT counter of the resolution table.\<close>

record store =
  st_host :: opaque
  st_endpoints :: "endpoint_row list"
  st_messages :: "message_row list"
  st_idempotency :: "idempotency_row list"
  st_audit :: "audit_row list"
  st_peers :: "peer_row list"
  st_proxies :: "proxy_row list"
  st_groups :: "group_row list"
  st_members :: "member_row list"
  st_group_sends :: "group_send_row list"
  st_resolutions :: "resolution_row list"
  st_resolution_seq :: int
  st_attachments :: "attachment_row list"

text \<open>A store just created: the schema's empty tables and the identity minted with them.\<close>

definition new_store :: "opaque \<Rightarrow> store" where
  "new_store host = \<lparr>st_host = host, st_endpoints = [], st_messages = [], st_idempotency = [],
     st_audit = [], st_peers = [], st_proxies = [], st_groups = [], st_members = [],
     st_group_sends = [], st_resolutions = [], st_resolution_seq = 0, st_attachments = []\<rparr>"

record caller =
  cl_principal :: principal
  cl_scope :: "opaque option"

definition local_user :: caller where
  "local_user = \<lparr>cl_principal = \<lparr>pr_kind = LocalUser, pr_endpoint = None, pr_incarnation = None\<rparr>,
     cl_scope = None\<rparr>"

section \<open>Queries and updates\<close>

definition lookup_by :: "('r \<Rightarrow> 'k) \<Rightarrow> 'k \<Rightarrow> 'r list \<Rightarrow> 'r option" where
  "lookup_by key k rows = List.find (\<lambda>r. key r = k) rows"

definition update_where :: "('r \<Rightarrow> bool) \<Rightarrow> ('r \<Rightarrow> 'r) \<Rightarrow> 'r list \<Rightarrow> 'r list" where
  "update_where P f rows = map (\<lambda>r. if P r then f r else r) rows"

definition count_where :: "('r \<Rightarrow> bool) \<Rightarrow> 'r list \<Rightarrow> nat" where
  "count_where P rows = length (filter P rows)"

text \<open>The interface the updates of a table promise: a column assignment leaves the key alone.\<close>

locale column_update =
  fixes key :: "'r \<Rightarrow> 'k" and f :: "'r \<Rightarrow> 'r"
  assumes key_kept: "key (f r) = key r"
begin

lemma keys_kept: "map key (update_where P f rows) = map key rows"
  by (simp add: update_where_def key_kept)

lemma lookup_after: "lookup_by key k (update_where P f rows) = map_option (\<lambda>r. if P r then f r else r) (lookup_by key k rows)"
  by (induction rows) (auto simp: update_where_def lookup_by_def key_kept)

lemma lookup_updated:
  "lookup_by key k (update_where (\<lambda>r. key r = k) f rows) = map_option f (lookup_by key k rows)"
  by (induction rows) (auto simp: update_where_def lookup_by_def key_kept)

lemma lookup_other:
  "k' \<noteq> k \<Longrightarrow> lookup_by key k' (update_where (\<lambda>r. key r = k) f rows) = lookup_by key k' rows"
  by (induction rows) (auto simp: update_where_def lookup_by_def key_kept)

end

lemma lookup_by_Some: "lookup_by key k rows = Some r \<Longrightarrow> r \<in> set rows \<and> key r = k"
  by (auto simp: lookup_by_def find_Some_iff)

lemma lookup_by_None: "lookup_by key k rows = None \<longleftrightarrow> k \<notin> key ` set rows"
  by (auto simp: lookup_by_def find_None_iff)

lemma lookup_by_eq_Some:
  "distinct (map key rows) \<Longrightarrow> lookup_by key k rows = Some r \<longleftrightarrow> r \<in> set rows \<and> key r = k"
  by (induction rows) (auto simp: lookup_by_def)

lemma lookup_by_append:
  "lookup_by key k (rows @ rows') = (case lookup_by key k rows of Some r \<Rightarrow> Some r | None \<Rightarrow> lookup_by key k rows')"
  by (induction rows) (auto simp: lookup_by_def)

lemma lookup_by_simps [simp]: "lookup_by key k [] = None"
  "lookup_by key k (r # rows) = (if key r = k then Some r else lookup_by key k rows)"
  by (simp_all add: lookup_by_def)

lemma update_where_simps [simp]: "update_where P f [] = []"
  "update_where P f (r # rows) = (if P r then f r else r) # update_where P f rows"
  by (simp_all add: update_where_def)

lemma length_update_where [simp]: "length (update_where P f rows) = length rows"
  by (simp add: update_where_def)

lemma set_update_where: "set (update_where P f rows) = (\<lambda>r. if P r then f r else r) ` set rows"
  by (simp add: update_where_def)

lemma update_where_append [simp]: "update_where P f (rows @ rows') = update_where P f rows @ update_where P f rows'"
  by (simp add: update_where_def)

lemma update_where_none: "(\<And>r. r \<in> set rows \<Longrightarrow> \<not> P r) \<Longrightarrow> update_where P f rows = rows"
  by (induction rows) auto

lemma map_update_where: "(\<And>r. g (f r) = g r) \<Longrightarrow> map g (update_where P f rows) = map g rows"
  by (simp add: update_where_def)

text \<open>\<open>or_return\<close> is \<open>let x = r?;\<close> before the commit: the store is the one before the operation.\<close>

definition or_return :: "store \<Rightarrow> 'a result \<Rightarrow> ('a \<Rightarrow> store \<times> 'b result) \<Rightarrow> store \<times> 'b result" where
  "or_return st r k = (case r of Inl e \<Rightarrow> (st, Inl e) | Inr x \<Rightarrow> k x)"

lemma or_return_simps [simp]: "or_return st (Inl e) k = (st, Inl e)" "or_return st (Inr x) k = k x"
  by (simp_all add: or_return_def)

lemma or_return_inv: "I st \<Longrightarrow> (\<And>x. r = Inr x \<Longrightarrow> I (fst (k x))) \<Longrightarrow> I (fst (or_return st r k))"
  by (cases r) simp_all

lemma or_return_ok: "or_return st r k = (st', Inr y) \<longleftrightarrow> (\<exists>x. r = Inr x \<and> k x = (st', Inr y))"
  by (cases r) simp_all

definition find_endpoint :: "store \<Rightarrow> opaque \<Rightarrow> endpoint_row option" where
  "find_endpoint st i = lookup_by er_id i (st_endpoints st)"

definition find_message :: "store \<Rightarrow> opaque \<Rightarrow> message_row option" where
  "find_message st i = lookup_by mr_id i (st_messages st)"

definition find_proxy :: "store \<Rightarrow> opaque \<Rightarrow> proxy_row option" where
  "find_proxy st i = lookup_by px_endpoint i (st_proxies st)"

definition find_peer :: "store \<Rightarrow> opaque \<Rightarrow> peer_row option" where
  "find_peer st i = lookup_by pe_id i (st_peers st)"

definition audit ::
  "int \<Rightarrow> opaque option \<Rightarrow> opaque option \<Rightarrow> string \<Rightarrow> string option \<Rightarrow> string option \<Rightarrow> string option
    \<Rightarrow> int \<Rightarrow> string \<Rightarrow> store \<Rightarrow> store" where
  "audit at m e operation old new r bytes res st =
     st\<lparr>st_audit := st_audit st @ [\<lparr>au_at = at, au_message = m, au_endpoint = e, au_operation = operation,
        au_from = old, au_to = new, au_rule = r, au_bytes = bytes, au_result = res\<rparr>]\<rparr>"

definition set_endpoints :: "(endpoint_row \<Rightarrow> bool) \<Rightarrow> (endpoint_row \<Rightarrow> endpoint_row) \<Rightarrow> store \<Rightarrow> store" where
  "set_endpoints P f st = st\<lparr>st_endpoints := update_where P f (st_endpoints st)\<rparr>"

definition set_messages :: "(message_row \<Rightarrow> bool) \<Rightarrow> (message_row \<Rightarrow> message_row) \<Rightarrow> store \<Rightarrow> store" where
  "set_messages P f st = st\<lparr>st_messages := update_where P f (st_messages st)\<rparr>"

definition set_peers :: "(peer_row \<Rightarrow> bool) \<Rightarrow> (peer_row \<Rightarrow> peer_row) \<Rightarrow> store \<Rightarrow> store" where
  "set_peers P f st = st\<lparr>st_peers := update_where P f (st_peers st)\<rparr>"

definition pending_to :: "opaque \<Rightarrow> message_row list \<Rightarrow> message_row list" where
  "pending_to i ms = filter (\<lambda>m. mr_to m = i \<and> is_pending (mr_state m)) ms"

definition pending_count_of :: "opaque \<Rightarrow> message_row list \<Rightarrow> int" where
  "pending_count_of i ms = int (length (pending_to i ms))"

definition pending_bytes_of :: "opaque \<Rightarrow> message_row list \<Rightarrow> int" where
  "pending_bytes_of i ms = sum_list (map mr_bytes (pending_to i ms))"

definition set_counts :: "int \<Rightarrow> int \<Rightarrow> endpoint_row \<Rightarrow> endpoint_row" where
  "set_counts n b e = e\<lparr>er_pending_count := n, er_pending_bytes := b\<rparr>"

definition recount :: "opaque \<Rightarrow> store \<Rightarrow> store" where
  "recount i st = set_endpoints (\<lambda>e. er_id e = i)
     (set_counts (pending_count_of i (st_messages st)) (pending_bytes_of i (st_messages st))) st"

definition release_claim :: "message_row \<Rightarrow> message_row" where
  "release_claim m = m\<lparr>mr_state := Queued, mr_claim_owner := None, mr_claim_expires := None\<rparr>"

definition requeue_proxy_claims :: "opaque \<Rightarrow> opaque \<Rightarrow> store \<Rightarrow> store" where
  "requeue_proxy_claims peer owner st =
     set_messages (\<lambda>m. mr_state m = Claimed \<and> mr_claim_owner m = Some owner
        \<and> mr_to m \<in> set (map px_endpoint (filter (\<lambda>x. px_peer x = peer) (st_proxies st))))
       release_claim st"

end
