(* ===== verification/StoreReads.thy ===== *)
theory StoreReads
  imports StoreTables
begin

text \<open>
  What the store reads back from its rows and decides from them: messages, endpoints, peers and
  proxies as the API returns them, the sender's key, the caller's identity, trust, and the gate
  decision for a stored message (the helpers at the end of \<open>agent-mesh-store/src/lib.rs\<close>).
\<close>

section \<open>Messages\<close>

record message =
  msg_id :: opaque
  msg_to :: opaque
  msg_from :: principal
  msg_kind :: kind
  msg_conversation :: opaque
  msg_reply_to :: "opaque option"
  msg_outcome :: "outcome option"
  msg_sequence :: int
  msg_state :: msg_state
  msg_subject :: "string option"
  msg_text :: string
  msg_refs :: "reference list"
  msg_created_at :: int
  msg_expires_at :: "int option"
  msg_failure :: "string option"
  msg_origin :: "opaque option"

definition build_message :: "message_row \<Rightarrow> message" where
  "build_message r =
     \<lparr>msg_id = mr_id r, msg_to = mr_to r, msg_from = mr_from r, msg_kind = mr_kind r,
      msg_conversation = mr_conversation r, msg_reply_to = mr_reply_to r, msg_outcome = mr_outcome r,
      msg_sequence = mr_sequence r, msg_state = mr_state r, msg_subject = mr_subject r,
      msg_text = mr_text r, msg_refs = mr_refs r, msg_created_at = mr_created_at r,
      msg_expires_at = mr_expires_at r, msg_failure = mr_failure r, msg_origin = mr_origin r\<rparr>"

definition load_message :: "store \<Rightarrow> opaque \<Rightarrow> message result" where
  "load_message st i =
     (case find_message st i of None \<Rightarrow> Inl NotFound | Some r \<Rightarrow> Inr (build_message r))"

lemma build_message_simps [simp]:
  "msg_id (build_message r) = mr_id r" "msg_to (build_message r) = mr_to r"
  "msg_from (build_message r) = mr_from r" "msg_kind (build_message r) = mr_kind r"
  "msg_reply_to (build_message r) = mr_reply_to r" "msg_state (build_message r) = mr_state r"
  "msg_sequence (build_message r) = mr_sequence r" "msg_text (build_message r) = mr_text r"
  "msg_conversation (build_message r) = mr_conversation r" "msg_outcome (build_message r) = mr_outcome r"
  "msg_subject (build_message r) = mr_subject r" "msg_refs (build_message r) = mr_refs r"
  "msg_created_at (build_message r) = mr_created_at r" "msg_expires_at (build_message r) = mr_expires_at r"
  "msg_failure (build_message r) = mr_failure r" "msg_origin (build_message r) = mr_origin r"
  by (simp_all add: build_message_def)

lemma load_message_Inr: "load_message st i = Inr m \<longleftrightarrow> (\<exists>r. find_message st i = Some r \<and> m = build_message r)"
  by (auto simp: load_message_def split: option.splits)

section \<open>Endpoints\<close>

definition read_address :: "string option \<Rightarrow> address option result" where
  "read_address v = (case v of None \<Rightarrow> Inr None | Some s \<Rightarrow> and_then (address_parse s) (\<lambda>a. Inr (Some a)))"

definition build_endpoint :: "endpoint_row \<Rightarrow> endpoint result" where
  "build_endpoint r =
     and_then (read_address (er_address r)) (\<lambda>a.
       Inr \<lparr>ep_id = er_id r, ep_incarnation = er_incarnation r, ep_alias = er_alias r,
            ep_provider = er_provider r,
            ep_locator = \<lparr>loc_kind = er_kind r, loc_instance_id = er_instance r,
                          loc_instance_name = er_instance_name r, loc_address = a\<rparr>,
            ep_online = er_online r, ep_generation = er_generation r, ep_state = er_state r,
            ep_pending = er_pending_count r\<rparr>)"

definition endpoint_get :: "store \<Rightarrow> opaque \<Rightarrow> endpoint result" where
  "endpoint_get st i = (case find_endpoint st i of None \<Rightarrow> Inl NotFound | Some r \<Rightarrow> build_endpoint r)"

definition policy_of :: "endpoint_row \<Rightarrow> policy" where
  "policy_of r = (case er_policy r of Some p \<Rightarrow> p | None \<Rightarrow> default_policy)"

definition policy_get :: "store \<Rightarrow> opaque \<Rightarrow> policy" where
  "policy_get st i = (case find_endpoint st i of Some r \<Rightarrow> policy_of r | None \<Rightarrow> default_policy)"

definition capabilities_get :: "store \<Rightarrow> opaque \<Rightarrow> capabilities" where
  "capabilities_get st i =
     (case Option.bind (find_endpoint st i) er_capabilities of Some c \<Rightarrow> c | None \<Rightarrow> no_capabilities)"

text \<open>\<open>collect\<close> over fallible rows: the first error wins.\<close>

fun collect :: "'a result list \<Rightarrow> 'a list result" where
  "collect [] = Inr []"
| "collect (r # rs) = and_then r (\<lambda>x. and_then (collect rs) (\<lambda>xs. Inr (x # xs)))"

definition list_endpoints :: "store \<Rightarrow> endpoint list result" where
  "list_endpoints st =
     collect (map build_endpoint
       (sort_key (\<lambda>r. (er_alias r, er_id r)) (filter (\<lambda>r. er_kind r \<noteq> PeerRuntime) (st_endpoints st))))"

definition self_endpoint_address :: "store \<Rightarrow> opaque \<Rightarrow> address option" where
  "self_endpoint_address st i =
     Option.bind (Option.bind (find_endpoint st i) er_address) (\<lambda>s. ok (address_parse s))"

section \<open>Callers\<close>

definition agent_identity :: "caller \<Rightarrow> (opaque \<times> opaque) result" where
  "agent_identity c =
     (case (pr_endpoint (cl_principal c), pr_incarnation (cl_principal c)) of
        (Some e, Some i) \<Rightarrow> Inr (e, i)
      | _ \<Rightarrow> Inl NotAuthorized)"

definition principal_key :: "principal \<Rightarrow> string" where
  "principal_key p = (case pr_endpoint p of Some i \<Rightarrow> ''agent:'' @ i | None \<Rightarrow> ''local_user'')"

definition require_current_incarnation :: "store \<Rightarrow> opaque \<Rightarrow> opaque \<Rightarrow> unit result" where
  "require_current_incarnation st e i =
     (case Option.bind (find_endpoint st e) er_incarnation of
        Some live \<Rightarrow> if live = i then Inr () else Inl ClaimLost
      | None \<Rightarrow> Inl NotAuthorized)"

text \<open>\<open>fold(0, |acc, (x, y)| acc | (x ^ y)) == 0\<close> on bytes of equal number.\<close>

definition constant_time_eq :: "string \<Rightarrow> string \<Rightarrow> bool" where
  "constant_time_eq a b =
     (length a = length b
      \<and> fold (\<lambda>(x, y) acc. or acc (xor (of_nat (byte x) :: 8 word) (of_nat (byte y)))) (zip a b) 0 = 0)"

definition authenticate :: "(string \<Rightarrow> 8 word list) \<Rightarrow> opaque \<Rightarrow> string \<Rightarrow> store \<Rightarrow> caller result" where
  "authenticate sha e token st =
     (case find_endpoint st e of
        None \<Rightarrow> Inl NotAuthorized
      | Some r \<Rightarrow>
          (case er_token_hash r of
             None \<Rightarrow> Inl NotAuthorized
           | Some stored \<Rightarrow>
               if constant_time_eq stored (hex (sha token))
               then Inr \<lparr>cl_principal = \<lparr>pr_kind = Agent, pr_endpoint = Some e, pr_incarnation = er_incarnation r\<rparr>,
                         cl_scope = Some (er_instance r)\<rparr>
               else Inl NotAuthorized))"

section \<open>Peers and proxies\<close>

record lease =
  ls_owner :: opaque
  ls_expires :: int
  ls_anchor :: "lease_anchor option"

definition is_live :: "int \<Rightarrow> lease \<Rightarrow> bool" where
  "is_live now l \<longleftrightarrow> ls_expires l > now"

record peer =
  peer_id :: opaque
  peer_name :: peer_label
  peer_host :: opaque
  peer_is_trusted :: bool
  peer_lease :: "lease option"

definition build_peer :: "peer_row \<Rightarrow> peer result" where
  "build_peer r =
     (case pe_label r of
        None \<Rightarrow> Inl IoError
      | Some l \<Rightarrow>
          Inr \<lparr>peer_id = pe_id r, peer_name = l, peer_host = pe_host r, peer_is_trusted = pe_trusted r,
               peer_lease = (case (pe_lease_owner r, pe_lease_expires r) of
                  (Some w, Some x) \<Rightarrow> Some \<lparr>ls_owner = w, ls_expires = x, ls_anchor = pe_lease_anchor r\<rparr>
                | _ \<Rightarrow> None)\<rparr>)"

definition live_peer_row :: "store \<Rightarrow> (peer_row \<Rightarrow> bool) \<Rightarrow> peer_row option" where
  "live_peer_row st P = List.find (\<lambda>r. P r \<and> \<not> pe_retired r) (st_peers st)"

definition peer_by_label :: "store \<Rightarrow> peer_label \<Rightarrow> peer result" where
  "peer_by_label st l =
     (case live_peer_row st (\<lambda>r. pe_label r = Some l) of None \<Rightarrow> Inl NotFound | Some r \<Rightarrow> build_peer r)"

definition peer_by_id :: "store \<Rightarrow> opaque \<Rightarrow> peer result" where
  "peer_by_id st i =
     (case live_peer_row st (\<lambda>r. pe_id r = i) of None \<Rightarrow> Inl NotFound | Some r \<Rightarrow> build_peer r)"

definition peer_by_host :: "store \<Rightarrow> opaque \<Rightarrow> peer option result" where
  "peer_by_host st h =
     (case live_peer_row st (\<lambda>r. pe_host r = h) of
        None \<Rightarrow> Inr None | Some r \<Rightarrow> and_then (build_peer r) (\<lambda>p. Inr (Some p)))"

definition list_peers :: "store \<Rightarrow> peer list result" where
  "list_peers st = collect (map build_peer (sort_key pe_label (filter (\<lambda>r. \<not> pe_retired r) (st_peers st))))"

definition proxy_get :: "store \<Rightarrow> opaque \<Rightarrow> proxy_row result" where
  "proxy_get st i = (case find_proxy st i of None \<Rightarrow> Inl NotFound | Some x \<Rightarrow> Inr x)"

text \<open>\<open>proxy x JOIN peer p ON p.peer_id = x.peer_id WHERE x.endpoint_id = i\<close>.\<close>

definition proxy_peer :: "store \<Rightarrow> opaque \<Rightarrow> peer_row option" where
  "proxy_peer st i = Option.bind (find_proxy st i) (\<lambda>x. find_peer st (px_peer x))"

definition peer_trusted :: "store \<Rightarrow> principal \<Rightarrow> bool" where
  "peer_trusted st p =
     (case pr_endpoint p of
        None \<Rightarrow> False
      | Some i \<Rightarrow> pr_kind p = PeerPrincipal
          \<and> (case proxy_peer st i of Some q \<Rightarrow> \<not> pe_retired q \<and> pe_trusted q | None \<Rightarrow> False))"

definition require_live_lease :: "store \<Rightarrow> int \<Rightarrow> opaque \<Rightarrow> opaque \<Rightarrow> unit result" where
  "require_live_lease st now i owner =
     (case peer_by_id st i of
        Inl e \<Rightarrow> Inl (if e = NotFound then PeerRetired else e)
      | Inr p \<Rightarrow>
          (case peer_lease p of
             Some l \<Rightarrow> if ls_owner l = owner \<and> is_live now l then Inr () else Inl ClaimLost
           | None \<Rightarrow> Inl ClaimLost))"

definition require_peer_authority :: "store \<Rightarrow> int \<Rightarrow> caller \<Rightarrow> unit result" where
  "require_peer_authority st now c =
     (if pr_kind (cl_principal c) \<noteq> PeerPrincipal then Inr ()
      else and_then (agent_identity c) (\<lambda>(e, owner).
        and_then (proxy_get st e) (\<lambda>x. require_live_lease st now (px_peer x) owner)))"

definition proxy_caller :: "store \<Rightarrow> int \<Rightarrow> opaque \<Rightarrow> opaque \<Rightarrow> caller result" where
  "proxy_caller st now i owner =
     and_then (proxy_get st i) (\<lambda>x.
       and_then (require_live_lease st now (px_peer x) owner) (\<lambda>_.
         Inr \<lparr>cl_principal = \<lparr>pr_kind = PeerPrincipal, pr_endpoint = Some (px_endpoint x),
                pr_incarnation = Some owner\<rparr>,
              cl_scope = Some (px_peer x)\<rparr>))"

definition proxy_policy :: policy where
  "proxy_policy = default_policy\<lparr>pol_enqueue := Anyone, pol_make_visible := Anyone,
     pol_activate := Nobody, pol_team := TeamOff\<rparr>"

section \<open>Decisions\<close>

definition answers_target :: "store \<Rightarrow> message \<Rightarrow> bool" where
  "answers_target st m =
     (msg_kind m = Response
      \<and> (case msg_reply_to m of
           None \<Rightarrow> False
         | Some i \<Rightarrow> (case load_message st i of
             Inr request \<Rightarrow> pr_endpoint (msg_from request) = Some (msg_to m)
           | Inl _ \<Rightarrow> False)))"

definition message_decision :: "store \<Rightarrow> message \<Rightarrow> gate \<Rightarrow> decision result" where
  "message_decision st m g =
     (case find_endpoint st (msg_to m) of
        None \<Rightarrow> Inl IoError
      | Some target \<Rightarrow>
          let sender = Option.bind (pr_endpoint (msg_from m)) (find_endpoint st) in
          and_then (read_address (Option.bind sender er_address)) (\<lambda>theirs.
          and_then (read_address (er_address target)) (\<lambda>ours.
            Inr (evaluate (policy_of target) g
              \<lparr>rq_sender = msg_from m, rq_sender_scope = map_option er_instance sender,
               rq_target_scope = er_instance target, rq_is_reply = answers_target st m,
               rq_sender_address = theirs, rq_target_address = ours,
               rq_peer_trusted = peer_trusted st (msg_from m)\<rparr>))))"

lemma agent_identity_Inr:
  "agent_identity c = Inr (e, i) \<longleftrightarrow> pr_endpoint (cl_principal c) = Some e \<and> pr_incarnation (cl_principal c) = Some i"
  by (auto simp: agent_identity_def split: option.splits)

lemma require_current_incarnation_Inr:
  "require_current_incarnation st e i = Inr () \<longleftrightarrow> (\<exists>r. find_endpoint st e = Some r \<and> er_incarnation r = Some i)"
  by (auto simp: require_current_incarnation_def Option.bind_eq_Some_conv split: option.splits Option.bind_splits)

lemma require_live_lease_Inr:
  "require_live_lease st now i owner = Inr () \<longleftrightarrow>
     (\<exists>r l x. live_peer_row st (\<lambda>r. pe_id r = i) = Some r \<and> pe_label r = Some l
        \<and> pe_lease_owner r = Some owner \<and> pe_lease_expires r = Some x \<and> x > now)"
  by (auto simp: require_live_lease_def peer_by_id_def build_peer_def is_live_def split: option.splits)

lemma word_xor_zero: "xor a b = 0 \<longleftrightarrow> a = b" for a b :: "'a::len word"
proof
  assume "xor a b = 0"
  then have "xor (xor a b) b = b" by simp
  then show "a = b" by (simp add: xor.assoc)
qed simp

lemma byte_xor_zero: "xor (of_nat (byte a) :: 8 word) (of_nat (byte b)) = 0 \<longleftrightarrow> a = b"
proof
  assume "xor (of_nat (byte a) :: 8 word) (of_nat (byte b)) = 0"
  then have "(of_nat (byte a) :: 8 word) = of_nat (byte b)" by (simp only: word_xor_zero)
  then have "unat (of_nat (byte a) :: 8 word) = unat (of_nat (byte b) :: 8 word)" by simp
  moreover have "byte a < 256" "byte b < 256" by (simp_all add: byte_def)
  ultimately have "byte a = byte b" by (simp add: unsigned_of_nat take_bit_nat_eq_self)
  then show "a = b" by (simp add: byte_inject)
qed simp

lemma fold_xor_zero:
  "fold (\<lambda>(x, y) acc. or acc (xor (of_nat (byte x) :: 8 word) (of_nat (byte y)))) ps acc = 0
     \<longleftrightarrow> acc = 0 \<and> list_all (\<lambda>(x, y). x = y) ps"
proof (induction ps arbitrary: acc)
  case (Cons p ps)
  obtain x y where p: "p = (x, y)" by (cases p)
  have "fold (\<lambda>(x, y) acc. or acc (xor (of_nat (byte x) :: 8 word) (of_nat (byte y)))) (p # ps) acc = 0
      \<longleftrightarrow> or acc (xor (of_nat (byte x)) (of_nat (byte y))) = 0 \<and> list_all (\<lambda>(x, y). x = y) ps"
    unfolding p using Cons.IH by (simp only: fold_simps prod.case)
  then show ?case
    unfolding p by (simp only: or_eq_0_iff byte_xor_zero list.pred_inject prod.case conj_assoc)
qed (simp only: fold_simps list.pred_inject simp_thms)

text \<open>The loop without early return decides equality.\<close>

lemma constant_time_eq_iff: "constant_time_eq a b \<longleftrightarrow> a = b"
proof -
  have "length a = length b \<Longrightarrow> list_all (\<lambda>(x, y). x = y) (zip a b) \<longleftrightarrow> a = b"
    by (induction a b rule: list_induct2) auto
  then show ?thesis by (auto simp: constant_time_eq_def fold_xor_zero list_all_iff)
qed

end
