(* ===== verification/StoreEndpoint.thy ===== *)
theory StoreEndpoint
  imports StoreReads
begin

text \<open>
  The endpoint lifecycle of the store: binding and rebinding a durable slot, releasing it, the
  local user's mailbox, and the columns an endpoint's own process or the operator changes.
\<close>

section \<open>Operations\<close>

record binding =
  bi_alias :: "alias_name option"
  bi_provider :: "string option"
  bi_locator :: locator

record bound =
  bo_endpoint :: opaque
  bo_incarnation :: opaque
  bo_token :: string
  bo_rebound :: bool

definition slot_of :: "store \<Rightarrow> alias_name \<Rightarrow> opaque \<Rightarrow> endpoint_row option" where
  "slot_of st a inst = List.find (\<lambda>r. er_alias r = Some a \<and> er_instance r = inst) (st_endpoints st)"

text \<open>The primary key and the unique index \<open>endpoint_alias_scope\<close> refuse a second row.\<close>

definition insert_endpoint :: "endpoint_row \<Rightarrow> store \<Rightarrow> store result" where
  "insert_endpoint r st =
     (if find_endpoint st (er_id r) \<noteq> None then Inl IoError
      else if (case er_alias r of Some a \<Rightarrow> slot_of st a (er_instance r) \<noteq> None | None \<Rightarrow> False)
        then Inl IoError
      else Inr (st\<lparr>st_endpoints := st_endpoints st @ [r]\<rparr>))"

definition endpoint_limit :: "store \<Rightarrow> unit result" where
  "endpoint_limit st = (if int (length (st_endpoints st)) \<ge> MAX_ENDPOINTS then Inl EndpointLimit else Inr ())"

definition rebind_row :: "opaque \<Rightarrow> string \<Rightarrow> binding \<Rightarrow> int \<Rightarrow> endpoint_row \<Rightarrow> endpoint_row" where
  "rebind_row inc hash b now r =
     r\<lparr>er_incarnation := Some inc, er_token_hash := Some hash, er_provider := bi_provider b,
       er_online := True, er_state := Unknown, er_generation := er_generation r + 1,
       er_instance_name := loc_instance_name (bi_locator b),
       er_address := map_option address_str (loc_address (bi_locator b)), er_updated_at := now\<rparr>"

definition bind_row :: "opaque \<Rightarrow> opaque \<Rightarrow> string \<Rightarrow> binding \<Rightarrow> int \<Rightarrow> endpoint_row" where
  "bind_row i inc hash b now =
     \<lparr>er_id = i, er_incarnation = Some inc, er_token_hash = Some hash, er_alias = bi_alias b,
      er_provider = bi_provider b, er_kind = loc_kind (bi_locator b),
      er_instance = loc_instance_id (bi_locator b),
      er_instance_name = loc_instance_name (bi_locator b),
      er_address = map_option address_str (loc_address (bi_locator b)), er_online = True,
      er_state = Unknown, er_generation = 1, er_next_sequence = 1, er_pending_count = 0,
      er_pending_bytes = 0, er_policy = None, er_capabilities = None,
      er_created_at = now, er_updated_at = now\<rparr>"

definition endpoint_bind ::
  "(string \<Rightarrow> 8 word list) \<Rightarrow> int \<Rightarrow> 8 word list \<Rightarrow> opaque \<Rightarrow> opaque \<Rightarrow> binding \<Rightarrow> store \<Rightarrow> store \<times> bound result" where
  "endpoint_bind sha now token_bytes inc fresh b st =
     (if loc_kind (bi_locator b) = PeerRuntime then (st, Inl InvalidRequest)
      else
        let token = hex token_bytes;
            hash = hex (sha token);
            existing = (case bi_alias b of
                Some a \<Rightarrow> slot_of st a (loc_instance_id (bi_locator b)) | None \<Rightarrow> None)
        in (case existing of
              Some r \<Rightarrow>
                (audit now None (Some (er_id r)) ''rebind'' None None None 0 ''ok''
                   (set_endpoints (\<lambda>e. er_id e = er_id r) (rebind_row inc hash b now) st),
                 Inr \<lparr>bo_endpoint = er_id r, bo_incarnation = inc, bo_token = token, bo_rebound = True\<rparr>)
            | None \<Rightarrow>
                or_return st (endpoint_limit st) (\<lambda>_.
                or_return st (insert_endpoint (bind_row fresh inc hash b now) st) (\<lambda>st1.
                  (audit now None (Some fresh) ''bind'' None None None 0 ''ok'' st1,
                   Inr \<lparr>bo_endpoint = fresh, bo_incarnation = inc, bo_token = token, bo_rebound = False\<rparr>)))))"

definition offline_row :: "int \<Rightarrow> endpoint_row \<Rightarrow> endpoint_row" where
  "offline_row now r =
     r\<lparr>er_online := False, er_state := Offline, er_incarnation := None, er_token_hash := None,
       er_generation := er_generation r + 1, er_updated_at := now\<rparr>"

definition endpoint_unbind :: "int \<Rightarrow> opaque \<Rightarrow> opaque \<Rightarrow> store \<Rightarrow> store \<times> unit result" where
  "endpoint_unbind now e inc st =
     (if count_where (\<lambda>r. er_id r = e \<and> er_incarnation r = Some inc) (st_endpoints st) = 0
      then (audit now None (Some e) ''unbind'' None None None 0 ''stale_incarnation'' st, Inr ())
      else
        (audit now None (Some e) ''unbind'' None None None 0 ''ok''
           (set_messages (\<lambda>m. mr_to m = e \<and> mr_state m = Claimed \<and> mr_claim_owner m = Some inc) release_claim
              (set_endpoints (\<lambda>r. er_id r = e \<and> er_incarnation r = Some inc) (offline_row now) st)),
         Inr ()))"

definition local_row :: "opaque \<Rightarrow> int \<Rightarrow> endpoint_row" where
  "local_row i now =
     \<lparr>er_id = i, er_incarnation = Some i, er_token_hash = None, er_alias = Some LOCAL_USER_ALIAS,
      er_provider = None, er_kind = Wrapper, er_instance = LOCAL_USER_INSTANCE,
      er_instance_name = Some ''local'', er_address = None, er_online = True, er_state = Unknown,
      er_generation = 1, er_next_sequence = 1, er_pending_count = 0, er_pending_bytes = 0,
      er_policy = None, er_capabilities = None, er_created_at = now, er_updated_at = now\<rparr>"

definition reopen_row :: "opaque \<Rightarrow> int \<Rightarrow> endpoint_row \<Rightarrow> endpoint_row" where
  "reopen_row inc now r = r\<lparr>er_incarnation := Some inc, er_online := True, er_updated_at := now\<rparr>"

definition user_caller :: "opaque \<Rightarrow> opaque \<Rightarrow> caller" where
  "user_caller e inc =
     \<lparr>cl_principal = \<lparr>pr_kind = LocalUser, pr_endpoint = Some e, pr_incarnation = Some inc\<rparr>,
      cl_scope = Some LOCAL_USER_INSTANCE\<rparr>"

definition ensure_local_user :: "int \<Rightarrow> opaque \<Rightarrow> store \<Rightarrow> store \<times> caller result" where
  "ensure_local_user now fresh st =
     (case slot_of st LOCAL_USER_ALIAS LOCAL_USER_INSTANCE of
        Some r \<Rightarrow>
          (case er_incarnation r of
             Some inc \<Rightarrow> (st, Inr (user_caller (er_id r) inc))
           | None \<Rightarrow>
               (set_endpoints (\<lambda>e. er_id e = er_id r) (reopen_row (er_id r) now) st,
                Inr (user_caller (er_id r) (er_id r))))
      | None \<Rightarrow>
          or_return st (insert_endpoint (local_row fresh now) st) (\<lambda>st1. (st1, Inr (user_caller fresh fresh))))"

definition state_row :: "agent_state \<Rightarrow> int \<Rightarrow> endpoint_row \<Rightarrow> endpoint_row" where
  "state_row s now r = r\<lparr>er_state := s, er_generation := er_generation r + 1, er_updated_at := now\<rparr>"

text \<open>The generation is read back in the transaction; with no such row the query fails.\<close>

definition set_state :: "int \<Rightarrow> opaque \<Rightarrow> agent_state \<Rightarrow> store \<Rightarrow> store \<times> int result" where
  "set_state now e s st =
     (let st1 = set_endpoints (\<lambda>r. er_id r = e) (state_row s now) st
      in (case find_endpoint st1 e of None \<Rightarrow> (st, Inl IoError) | Some r \<Rightarrow> (st1, Inr (er_generation r))))"

definition change_endpoint :: "opaque \<Rightarrow> (endpoint_row \<Rightarrow> endpoint_row) \<Rightarrow> store \<Rightarrow> store \<times> unit result" where
  "change_endpoint e f st =
     (if count_where (\<lambda>r. er_id r = e) (st_endpoints st) = 0 then (st, Inl NotFound)
      else (set_endpoints (\<lambda>r. er_id r = e) f st, Inr ()))"

definition capabilities_row :: "capabilities \<Rightarrow> int \<Rightarrow> endpoint_row \<Rightarrow> endpoint_row" where
  "capabilities_row c now r = r\<lparr>er_capabilities := Some c, er_updated_at := now\<rparr>"

definition address_row :: "address option \<Rightarrow> int \<Rightarrow> endpoint_row \<Rightarrow> endpoint_row" where
  "address_row a now r = r\<lparr>er_address := map_option address_str a, er_updated_at := now\<rparr>"

definition policy_row :: "policy \<Rightarrow> int \<Rightarrow> endpoint_row \<Rightarrow> endpoint_row" where
  "policy_row p now r = r\<lparr>er_policy := Some p, er_updated_at := now\<rparr>"

definition set_capabilities :: "int \<Rightarrow> opaque \<Rightarrow> capabilities \<Rightarrow> store \<Rightarrow> store \<times> unit result" where
  "set_capabilities now e c = change_endpoint e (capabilities_row c now)"

definition set_address :: "int \<Rightarrow> opaque \<Rightarrow> address option \<Rightarrow> store \<Rightarrow> store \<times> unit result" where
  "set_address now e a = change_endpoint e (address_row a now)"

definition set_policy :: "int \<Rightarrow> opaque \<Rightarrow> policy \<Rightarrow> store \<Rightarrow> store \<times> unit result" where
  "set_policy now e p = change_endpoint e (policy_row p now)"

section \<open>The column updates keep the keys\<close>

interpretation rebind_update: column_update er_id "rebind_row inc hash b now"
  by unfold_locales (simp add: rebind_row_def)
interpretation offline_update: column_update er_id "offline_row now"
  by unfold_locales (simp add: offline_row_def)
interpretation reopen_update: column_update er_id "reopen_row inc now"
  by unfold_locales (simp add: reopen_row_def)
interpretation state_update: column_update er_id "state_row s now"
  by unfold_locales (simp add: state_row_def)
interpretation address_update: column_update er_id "address_row a now"
  by unfold_locales (simp add: address_row_def)
interpretation counts_update: column_update er_id "set_counts n b"
  by unfold_locales (simp add: set_counts_def)
interpretation claim_update: column_update mr_id release_claim
  by unfold_locales (simp add: release_claim_def)

end
