(* ===== verification/StoreSend.thy ===== *)
theory StoreSend
  imports StoreEndpoint
begin

text \<open>
  \<open>Store::send_as\<close>: the one transaction that accepts a message or refuses it. Each numbered step of
  the code is a definition of its own, and \<open>send_as\<close> composes them in the code's order.
\<close>

section \<open>The steps\<close>

text \<open>1. Idempotency, before anything is charged or allocated.\<close>

definition find_idempotency :: "store \<Rightarrow> string \<Rightarrow> string \<Rightarrow> idempotency_row option" where
  "find_idempotency st sender key =
     List.find (\<lambda>r. id_sender r = sender \<and> id_key r = key) (st_idempotency st)"

definition send_replay :: "int \<Rightarrow> string \<Rightarrow> int \<Rightarrow> idempotency_row \<Rightarrow> store \<Rightarrow> store \<times> message result" where
  "send_replay now digest bytes r st =
     (if id_digest r \<noteq> digest
      then (audit now None None ''send'' None None None bytes ''idempotency_conflict'' st, Inl IdempotencyConflict)
      else (st, load_message st (id_message r)))"

text \<open>2. The target must exist; a peer is never routed to another peer.\<close>

definition send_target :: "store \<Rightarrow> caller \<Rightarrow> opaque \<Rightarrow> endpoint_row result" where
  "send_target st c i =
     (case find_endpoint st i of
        None \<Rightarrow> Inl AgentNotFound
      | Some t \<Rightarrow>
          if er_kind t = PeerRuntime
          then (if pr_kind (cl_principal c) = PeerPrincipal then Inl NotAuthorized
                else (case proxy_peer st i of
                        None \<Rightarrow> Inl IoError
                      | Some p \<Rightarrow> if pe_retired p then Inl PeerRetired else Inr t))
          else Inr t)"

text \<open>3. Is this a reply to something the target asked for?\<close>

definition send_is_reply :: "store \<Rightarrow> caller \<Rightarrow> draft \<Rightarrow> bool result" where
  "send_is_reply st c d =
     (case d_reply_to d of
        None \<Rightarrow> Inr False
      | Some i \<Rightarrow>
          and_then (load_message st i) (\<lambda>request.
            if msg_kind request \<noteq> Request
               \<or> pr_endpoint (cl_principal c) \<noteq> Some (msg_to request)
               \<or> pr_endpoint (msg_from request) \<noteq> Some (d_to d)
            then Inl NotAuthorized
            else Inr (Option.bind (find_message st i) (\<lambda>r. pr_endpoint (mr_from r)) = Some (d_to d))))"

text \<open>4. The enqueue gate.\<close>

definition send_decision :: "store \<Rightarrow> caller \<Rightarrow> endpoint_row \<Rightarrow> opaque \<Rightarrow> bool \<Rightarrow> decision" where
  "send_decision st c t i is_reply =
     evaluate (policy_of t) Enqueue
       \<lparr>rq_sender = cl_principal c, rq_sender_scope = cl_scope c, rq_target_scope = er_instance t,
        rq_is_reply = is_reply,
        rq_sender_address = Option.bind (pr_endpoint (cl_principal c)) (self_endpoint_address st),
        rq_target_address = self_endpoint_address st i,
        rq_peer_trusted = peer_trusted st (cl_principal c)\<rparr>"

text \<open>5. Rate, counted from the audit trail of the last minute.\<close>

definition recent :: "store \<Rightarrow> opaque \<Rightarrow> string \<Rightarrow> string \<Rightarrow> int \<Rightarrow> nat" where
  "recent st e operation res now =
     u32_count (count_where (\<lambda>a. au_endpoint a = Some e \<and> au_operation a = operation
        \<and> au_result a = res \<and> au_at a > now - 60000) (st_audit st))"

definition rate_exceeded :: "store \<Rightarrow> endpoint_row \<Rightarrow> draft \<Rightarrow> int \<Rightarrow> bool" where
  "rate_exceeded st t d now \<longleftrightarrow>
     \<not> may_use_reserve (d_kind d) \<and> recent st (d_to d) ''send'' ''accepted'' now \<ge> pol_max_inbound (policy_of t)"

text \<open>6. Quotas: responses may reach into the reserve.\<close>

definition count_cap :: "kind \<Rightarrow> int" where
  "count_cap k = (if may_use_reserve k then MAX_PENDING_COUNT + RESERVED_COUNT else MAX_PENDING_COUNT)"

definition byte_cap :: "kind \<Rightarrow> int" where
  "byte_cap k = (if may_use_reserve k then MAX_PENDING_BYTES + RESERVED_BYTES else MAX_PENDING_BYTES)"

definition mailbox_full :: "endpoint_row \<Rightarrow> kind \<Rightarrow> int \<Rightarrow> bool" where
  "mailbox_full t k bytes \<longleftrightarrow>
     er_pending_count t + 1 > count_cap k \<or> er_pending_bytes t + bytes > byte_cap k"

text \<open>7. Insert. Every identity field is the store's, not the caller's.\<close>

definition expiry :: "int \<Rightarrow> draft \<Rightarrow> int option" where
  "expiry now d =
     map_option (\<lambda>lifetime. saturating_add now (min lifetime MAX_REQUEST_LIFETIME_MS))
       (case d_expires_in d of
          Some t \<Rightarrow> Some t
        | None \<Rightarrow> if d_kind d = Notice then Some (60 * 60 * 1000) else None)"

definition conversation_of :: "store \<Rightarrow> draft \<Rightarrow> opaque \<Rightarrow> opaque" where
  "conversation_of st d fresh =
     (case d_reply_to d of
        None \<Rightarrow> fresh
      | Some i \<Rightarrow> (case find_message st i of Some r \<Rightarrow> mr_conversation r | None \<Rightarrow> fresh))"

definition new_row ::
  "store \<Rightarrow> caller \<Rightarrow> draft \<Rightarrow> opaque option \<Rightarrow> endpoint_row \<Rightarrow> int \<Rightarrow> int \<Rightarrow> opaque \<Rightarrow> opaque \<Rightarrow> message_row" where
  "new_row st c d origin t bytes now i conv =
     \<lparr>mr_id = i, mr_to = d_to d, mr_from = cl_principal c, mr_kind = d_kind d,
      mr_conversation = conversation_of st d conv, mr_reply_to = d_reply_to d, mr_outcome = d_outcome d,
      mr_sequence = er_next_sequence t, mr_state = Queued, mr_subject = d_subject d, mr_text = d_text d,
      mr_refs = d_refs d, mr_bytes = bytes, mr_created_at = now, mr_expires_at = expiry now d,
      mr_claim_owner = None, mr_claim_expires = None, mr_activations = 0, mr_last_activated = None,
      mr_group_send = None, mr_failure = None, mr_origin = origin\<rparr>"

definition charge_row :: "int \<Rightarrow> endpoint_row \<Rightarrow> endpoint_row" where
  "charge_row bytes r =
     r\<lparr>er_next_sequence := er_next_sequence r + 1, er_pending_count := er_pending_count r + 1,
       er_pending_bytes := er_pending_bytes r + bytes\<rparr>"

text \<open>The primary key and \<open>UNIQUE (to_endpoint, recipient_sequence)\<close> refuse a second row.\<close>

definition insert_message :: "message_row \<Rightarrow> store \<Rightarrow> store result" where
  "insert_message r st =
     (if find_message st (mr_id r) \<noteq> None then Inl IoError
      else if list_ex (\<lambda>m. mr_to m = mr_to r \<and> mr_sequence m = mr_sequence r) (st_messages st) then Inl IoError
      else Inr (st\<lparr>st_messages := st_messages st @ [r]\<rparr>))"

definition remember_key :: "string \<Rightarrow> draft \<Rightarrow> string \<Rightarrow> opaque \<Rightarrow> int \<Rightarrow> store \<Rightarrow> store" where
  "remember_key sender d digest i now st =
     st\<lparr>st_idempotency := st_idempotency st @ [\<lparr>id_sender = sender, id_key = d_key d, id_digest = digest,
        id_message = i, id_created_at = now\<rparr>]\<rparr>"

definition send_insert ::
  "int \<Rightarrow> string \<Rightarrow> string \<Rightarrow> rule \<Rightarrow> draft \<Rightarrow> message_row \<Rightarrow> store \<Rightarrow> store \<times> message result" where
  "send_insert now sender digest r d row st =
     or_return st (insert_message row st) (\<lambda>st1.
       let st2 = audit now (Some (mr_id row)) (Some (d_to d)) ''send'' None (Some ''queued'')
                   (Some (rule_str r)) (mr_bytes row) ''accepted''
                   (remember_key sender d digest (mr_id row) now
                     (set_endpoints (\<lambda>e. er_id e = d_to d) (charge_row (mr_bytes row)) st1))
       in (case load_message st2 (mr_id row) of Inl e \<Rightarrow> (st, Inl e) | Inr m \<Rightarrow> (st2, Inr m)))"

definition send_refused ::
  "int \<Rightarrow> draft \<Rightarrow> rule \<Rightarrow> int \<Rightarrow> string \<Rightarrow> error_code \<Rightarrow> store \<Rightarrow> store \<times> message result" where
  "send_refused now d r bytes why e st =
     (audit now None (Some (d_to d)) ''send'' None None (Some (rule_str r)) bytes why st, Inl e)"

definition send_tx ::
  "(string \<Rightarrow> string) \<Rightarrow> (reference list \<Rightarrow> string) \<Rightarrow> int \<Rightarrow> opaque \<Rightarrow> opaque \<Rightarrow> caller \<Rightarrow> draft
    \<Rightarrow> opaque option \<Rightarrow> store \<Rightarrow> store \<times> message result" where
  "send_tx sha json now i conv c d origin st =
     (let digest = draft_digest sha json d;
          bytes = charged_bytes json d;
          sender = principal_key (cl_principal c)
      in (case find_idempotency st sender (d_key d) of
            Some r \<Rightarrow> send_replay now digest bytes r st
          | None \<Rightarrow>
              or_return st (send_target st c (d_to d)) (\<lambda>t.
              or_return st (send_is_reply st c d) (\<lambda>is_reply.
                let decision = send_decision st c t (d_to d) is_reply in
                if \<not> dec_allowed decision
                then send_refused now d (dec_rule decision) bytes ''policy_refused'' PolicyRefused st
                else if rate_exceeded st t d now
                then send_refused now d (dec_rule decision) bytes ''rate_limited'' RateLimited st
                else if mailbox_full t (d_kind d) bytes
                then send_refused now d (dec_rule decision) bytes ''mailbox_full'' MailboxFull st
                else send_insert now sender digest (dec_rule decision) d
                       (new_row st c d origin t bytes now i conv) st))))"

definition send_as ::
  "(string \<Rightarrow> string) \<Rightarrow> (reference list \<Rightarrow> string) \<Rightarrow> int \<Rightarrow> opaque \<Rightarrow> opaque \<Rightarrow> caller \<Rightarrow> draft
    \<Rightarrow> opaque option \<Rightarrow> store \<Rightarrow> store \<times> message result" where
  "send_as sha json now i conv c d origin st =
     or_return st (draft_validate d) (\<lambda>_.
     or_return st (require_peer_authority st now c) (\<lambda>_.
       send_tx sha json now i conv c d origin st))"

definition send ::
  "(string \<Rightarrow> string) \<Rightarrow> (reference list \<Rightarrow> string) \<Rightarrow> int \<Rightarrow> opaque \<Rightarrow> opaque \<Rightarrow> caller \<Rightarrow> draft
    \<Rightarrow> store \<Rightarrow> store \<times> message result" where
  "send sha json now i conv c d st = send_as sha json now i conv c d None st"

interpretation charge_update: column_update er_id "charge_row bytes"
  by unfold_locales (simp add: charge_row_def)

end
