(* ===== verification/StoreReceive.thy ===== *)
theory StoreReceive
  imports StoreSend
begin

text \<open>
  The recipient's half of the store: reading the inbox, claiming under a lease, answering,
  cancelling, interrupting, and the sweep that any process may run.
\<close>

section \<open>Reading\<close>

fun select_visible :: "store \<Rightarrow> msg_state list \<Rightarrow> message list \<Rightarrow> message list result" where
  "select_visible st states [] = Inr []"
| "select_visible st states (m # ms) =
     (if states = [] \<or> msg_state m \<in> set states
      then and_then (message_decision st m MakeVisible) (\<lambda>d.
             and_then (select_visible st states ms) (\<lambda>rest.
               Inr (if dec_allowed d then m # rest else rest)))
      else select_visible st states ms)"

text \<open>\<open>ORDER BY recipient_sequence LIMIT\<close> is applied by the query, the states and the gate after it.\<close>

definition inbox :: "store \<Rightarrow> opaque \<Rightarrow> msg_state list \<Rightarrow> nat \<Rightarrow> message list result" where
  "inbox st e states limit =
     select_visible st states (map build_message (take (min limit (nat i64_max))
       (sort_key mr_sequence (filter (\<lambda>m. mr_to m = e) (st_messages st)))))"

definition is_working :: "msg_state \<Rightarrow> bool" where
  "is_working s \<longleftrightarrow> s = Claimed \<or> s = Delivered \<or> s = CancellationRequested"

definition interrupt_owner :: "store \<Rightarrow> opaque \<Rightarrow> opaque option" where
  "interrupt_owner st i =
     (case find_message st i of
        None \<Rightarrow> None
      | Some r \<Rightarrow>
          (case find_endpoint st (mr_to r) of
             None \<Rightarrow> None
           | Some e \<Rightarrow>
               if er_online e \<and> mr_claim_owner r \<noteq> None \<and> mr_claim_owner r = er_incarnation e
                  \<and> \<not> list_ex (\<lambda>o'. mr_to o' = er_id e \<and> mr_id o' \<noteq> mr_id r \<and> is_working (mr_state o')) (st_messages st)
               then er_incarnation e else None))"

definition interrupt_target :: "store \<Rightarrow> opaque \<Rightarrow> opaque option result" where
  "interrupt_target st i =
     and_then (load_message st i) (\<lambda>m.
       if msg_kind m \<noteq> Request \<or> msg_state m \<noteq> CancellationRequested then Inr None
       else and_then (message_decision st m Interrupt) (\<lambda>d.
         if dec_allowed d then Inr (interrupt_owner st i) else Inr None))"

definition response_for :: "store \<Rightarrow> opaque \<Rightarrow> message option result" where
  "response_for st i =
     (case sort_key mr_sequence (filter (\<lambda>m. mr_reply_to m = Some i \<and> mr_kind m = Response) (st_messages st)) of
        [] \<Rightarrow> Inr None
      | r # _ \<Rightarrow>
          and_then (load_message st (mr_id r)) (\<lambda>m.
          and_then (message_decision st m MakeVisible) (\<lambda>d.
            Inr (if dec_allowed d then Some m else None))))"

section \<open>Interrupting\<close>

definition stopped_row :: "message_row \<Rightarrow> message_row" where
  "stopped_row m = m\<lparr>mr_state := Cancelled, mr_outcome := Some OutcomeCancelled,
     mr_claim_owner := None, mr_claim_expires := None\<rparr>"

definition interrupt_confirmed :: "store \<Rightarrow> opaque \<Rightarrow> opaque \<Rightarrow> message_row \<Rightarrow> bool" where
  "interrupt_confirmed st i inc m \<longleftrightarrow>
     mr_id m = i \<and> mr_state m = CancellationRequested \<and> mr_claim_owner m = Some inc
     \<and> list_ex (\<lambda>e. er_id e = mr_to m \<and> er_incarnation e = Some inc \<and> er_online e) (st_endpoints st)"

definition confirm_interrupt :: "int \<Rightarrow> opaque \<Rightarrow> opaque \<Rightarrow> store \<Rightarrow> store \<times> msg_state result" where
  "confirm_interrupt now i inc st =
     or_return st (load_message st i) (\<lambda>m.
       let st1 = set_messages (interrupt_confirmed st i inc) stopped_row st;
           st2 = (if count_where (interrupt_confirmed st i inc) (st_messages st) > 0
                  then audit now (Some i) (Some (msg_to m)) ''interrupt'' (Some ''cancellation_requested'')
                         (Some ''cancelled'') (Some ''anyone'') 0 ''confirmed'' (recount (msg_to m) st1)
                  else st1)
       in (case load_message st2 i of Inl e \<Rightarrow> (st, Inl e) | Inr m' \<Rightarrow> (st2, Inr (msg_state m'))))"

section \<open>Claiming\<close>

definition lapsed :: "int \<Rightarrow> message_row \<Rightarrow> bool" where
  "lapsed now m \<longleftrightarrow> mr_state m = Claimed \<and> (case mr_claim_expires m of Some x \<Rightarrow> x \<le> now | None \<Rightarrow> False)"

definition reclaim_lapsed :: "int \<Rightarrow> store \<Rightarrow> store" where
  "reclaim_lapsed now = set_messages (lapsed now) release_claim"

definition unexpired :: "int \<Rightarrow> message_row \<Rightarrow> bool" where
  "unexpired now m \<longleftrightarrow> (case mr_expires_at m of None \<Rightarrow> True | Some x \<Rightarrow> x > now)"

definition claim_candidates :: "int \<Rightarrow> opaque \<Rightarrow> store \<Rightarrow> opaque list" where
  "claim_candidates now e st =
     map mr_id (sort_key mr_sequence
       (filter (\<lambda>m. mr_to m = e \<and> mr_state m = Queued \<and> unexpired now m) (st_messages st)))"

fun first_visible :: "store \<Rightarrow> opaque list \<Rightarrow> (opaque \<times> kind \<times> rule) option result" where
  "first_visible st [] = Inr None"
| "first_visible st (i # is) =
     and_then (load_message st i) (\<lambda>m.
     and_then (message_decision st m MakeVisible) (\<lambda>d.
       if dec_allowed d then Inr (Some (i, msg_kind m, dec_rule d)) else first_visible st is))"

definition claimed_row :: "opaque \<Rightarrow> int \<Rightarrow> message_row \<Rightarrow> message_row" where
  "claimed_row inc until m = m\<lparr>mr_state := Claimed, mr_claim_owner := Some inc, mr_claim_expires := Some until\<rparr>"

definition consumed_row :: "message_row \<Rightarrow> message_row" where
  "consumed_row m = m\<lparr>mr_state := Consumed, mr_claim_owner := None, mr_claim_expires := None\<rparr>"

definition take_message ::
  "int \<Rightarrow> int \<Rightarrow> bool \<Rightarrow> opaque \<Rightarrow> opaque \<Rightarrow> opaque \<times> kind \<times> rule \<Rightarrow> store \<Rightarrow> store" where
  "take_message now lease consume e inc c st =
     (case c of (i, k, r) \<Rightarrow>
        let st1 = set_messages (\<lambda>m. mr_id m = i) (claimed_row inc (saturating_add now lease)) st;
            consumed = (consume \<and> k = Notice);
            st2 = (if consumed then recount e (set_messages (\<lambda>m. mr_id m = i) consumed_row st1) else st1)
        in audit now (Some i) (Some e) ''claim'' (Some ''queued'')
             (Some (if consumed then ''consumed'' else ''claimed'')) (Some (rule_str r)) 0 ''ok'' st2)"

definition claim_tx :: "int \<Rightarrow> int \<Rightarrow> bool \<Rightarrow> opaque \<Rightarrow> opaque \<Rightarrow> store \<Rightarrow> store \<times> message option result" where
  "claim_tx now lease consume e inc st =
     (let st1 = reclaim_lapsed now st
      in or_return st (first_visible st1 (claim_candidates now e st1)) (\<lambda>found.
           (case found of
              None \<Rightarrow> (st1, Inr None)
            | Some c \<Rightarrow>
                let st2 = take_message now lease consume e inc c st1
                in (case load_message st2 (fst c) of Inl x \<Rightarrow> (st, Inl x) | Inr m \<Rightarrow> (st2, Inr (Some m))))))"

definition claim_as ::
  "int \<Rightarrow> caller \<Rightarrow> int option \<Rightarrow> bool \<Rightarrow> store \<Rightarrow> store \<times> message option result" where
  "claim_as now c lease_ms consume st =
     or_return st (agent_identity c) (\<lambda>(e, inc).
     or_return st (require_current_incarnation st e inc) (\<lambda>_.
     or_return st (require_peer_authority st now c) (\<lambda>_.
       claim_tx now (max (case lease_ms of Some l \<Rightarrow> l | None \<Rightarrow> DEFAULT_CLAIM_LEASE_MS) 1) consume e inc st)))"

definition claim :: "int \<Rightarrow> caller \<Rightarrow> int option \<Rightarrow> store \<Rightarrow> store \<times> message option result" where
  "claim now c lease_ms = claim_as now c lease_ms True"

definition claim_outbound :: "int \<Rightarrow> caller \<Rightarrow> store \<Rightarrow> store \<times> message option result" where
  "claim_outbound now c st =
     (if pr_kind (cl_principal c) \<noteq> PeerPrincipal then (st, Inl NotAuthorized)
      else claim_as now c None False st)"

section \<open>Answering\<close>

definition response_draft ::
  "opaque \<Rightarrow> message \<Rightarrow> opaque \<Rightarrow> outcome \<Rightarrow> string \<Rightarrow> reference list \<Rightarrow> string \<Rightarrow> draft" where
  "response_draft i request requester outcome t refs key =
     \<lparr>d_to = requester, d_kind = Response, d_reply_to = Some i, d_outcome = Some outcome,
      d_subject = msg_subject request, d_text = t, d_refs = refs, d_key = key, d_expires_in = None\<rparr>"

definition respond_checks :: "store \<Rightarrow> int \<Rightarrow> caller \<Rightarrow> opaque \<Rightarrow> (opaque \<times> message \<times> opaque) result" where
  "respond_checks st now c i =
     and_then (agent_identity c) (\<lambda>(e, inc).
     and_then (require_current_incarnation st e inc) (\<lambda>_.
     and_then (require_peer_authority st now c) (\<lambda>_.
     and_then (load_message st i) (\<lambda>request.
       if msg_kind request \<noteq> Request then Inl InvalidRequest
       else if msg_to request \<noteq> e then Inl NotAuthorized
       else (case pr_endpoint (msg_from request) of
               None \<Rightarrow> Inl InvalidRequest
             | Some requester \<Rightarrow>
                 if msg_state request \<in> {Consumed, Cancelled, Expired, Undeliverable}
                 then Inl AlreadyResponded
                 else Inr (e, request, requester))))))"

definition uncharge_row :: "int \<Rightarrow> endpoint_row \<Rightarrow> endpoint_row" where
  "uncharge_row n r = r\<lparr>er_pending_count := er_pending_count r - 1, er_pending_bytes := er_pending_bytes r - n\<rparr>"

text \<open>The second transaction: the request leaves the responder's mailbox.\<close>

definition respond_retire :: "int \<Rightarrow> opaque \<Rightarrow> opaque \<Rightarrow> string \<Rightarrow> outcome \<Rightarrow> store \<Rightarrow> store" where
  "respond_retire now i e request_text outcome st =
     (let open_request = (\<lambda>m. mr_id m = i \<and> is_pending (mr_state m));
          st1 = set_messages open_request consumed_row st;
          st2 = (if count_where open_request (st_messages st) > 0
                 then recount e (set_endpoints (\<lambda>r. er_id r = e) (uncharge_row (int (length request_text))) st1)
                 else st1)
      in audit now (Some i) (Some e) ''respond'' None (Some ''consumed'') None 0 (outcome_str outcome) st2)"

definition respond ::
  "(string \<Rightarrow> string) \<Rightarrow> (reference list \<Rightarrow> string) \<Rightarrow> int \<Rightarrow> opaque \<Rightarrow> opaque \<Rightarrow> caller \<Rightarrow> opaque \<Rightarrow> outcome
    \<Rightarrow> string \<Rightarrow> reference list \<Rightarrow> string \<Rightarrow> store \<Rightarrow> store \<times> message result" where
  "respond sha json now fresh conv c i outcome t refs key st =
     or_return st (respond_checks st now c i) (\<lambda>(e, request, requester).
       (case send sha json now fresh conv c
               (response_draft i request requester outcome t refs key) st of
          (st1, Inl x) \<Rightarrow> (st1, Inl x)
        | (st1, Inr response) \<Rightarrow>
            (respond_retire now i e (msg_text request) outcome st1, Inr response)))"

section \<open>Cancelling and sweeping\<close>

definition state_only :: "msg_state \<Rightarrow> message_row \<Rightarrow> message_row" where
  "state_only s m = m\<lparr>mr_state := s\<rparr>"

definition cancel_authority :: "store \<Rightarrow> int \<Rightarrow> caller \<Rightarrow> unit result" where
  "cancel_authority st now c =
     (if pr_kind (cl_principal c) = LocalUser then Inr ()
      else and_then (agent_identity c) (\<lambda>(e, inc).
        and_then (require_current_incarnation st e inc) (\<lambda>_. require_peer_authority st now c)))"

definition cancel_tx :: "int \<Rightarrow> opaque \<Rightarrow> message \<Rightarrow> store \<Rightarrow> store \<times> msg_state" where
  "cancel_tx now i request st =
     (let queued = (\<lambda>m. mr_id m = i \<and> mr_state m = Queued);
          working = (\<lambda>m. mr_id m = i \<and> (mr_state m = Claimed \<or> mr_state m = Delivered));
          (st1, s) =
            (if count_where queued (st_messages st) > 0
             then (recount (msg_to request) (set_messages queued (state_only Cancelled) st), Cancelled)
             else if count_where working (st_messages st) > 0
             then (set_messages working (state_only CancellationRequested) st, CancellationRequested)
             else (st, msg_state request))
      in (audit now (Some i) (Some (msg_to request)) ''cancel'' (Some (state_str (msg_state request)))
            (Some (state_str s)) None 0 ''ok'' st1, s))"

definition cancel :: "int \<Rightarrow> caller \<Rightarrow> opaque \<Rightarrow> store \<Rightarrow> store \<times> msg_state result" where
  "cancel now c i st =
     or_return st (cancel_authority st now c) (\<lambda>_.
     or_return st (load_message st i) (\<lambda>request.
       if pr_endpoint (msg_from request) \<noteq> pr_endpoint (cl_principal c) then (st, Inl NotAuthorized)
       else (case cancel_tx now i request st of (st1, s) \<Rightarrow> (st1, Inr s))))"

definition past_deadline :: "int \<Rightarrow> message_row \<Rightarrow> bool" where
  "past_deadline now m \<longleftrightarrow>
     (case mr_expires_at m of Some x \<Rightarrow> x \<le> now | None \<Rightarrow> False) \<and> (mr_state m = Queued \<or> mr_state m = Claimed)"

definition sweep :: "int \<Rightarrow> store \<Rightarrow> store \<times> (nat \<times> nat)" where
  "sweep now st =
     (let reclaimed = count_where (lapsed now) (st_messages st);
          st1 = reclaim_lapsed now st;
          expired = count_where (past_deadline now) (st_messages st1);
          st2 = set_messages (past_deadline now) (state_only Expired) st1;
          st3 = (if expired > 0
                 then fold recount (remdups (map mr_to (filter (\<lambda>m. mr_state m = Expired) (st_messages st2)))) st2
                 else st2)
      in (st3, reclaimed, expired))"

interpretation stop_update: column_update mr_id stopped_row
  by unfold_locales (simp add: stopped_row_def)
interpretation claimed_update: column_update mr_id "claimed_row inc until"
  by unfold_locales (simp add: claimed_row_def)
interpretation consumed_update: column_update mr_id consumed_row
  by unfold_locales (simp add: consumed_row_def)
interpretation message_state_update: column_update mr_id "state_only s"
  by unfold_locales (simp add: state_only_def)

end
