(* ===== verification/StorePeers.thy ===== *)
theory StorePeers
  imports StoreReceive
begin

text \<open>
  Peer hosts: pinning a label to a store, trust, the one lease that lets a bridge act for a peer,
  proxies for remote agents, and forgetting a peer.
\<close>

section \<open>Pinning and trust\<close>

definition pinned_row :: "opaque \<Rightarrow> peer_label \<Rightarrow> opaque \<Rightarrow> int \<Rightarrow> peer_row" where
  "pinned_row i l h now =
     \<lparr>pe_id = i, pe_label = Some l, pe_host = h, pe_trusted = False, pe_retired = False,
      pe_lease_owner = None, pe_lease_expires = None, pe_lease_anchor = None,
      pe_created_at = now, pe_updated_at = now\<rparr>"

text \<open>The primary key and the unique index \<open>peer_label\<close> refuse a second row.\<close>

definition insert_peer :: "peer_row \<Rightarrow> store \<Rightarrow> store result" where
  "insert_peer r st =
     (if find_peer st (pe_id r) \<noteq> None then Inl IoError
      else if list_ex (\<lambda>q. pe_label q \<noteq> None \<and> pe_label q = pe_label r) (st_peers st) then Inl IoError
      else Inr (st\<lparr>st_peers := st_peers st @ [r]\<rparr>))"

definition pin_peer :: "int \<Rightarrow> opaque \<Rightarrow> peer_label \<Rightarrow> opaque \<Rightarrow> store \<Rightarrow> store \<times> peer result" where
  "pin_peer now fresh l h st =
     (if h = st_host st then (st, Inl InvalidRequest)
      else (case live_peer_row st (\<lambda>r. pe_label r = Some l) of
              Some r \<Rightarrow>
                or_return st (build_peer r) (\<lambda>p.
                  if peer_host p \<noteq> h then (st, Inl PeerMismatch) else (st, Inr p))
            | None \<Rightarrow>
                if live_peer_row st (\<lambda>r. pe_host r = h) \<noteq> None then (st, Inl PeerMismatch)
                else or_return st (insert_peer (pinned_row fresh l h now) st) (\<lambda>st1.
                       let st2 = audit now None None ''peer_pin'' None None None 0 ''ok'' st1
                       in or_return st (build_peer (pinned_row fresh l h now)) (\<lambda>p. (st2, Inr p)))))"

definition trust_row :: "bool \<Rightarrow> int \<Rightarrow> peer_row \<Rightarrow> peer_row" where
  "trust_row b now r = r\<lparr>pe_trusted := b, pe_updated_at := now\<rparr>"

definition set_peer_trust :: "int \<Rightarrow> peer_label \<Rightarrow> bool \<Rightarrow> store \<Rightarrow> store \<times> unit result" where
  "set_peer_trust now l b st =
     (let P = (\<lambda>r. pe_label r = Some l \<and> \<not> pe_retired r)
      in if count_where P (st_peers st) = 0 then (st, Inl NotFound)
         else (set_peers P (trust_row b now) st, Inr ()))"

section \<open>The lease\<close>

definition proxies_of :: "store \<Rightarrow> opaque \<Rightarrow> opaque list" where
  "proxies_of st p = map px_endpoint (filter (\<lambda>x. px_peer x = p) (st_proxies st))"

definition lease_row :: "opaque \<Rightarrow> int \<Rightarrow> lease_anchor option \<Rightarrow> int \<Rightarrow> peer_row \<Rightarrow> peer_row" where
  "lease_row owner until anchor now r =
     r\<lparr>pe_lease_owner := Some owner, pe_lease_expires := Some until, pe_lease_anchor := anchor,
       pe_updated_at := now\<rparr>"

definition held_by_other :: "opaque \<Rightarrow> peer_row \<Rightarrow> bool" where
  "held_by_other owner r \<longleftrightarrow> (case pe_lease_owner r of Some w \<Rightarrow> w \<noteq> owner | None \<Rightarrow> False)"

definition lease_unexpired :: "int \<Rightarrow> peer_row \<Rightarrow> bool" where
  "lease_unexpired now r \<longleftrightarrow> (case pe_lease_expires r of Some x \<Rightarrow> x > now | None \<Rightarrow> False)"

definition acquire_peer_lease ::
  "opaque \<Rightarrow> opaque \<Rightarrow> lease_anchor option \<Rightarrow> int \<Rightarrow> int \<Rightarrow> store \<Rightarrow> store \<times> bool result" where
  "acquire_peer_lease p owner anchor ttl now st =
     (case live_peer_row st (\<lambda>r. pe_id r = p) of
        None \<Rightarrow> (st, Inl NotFound)
      | Some r \<Rightarrow>
          if held_by_other owner r \<and> lease_unexpired now r then (st, Inr False)
          else
            let st1 = (case pe_lease_owner r of
                  Some w \<Rightarrow> if held_by_other owner r then requeue_proxy_claims p w st else st
                | None \<Rightarrow> st);
                st2 = set_peers (\<lambda>q. pe_id q = p)
                        (lease_row owner (saturating_add now (max ttl 1)) anchor now) st1;
                st3 = set_endpoints (\<lambda>e. er_id e \<in> set (proxies_of st p)) (reopen_row owner now) st2;
                st4 = (if pe_lease_owner r \<noteq> Some owner
                       then audit now None None ''peer_lease'' None None None 0 ''acquired'' st3 else st3)
            in (st4, Inr True))"

definition unlease_row :: "int \<Rightarrow> peer_row \<Rightarrow> peer_row" where
  "unlease_row now r =
     r\<lparr>pe_lease_owner := None, pe_lease_expires := None, pe_lease_anchor := None, pe_updated_at := now\<rparr>"

definition close_row :: "int \<Rightarrow> endpoint_row \<Rightarrow> endpoint_row" where
  "close_row now r = r\<lparr>er_incarnation := None, er_online := False, er_updated_at := now\<rparr>"

definition release_peer_lease :: "int \<Rightarrow> opaque \<Rightarrow> opaque \<Rightarrow> store \<Rightarrow> store \<times> unit result" where
  "release_peer_lease now p owner st =
     (let P = (\<lambda>q. pe_id q = p \<and> pe_lease_owner q = Some owner)
      in if count_where P (st_peers st) = 0 then (st, Inr ())
         else (audit now None None ''peer_lease'' None None None 0 ''released''
                 (set_endpoints (\<lambda>e. er_id e \<in> set (proxies_of st p)) (close_row now)
                   (requeue_proxy_claims p owner (set_peers P (unlease_row now) st))),
               Inr ()))"

section \<open>Proxies\<close>

definition proxy_endpoint_row :: "opaque \<Rightarrow> opaque \<Rightarrow> opaque option \<Rightarrow> int \<Rightarrow> endpoint_row" where
  "proxy_endpoint_row i p owner now =
     \<lparr>er_id = i, er_incarnation = owner, er_token_hash = None, er_alias = None, er_provider = None,
      er_kind = PeerRuntime, er_instance = p, er_instance_name = None, er_address = None,
      er_online = (owner \<noteq> None), er_state = Unknown, er_generation = 1, er_next_sequence = 1,
      er_pending_count = 0, er_pending_bytes = 0, er_policy = Some proxy_policy, er_capabilities = None,
      er_created_at = now, er_updated_at = now\<rparr>"

text \<open>Primary key, \<open>UNIQUE (peer_id, remote_endpoint_id)\<close> and the two foreign keys.\<close>

definition insert_proxy :: "proxy_row \<Rightarrow> store \<Rightarrow> store result" where
  "insert_proxy x st =
     (if find_proxy st (px_endpoint x) \<noteq> None then Inl IoError
      else if list_ex (\<lambda>y. px_peer y = px_peer x \<and> px_remote y = px_remote x) (st_proxies st) then Inl IoError
      else if find_endpoint st (px_endpoint x) = None \<or> find_peer st (px_peer x) = None then Inl IoError
      else Inr (st\<lparr>st_proxies := st_proxies st @ [x]\<rparr>))"

definition shown_display :: "string option \<Rightarrow> string option" where
  "shown_display v =
     (case v of
        Some s \<Rightarrow> if length s \<le> MAX_PROXY_DISPLAY_BYTES \<and> \<not> has_control s then Some s else None
      | None \<Rightarrow> None)"

definition display_row :: "string \<Rightarrow> proxy_row \<Rightarrow> proxy_row" where
  "display_row s x = x\<lparr>px_display := Some s\<rparr>"

definition create_proxy ::
  "int \<Rightarrow> opaque \<Rightarrow> peer_row \<Rightarrow> opaque \<Rightarrow> opaque \<Rightarrow> string option \<Rightarrow> store \<Rightarrow> store \<times> opaque result" where
  "create_proxy now fresh r p remote display st =
     or_return st (endpoint_limit st) (\<lambda>_.
       let owner = (if lease_unexpired now r then pe_lease_owner r else None)
       in or_return st (insert_endpoint (proxy_endpoint_row fresh p owner now) st) (\<lambda>st1.
          or_return st (insert_proxy \<lparr>px_endpoint = fresh, px_peer = p, px_remote = remote,
                                      px_display = display\<rparr> st1) (\<lambda>st2.
            (audit now None (Some fresh) ''proxy'' None None None 0 ''created'' st2, Inr fresh))))"

definition ensure_proxy ::
  "int \<Rightarrow> opaque \<Rightarrow> opaque \<Rightarrow> opaque \<Rightarrow> string option \<Rightarrow> store \<Rightarrow> store \<times> opaque result" where
  "ensure_proxy now fresh p remote display st =
     (case live_peer_row st (\<lambda>r. pe_id r = p) of
        None \<Rightarrow> (st, Inl NotFound)
      | Some r \<Rightarrow>
          (case List.find (\<lambda>x. px_peer x = p \<and> px_remote x = remote) (st_proxies st) of
             Some x \<Rightarrow>
               (case shown_display display of
                  Some s \<Rightarrow> st\<lparr>st_proxies := update_where (\<lambda>y. px_endpoint y = px_endpoint x) (display_row s) (st_proxies st)\<rparr>
                | None \<Rightarrow> st,
                Inr (px_endpoint x))
           | None \<Rightarrow> create_proxy now fresh r p remote (shown_display display) st))"

definition list_proxies :: "store \<Rightarrow> opaque \<Rightarrow> proxy_row list" where
  "list_proxies st p =
     map snd (sort_key (\<lambda>(e, x). (er_created_at e, px_endpoint x))
       (concat (map (\<lambda>x. (case find_endpoint st (px_endpoint x) of Some e \<Rightarrow> [(e, x)] | None \<Rightarrow> []))
         (filter (\<lambda>x. px_peer x = p) (st_proxies st)))))"

section \<open>Forgetting a peer\<close>

definition failed_row :: "string \<Rightarrow> message_row \<Rightarrow> message_row" where
  "failed_row why m = m\<lparr>mr_state := Undeliverable, mr_failure := Some why\<rparr>"

definition abandoned_row :: "string \<Rightarrow> message_row \<Rightarrow> message_row" where
  "abandoned_row why m = m\<lparr>mr_state := Undeliverable, mr_failure := Some why,
     mr_claim_owner := None, mr_claim_expires := None\<rparr>"

definition retire_audit :: "int \<Rightarrow> opaque \<Rightarrow> opaque \<Rightarrow> string \<Rightarrow> store \<Rightarrow> store" where
  "retire_audit now m e old =
     audit now (Some m) (Some e) ''peer_retire'' (Some old) (Some ''undeliverable'') None 0 (error_code_str PeerRetired)"

definition withdraw_one :: "int \<Rightarrow> message_row \<Rightarrow> store \<Rightarrow> store" where
  "withdraw_one now m st =
     retire_audit now (mr_id m) (mr_to m) ''queued''
       (recount (mr_to m) (set_messages (\<lambda>n. mr_id n = mr_id m) (failed_row (error_code_str PeerRetired)) st))"

definition abandon_one :: "int \<Rightarrow> opaque \<Rightarrow> message_row \<Rightarrow> store \<Rightarrow> store" where
  "abandon_one now x m st =
     retire_audit now (mr_id m) x (state_str (mr_state m))
       (set_messages (\<lambda>n. mr_id n = mr_id m) (abandoned_row (error_code_str PeerRetired)) st)"

definition shut_row :: "int \<Rightarrow> endpoint_row \<Rightarrow> endpoint_row" where
  "shut_row now r =
     r\<lparr>er_incarnation := None, er_online := False, er_state := Offline,
       er_generation := er_generation r + 1, er_updated_at := now\<rparr>"

definition unclaimed_from :: "store \<Rightarrow> opaque \<Rightarrow> message_row list" where
  "unclaimed_from st x = filter (\<lambda>m. pr_endpoint (mr_from m) = Some x \<and> mr_state m = Queued) (st_messages st)"

definition retire_proxy :: "int \<Rightarrow> opaque \<Rightarrow> store \<times> nat \<times> nat \<Rightarrow> store \<times> nat \<times> nat" where
  "retire_proxy now x acc =
     (case acc of (st, undeliverable, withdrawn) \<Rightarrow>
        let unclaimed = unclaimed_from st x;
            st1 = fold (withdraw_one now) unclaimed st;
            waiting = pending_to x (st_messages st1);
            st2 = fold (abandon_one now x) waiting st1;
            st3 = set_endpoints (\<lambda>e. er_id e = x) (shut_row now) (recount x st2)
        in (st3, undeliverable + length waiting, withdrawn + length unclaimed))"

definition retired_row :: "int \<Rightarrow> peer_row \<Rightarrow> peer_row" where
  "retired_row now r =
     r\<lparr>pe_retired := True, pe_label := None, pe_trusted := False, pe_lease_owner := None,
       pe_lease_expires := None, pe_lease_anchor := None, pe_updated_at := now\<rparr>"

record retired_peer =
  rp_proxies :: nat
  rp_undeliverable :: nat
  rp_withdrawn :: nat

definition retire_peer :: "int \<Rightarrow> peer_label \<Rightarrow> store \<Rightarrow> store \<times> retired_peer result" where
  "retire_peer now l st =
     (case live_peer_row st (\<lambda>r. pe_label r = Some l) of
        None \<Rightarrow> (st, Inl NotFound)
      | Some r \<Rightarrow>
          let xs = proxies_of st (pe_id r);
              (st1, undeliverable, withdrawn) = fold (retire_proxy now) xs (st, 0, 0);
              st2 = audit now None None ''peer_retire'' None None None 0 ''ok''
                      (set_peers (\<lambda>q. pe_id q = pe_id r) (retired_row now) st1)
          in (st2, Inr \<lparr>rp_proxies = length xs, rp_undeliverable = undeliverable, rp_withdrawn = withdrawn\<rparr>))"

interpretation trust_update: column_update pe_id "trust_row b now"
  by unfold_locales (simp add: trust_row_def)
interpretation lease_update: column_update pe_id "lease_row owner until anchor now"
  by unfold_locales (simp add: lease_row_def)
interpretation unlease_update: column_update pe_id "unlease_row now"
  by unfold_locales (simp add: unlease_row_def)
interpretation retired_update: column_update pe_id "retired_row now"
  by unfold_locales (simp add: retired_row_def)
interpretation close_update: column_update er_id "close_row now"
  by unfold_locales (simp add: close_row_def)
interpretation shut_update: column_update er_id "shut_row now"
  by unfold_locales (simp add: shut_row_def)
interpretation display_update: column_update px_endpoint "display_row s"
  by unfold_locales (simp add: display_row_def)
interpretation failed_update: column_update mr_id "failed_row why"
  by unfold_locales (simp add: failed_row_def)
interpretation abandoned_update: column_update mr_id "abandoned_row why"
  by unfold_locales (simp add: abandoned_row_def)

end
