(* ===== verification/StoreBridge.thy ===== *)
theory StoreBridge
  imports StorePeers
begin

text \<open>
  What a bridge asks of the store: committing what a peer delivered, turning an outbox message into
  a frame, settling it once the peer answered, cancellations, questions only the peer can answer,
  and the attachments already copied.
\<close>

section \<open>Inbound\<close>

definition localize_ref :: "opaque \<Rightarrow> wire_ref \<Rightarrow> reference" where
  "localize_ref p w =
     (case (wr_on w, wr_ref w) of
        (SenderHost, File f) \<Rightarrow> File (f\<lparr>file_host := Some p\<rparr>)
      | (_, r) \<Rightarrow> r)"

definition peer_inbound_budget_left :: "store \<Rightarrow> opaque \<Rightarrow> int \<Rightarrow> bool" where
  "peer_inbound_budget_left st p now \<longleftrightarrow>
     u32_count (count_where (\<lambda>m. mr_kind m \<noteq> Response \<and> mr_created_at m > now - 60000
        \<and> (case Option.bind (pr_endpoint (mr_from m)) (find_proxy st) of
             Some x \<Rightarrow> px_peer x = p | None \<Rightarrow> False)) (st_messages st))
       < PEER_MAX_INBOUND_PER_MINUTE"

definition deliver_draft :: "opaque \<Rightarrow> deliver \<Rightarrow> draft" where
  "deliver_draft p d =
     \<lparr>d_to = dl_to_endpoint d, d_kind = dl_kind d, d_reply_to = None, d_outcome = None,
      d_subject = dl_subject d, d_text = dl_text d, d_refs = map (localize_ref p) (dl_refs d),
      d_key = dl_origin_message d, d_expires_in = dl_remaining_ms d\<rparr>"

text \<open>The part after the proxy exists. A validated response names its request and its outcome.\<close>

definition ingest_for ::
  "(string \<Rightarrow> string) \<Rightarrow> (reference list \<Rightarrow> string) \<Rightarrow> int \<Rightarrow> opaque \<Rightarrow> opaque \<Rightarrow> opaque \<Rightarrow> deliver \<Rightarrow> caller
    \<Rightarrow> store \<Rightarrow> store \<times> message result" where
  "ingest_for sha json now i conv p d c st =
     (let key = dl_origin_message d;
          prior = find_idempotency st (principal_key (cl_principal c)) key
      in if prior \<noteq> None \<and> dl_kind d = Response
         then (st, load_message st (id_message (the prior)))
         else if dl_kind d = Response
         then respond sha json now i conv c (the (dl_reply_to_origin d)) (the (dl_outcome d)) (dl_text d)
                (map (localize_ref p) (dl_refs d)) key st
         else if prior = None \<and> \<not> peer_inbound_budget_left st p now then (st, Inl RateLimited)
         else send_as sha json now i conv c (deliver_draft p d) (Some key) st)"

definition ingest ::
  "(string \<Rightarrow> string) \<Rightarrow> (reference list \<Rightarrow> string) \<Rightarrow> int \<Rightarrow> opaque \<Rightarrow> opaque \<Rightarrow> opaque \<Rightarrow> opaque \<Rightarrow> opaque \<Rightarrow> deliver
    \<Rightarrow> store \<Rightarrow> store \<times> message result" where
  "ingest sha json now fresh_proxy i conv p owner d st =
     or_return st (deliver_validate d) (\<lambda>_.
     or_return st (require_live_lease st now p owner) (\<lambda>_.
       (case ensure_proxy now fresh_proxy p (dl_origin_endpoint d) None st of
          (st1, Inl e) \<Rightarrow> (st1, Inl e)
        | (st1, Inr x) \<Rightarrow>
            or_return st1 (proxy_caller st1 now x owner) (\<lambda>c.
              ingest_for sha json now i conv p d c st1))))"

section \<open>Outbound\<close>

definition outbound_ref :: "opaque \<Rightarrow> reference \<Rightarrow> wire_ref result" where
  "outbound_ref p r =
     (case r of
        File f \<Rightarrow>
          (case file_host f of
             None \<Rightarrow> Inr \<lparr>wr_on = SenderHost, wr_ref = r\<rparr>
           | Some h \<Rightarrow>
               if h = p then Inr \<lparr>wr_on = RecipientHost, wr_ref = File (f\<lparr>file_host := None\<rparr>)\<rparr>
               else Inl InvalidRequest)
      | _ \<Rightarrow> Inr \<lparr>wr_on = SenderHost, wr_ref = r\<rparr>)"

definition outbound_reply :: "store \<Rightarrow> message \<Rightarrow> opaque option result" where
  "outbound_reply st m =
     (if msg_kind m \<noteq> Response then Inr None
      else (case msg_reply_to m of
              None \<Rightarrow> Inl StoreCorrupt
            | Some i \<Rightarrow>
                and_then (load_message st i) (\<lambda>request.
                  (case msg_origin request of None \<Rightarrow> Inl InvalidRequest | Some origin \<Rightarrow> Inr (Some origin)))))"

definition outbound_lifetime :: "message \<Rightarrow> int \<Rightarrow> int option result" where
  "outbound_lifetime m now =
     (case msg_expires_at m of
        None \<Rightarrow> Inr None
      | Some x \<Rightarrow> if x \<le> now then Inl ExpiredError else Inr (Some (min (x - now) MAX_REQUEST_LIFETIME_MS)))"

definition outbound :: "store \<Rightarrow> proxy_row \<Rightarrow> message \<Rightarrow> int \<Rightarrow> deliver result" where
  "outbound st x m now =
     (case pr_endpoint (msg_from m) of
        None \<Rightarrow> Inl InvalidRequest
      | Some origin \<Rightarrow>
          and_then (collect (map (outbound_ref (px_peer x)) (msg_refs m))) (\<lambda>refs.
          and_then (outbound_reply st m) (\<lambda>reply.
          and_then (outbound_lifetime m now) (\<lambda>left.
            let d = \<lparr>dl_origin_message = msg_id m, dl_origin_endpoint = origin, dl_to_endpoint = px_remote x,
                     dl_kind = msg_kind m, dl_reply_to_origin = reply, dl_outcome = msg_outcome m,
                     dl_subject = msg_subject m, dl_text = msg_text m, dl_refs = refs,
                     dl_remaining_ms = left\<rparr>
            in and_then (deliver_validate d) (\<lambda>_. Inr d)))))"

definition settled_row :: "error_code option \<Rightarrow> message_row \<Rightarrow> message_row" where
  "settled_row failure m =
     m\<lparr>mr_state := (if failure \<noteq> None then Undeliverable
                    else if mr_kind m = Request then Delivered else Consumed),
       mr_failure := map_option error_code_str failure, mr_claim_owner := None, mr_claim_expires := None\<rparr>"

definition settle_outbound ::
  "int \<Rightarrow> caller \<Rightarrow> opaque \<Rightarrow> error_code option \<Rightarrow> store \<Rightarrow> store \<times> bool result" where
  "settle_outbound now c i failure st =
     or_return st (agent_identity c) (\<lambda>(x, owner).
     or_return st (require_peer_authority st now c) (\<lambda>_.
       let held = (\<lambda>m. mr_id m = i \<and> mr_to m = x \<and> mr_state m = Claimed \<and> mr_claim_owner m = Some owner);
           changed = count_where held (st_messages st);
           st1 = set_messages held (settled_row failure) st
       in if changed = 0 then (st1, Inr False)
          else let st2 = recount x st1
               in or_return st (load_message st2 i) (\<lambda>m.
                    (audit now (Some i) (Some x) ''forward'' (Some ''claimed'') (Some (state_str (msg_state m)))
                       None 0 (case failure of Some e \<Rightarrow> error_code_str e | None \<Rightarrow> ''accepted'') st2,
                     Inr True))))"

definition forwarded :: "int \<Rightarrow> caller \<Rightarrow> opaque \<Rightarrow> store \<Rightarrow> store \<times> bool result" where
  "forwarded now c i = settle_outbound now c i None"

definition forward_failed :: "int \<Rightarrow> caller \<Rightarrow> opaque \<Rightarrow> error_code \<Rightarrow> store \<Rightarrow> store \<times> bool result" where
  "forward_failed now c i e = settle_outbound now c i (Some e)"

section \<open>Cancellations between hosts\<close>

definition message_by_origin :: "store \<Rightarrow> opaque \<Rightarrow> opaque \<Rightarrow> message option result" where
  "message_by_origin st p origin =
     (case List.find (\<lambda>m. mr_origin m = Some origin
             \<and> (case Option.bind (pr_endpoint (mr_from m)) (find_proxy st) of
                  Some x \<Rightarrow> px_peer x = p | None \<Rightarrow> False)) (st_messages st) of
        None \<Rightarrow> Inr None
      | Some r \<Rightarrow> and_then (load_message st (mr_id r)) (\<lambda>m. Inr (Some m)))"

definition cancellations_to_forward :: "store \<Rightarrow> opaque \<Rightarrow> (opaque \<times> opaque) list" where
  "cancellations_to_forward st p =
     map (\<lambda>m. (mr_id m, mr_to m)) (sort_key mr_created_at
       (filter (\<lambda>m. mr_state m = CancellationRequested \<and> mr_to m \<in> set (proxies_of st p)) (st_messages st)))"

definition unclaimed_state :: "msg_state \<Rightarrow> message_row \<Rightarrow> message_row" where
  "unclaimed_state s m = m\<lparr>mr_state := s, mr_claim_owner := None, mr_claim_expires := None\<rparr>"

definition confirm_remote_cancel ::
  "int \<Rightarrow> caller \<Rightarrow> opaque \<Rightarrow> msg_state \<Rightarrow> store \<Rightarrow> store \<times> msg_state result" where
  "confirm_remote_cancel now c i s st =
     or_return st (agent_identity c) (\<lambda>(x, _).
     or_return st (require_peer_authority st now c) (\<lambda>_.
       let asked = (\<lambda>m. mr_id m = i \<and> mr_to m = x \<and> is_working (mr_state m));
           st1 = (if s = Cancelled \<and> count_where asked (st_messages st) > 0
                  then audit now (Some i) (Some x) ''cancel'' None (Some ''cancelled'') None 0 ''confirmed_by_peer''
                         (recount x (set_messages asked (unclaimed_state Cancelled) st))
                  else st)
       in or_return st (load_message st1 i) (\<lambda>m. (st1, Inr (msg_state m)))))"

section \<open>Questions for a peer\<close>

definition request_resolution :: "int \<Rightarrow> opaque \<Rightarrow> string \<Rightarrow> store \<Rightarrow> store \<times> int result" where
  "request_resolution now p sel st =
     (if sel = [] \<or> length sel > MAX_SELECTOR_BYTES \<or> has_control sel then (st, Inl InvalidRequest)
      else or_return st (peer_by_id st p) (\<lambda>q.
        if \<not> (case peer_lease q of Some l \<Rightarrow> is_live now l | None \<Rightarrow> False) then (st, Inl PeerUnreachable)
        else
          let kept = filter (\<lambda>r. rs_created_at r > now - RESOLUTION_RETENTION_MS) (st_resolutions st);
              waiting = count_where (\<lambda>r. rs_peer r = p \<and> rs_answered_at r = None
                          \<and> rs_created_at r > now - RESOLUTION_TIMEOUT_MS) kept;
              i = st_resolution_seq st + 1
          in if int waiting \<ge> MAX_PENDING_RESOLUTIONS then (st, Inl RateLimited)
             else (st\<lparr>st_resolutions := kept @ [\<lparr>rs_id = i, rs_peer = p, rs_selector = sel, rs_created_at = now,
                      rs_answered_at = None, rs_endpoint = None, rs_display = None, rs_error_code = None,
                      rs_error_message = None, rs_candidates = None\<rparr>], st_resolution_seq := i\<rparr>,
                   Inr i)))"

definition pending_resolutions :: "store \<Rightarrow> int \<Rightarrow> opaque \<Rightarrow> (int \<times> string) list" where
  "pending_resolutions st now p =
     map (\<lambda>r. (rs_id r, rs_selector r)) (sort_key rs_id
       (filter (\<lambda>r. rs_peer r = p \<and> rs_answered_at r = None \<and> rs_created_at r > now - RESOLUTION_TIMEOUT_MS)
         (st_resolutions st)))"

type_synonym resolution = "mesh_error + (opaque \<times> string option)"

definition answered_row :: "int \<Rightarrow> resolution \<Rightarrow> resolution_row \<Rightarrow> resolution_row" where
  "answered_row now a r =
     (case a of
        Inr (e, display) \<Rightarrow>
          r\<lparr>rs_answered_at := Some now, rs_endpoint := Some e, rs_display := display, rs_error_code := None,
            rs_error_message := None, rs_candidates := None\<rparr>
      | Inl err \<Rightarrow>
          r\<lparr>rs_answered_at := Some now, rs_endpoint := None, rs_display := None,
            rs_error_code := Some (me_code err), rs_error_message := Some (me_message err),
            rs_candidates := Some (me_candidates err)\<rparr>)"

definition answer_resolution :: "int \<Rightarrow> opaque \<Rightarrow> int \<Rightarrow> resolution \<Rightarrow> store \<Rightarrow> store \<times> bool" where
  "answer_resolution now p i a st =
     (let P = (\<lambda>r. rs_id r = i \<and> rs_peer r = p \<and> rs_answered_at r = None)
      in (st\<lparr>st_resolutions := update_where P (answered_row now a) (st_resolutions st)\<rparr>,
          count_where P (st_resolutions st) > 0))"

definition with_candidates :: "string list \<Rightarrow> mesh_error \<Rightarrow> mesh_error" where
  "with_candidates cs e = e\<lparr>me_candidates := me_candidates e @ take MAX_AMBIGUOUS_CANDIDATES cs\<rparr>"

definition take_resolution :: "int \<Rightarrow> store \<Rightarrow> store \<times> resolution option result" where
  "take_resolution i st =
     (case lookup_by rs_id i (st_resolutions st) of
        None \<Rightarrow> (st, Inr None)
      | Some r \<Rightarrow>
          if rs_answered_at r = None then (st, Inr None)
          else
            let st1 = st\<lparr>st_resolutions := filter (\<lambda>q. rs_id q \<noteq> i) (st_resolutions st)\<rparr>
            in (case (rs_endpoint r, rs_error_code r) of
                  (Some e, _) \<Rightarrow> (st1, Inr (Some (Inr (e, rs_display r))))
                | (None, Some code) \<Rightarrow>
                    (st1, Inr (Some (Inl (with_candidates (case rs_candidates r of Some cs \<Rightarrow> cs | None \<Rightarrow> [])
                       \<lparr>me_code = code, me_message = or_empty (rs_error_message r), me_candidates = []\<rparr>))))
                | (None, None) \<Rightarrow> (st1, Inl StoreCorrupt)))"

section \<open>Attachments, names and the audit trail\<close>

record recorded_attachment =
  ra_peer :: opaque
  ra_sha256 :: string
  ra_bytes :: nat
  ra_remote_path :: string

definition i64_position :: "nat \<Rightarrow> int" where
  "i64_position n = min (int n) i64_max"

definition recorded_attachment_get :: "store \<Rightarrow> caller \<Rightarrow> string \<Rightarrow> nat \<Rightarrow> recorded_attachment option" where
  "recorded_attachment_get st c key pos =
     map_option (\<lambda>r. \<lparr>ra_peer = at_peer r, ra_sha256 = at_sha256 r, ra_bytes = nat (at_bytes r),
                      ra_remote_path = at_remote_path r\<rparr>)
       (List.find (\<lambda>r. at_sender r = principal_key (cl_principal c) \<and> at_key r = key
          \<and> at_position r = i64_position pos) (st_attachments st))"

text \<open>The foreign key on \<open>peer_id\<close> is checked by the insert; REPLACE deletes the row of the same key.\<close>

definition record_attachment ::
  "int \<Rightarrow> caller \<Rightarrow> string \<Rightarrow> nat \<Rightarrow> opaque \<Rightarrow> recorded_attachment \<Rightarrow> store \<Rightarrow> store \<times> unit result" where
  "record_attachment now c key pos x a st =
     (let kept = filter (\<lambda>r. at_created_at r > now - MAX_REQUEST_LIFETIME_MS) (st_attachments st);
          sender = principal_key (cl_principal c);
          others = filter (\<lambda>r. \<not> (at_sender r = sender \<and> at_key r = key \<and> at_position r = i64_position pos)) kept
      in if int (ra_bytes a) > i64_max then (st, Inl InvalidRequest)
         else if find_peer st (ra_peer a) = None then (st, Inl IoError)
         else (audit now None (Some x) ''attach'' None None None (int (ra_bytes a)) ''copied''
                 (st\<lparr>st_attachments := others @ [\<lparr>at_sender = sender, at_key = key, at_position = i64_position pos,
                    at_peer = ra_peer a, at_sha256 = ra_sha256 a, at_bytes = int (ra_bytes a),
                    at_remote_path = ra_remote_path a, at_created_at = now\<rparr>]\<rparr>),
               Inr ()))"

definition name_of :: "store \<Rightarrow> endpoint \<Rightarrow> string" where
  "name_of st e =
     (if loc_kind (ep_locator e) \<noteq> PeerRuntime then qualified_name e
      else (case Option.bind (ok (proxy_get st (ep_id e)))
                   (\<lambda>x. map_option (\<lambda>p. ''agent://'' @ peer_name p @ ''/'' @ px_remote x) (ok (peer_by_id st (px_peer x)))) of
              Some n \<Rightarrow> n
            | None \<Rightarrow> ''agent://peer/'' @ ep_id e))"

definition audit_for :: "store \<Rightarrow> opaque \<Rightarrow> audit_row list" where
  "audit_for st i = filter (\<lambda>a. au_message a = Some i) (st_audit st)"

interpretation settled_update: column_update mr_id "settled_row failure"
  by unfold_locales (simp add: settled_row_def)
interpretation unclaimed_update: column_update mr_id "unclaimed_state s"
  by unfold_locales (simp add: unclaimed_state_def)
interpretation answered_update: column_update rs_id "answered_row now a"
  by unfold_locales (simp add: answered_row_def split: sum.splits prod.splits)

end
