(* ===== verification/StoreActivation.thy ===== *)
theory StoreActivation
  imports StoreBridge
begin

text \<open>
  Waking recipients (which queued messages could start a turn, and the budgets that bound it) and
  groups with the snapshot a fan-out is counted against.
\<close>

section \<open>Activation\<close>

record activatable =
  ac_message :: message
  ac_endpoint :: opaque
  ac_capabilities :: capabilities
  ac_mode :: delivery_mode
  ac_decision :: decision

text \<open>The join of the query, ordered by \<open>recipient_sequence\<close>.\<close>

definition activation_rows :: "store \<Rightarrow> opaque \<Rightarrow> int \<Rightarrow> int \<Rightarrow> int \<Rightarrow> message_row list" where
  "activation_rows st scope now backoff attempts =
     sort_key mr_sequence (filter (\<lambda>m.
       (case find_endpoint st (mr_to m) of
          Some e \<Rightarrow> er_instance e = scope \<and> er_online e | None \<Rightarrow> False)
       \<and> mr_state m = Queued \<and> unexpired now m \<and> mr_activations m < attempts
       \<and> (case mr_last_activated m of None \<Rightarrow> True | Some t \<Rightarrow> t \<le> now - backoff)) (st_messages st))"

definition activation_is_reply :: "store \<Rightarrow> message \<Rightarrow> opaque \<Rightarrow> bool" where
  "activation_is_reply st m e =
     (case msg_reply_to m of
        None \<Rightarrow> False
      | Some i \<Rightarrow> Option.bind (ok (load_message st i)) (\<lambda>r. pr_endpoint (msg_from r)) = Some e)"

definition activation_decision :: "store \<Rightarrow> opaque \<Rightarrow> message \<Rightarrow> endpoint \<Rightarrow> decision result" where
  "activation_decision st scope m e =
     (let sender = Option.bind (pr_endpoint (msg_from m)) (\<lambda>i. ok (endpoint_get st i));
          wake = evaluate (policy_get st (ep_id e)) Activate
            \<lparr>rq_sender = msg_from m, rq_sender_scope = map_option (\<lambda>s. loc_instance_id (ep_locator s)) sender,
             rq_target_scope = scope, rq_is_reply = activation_is_reply st m (ep_id e),
             rq_sender_address = Option.bind sender (\<lambda>s. loc_address (ep_locator s)),
             rq_target_address = loc_address (ep_locator e),
             rq_peer_trusted = peer_trusted st (msg_from m)\<rparr>
      in and_then (message_decision st m MakeVisible) (\<lambda>seen.
           Inr (if dec_allowed seen then wake else seen)))"

fun activatable_of :: "store \<Rightarrow> opaque \<Rightarrow> message_row list \<Rightarrow> activatable list result" where
  "activatable_of st scope [] = Inr []"
| "activatable_of st scope (r # rs) =
     and_then (endpoint_get st (mr_to r)) (\<lambda>e.
     and_then (load_message st (mr_id r)) (\<lambda>m.
       let caps = capabilities_get st (mr_to r); mode = delivery_mode caps
       in if \<not> activates mode then activatable_of st scope rs
          else and_then (activation_decision st scope m e) (\<lambda>d.
               and_then (activatable_of st scope rs) (\<lambda>rest.
                 Inr (\<lparr>ac_message = m, ac_endpoint = mr_to r, ac_capabilities = caps, ac_mode = mode,
                       ac_decision = d\<rparr> # rest)))))"

definition activatable :: "store \<Rightarrow> opaque \<Rightarrow> int \<Rightarrow> int \<Rightarrow> int \<Rightarrow> activatable list result" where
  "activatable st scope now backoff attempts =
     activatable_of st scope (activation_rows st scope now backoff attempts)"

definition attempted_row :: "int \<Rightarrow> message_row \<Rightarrow> message_row" where
  "attempted_row now m = m\<lparr>mr_activations := mr_activations m + 1, mr_last_activated := Some now\<rparr>"

definition record_activation ::
  "int \<Rightarrow> opaque \<Rightarrow> opaque \<Rightarrow> delivery_mode \<Rightarrow> rule \<Rightarrow> string \<Rightarrow> store \<Rightarrow> store" where
  "record_activation now i e mode r res st =
     audit now (Some i) (Some e) ''activate'' (Some (delivery_mode_str mode)) None (Some (rule_str r)) 0 res
       (set_messages (\<lambda>m. mr_id m = i) (attempted_row now) st)"

definition activation_budget_left :: "store \<Rightarrow> opaque \<Rightarrow> int \<Rightarrow> bool" where
  "activation_budget_left st e now \<longleftrightarrow>
     recent st e ''activate'' ''started'' now < pol_max_auto_turns (policy_get st e)"

definition peer_of_sender :: "store \<Rightarrow> opaque option \<Rightarrow> opaque option" where
  "peer_of_sender st s = map_option px_peer (Option.bind s (find_proxy st))"

definition peer_activation_budget_left :: "store \<Rightarrow> principal \<Rightarrow> int \<Rightarrow> bool" where
  "peer_activation_budget_left st sender now \<longleftrightarrow>
     (if pr_endpoint sender = None \<or> pr_kind sender \<noteq> PeerPrincipal then True
      else u32_count (count_where (\<lambda>a. au_operation a = ''activate'' \<and> au_result a = ''started''
               \<and> au_at a > now - 60000
               \<and> (case Option.bind (au_message a) (find_message st) of
                    None \<Rightarrow> False
                  | Some m \<Rightarrow> peer_of_sender st (pr_endpoint (mr_from m)) \<noteq> None
                      \<and> peer_of_sender st (pr_endpoint (mr_from m)) = peer_of_sender st (pr_endpoint sender)))
             (st_audit st))
           < PEER_MAX_AUTO_TURNS_PER_MINUTE)"

section \<open>Groups\<close>

fun insert_members :: "alias_name \<Rightarrow> opaque list \<Rightarrow> store \<Rightarrow> store result" where
  "insert_members name [] st = Inr st"
| "insert_members name (i # is) st =
     (if find_endpoint st i = None \<or> list_ex (\<lambda>g. gm_name g = name \<and> gm_endpoint g = i) (st_members st)
      then Inl IoError
      else insert_members name is (st\<lparr>st_members := st_members st @ [\<lparr>gm_name = name, gm_endpoint = i\<rparr>]\<rparr>))"

definition set_group :: "int \<Rightarrow> alias_name \<Rightarrow> opaque list \<Rightarrow> store \<Rightarrow> store \<times> unit result" where
  "set_group now name members st =
     (let st1 = (if list_ex (\<lambda>g. gr_name g = name) (st_groups st) then st
                 else st\<lparr>st_groups := st_groups st @ [\<lparr>gr_name = name, gr_created_at = now\<rparr>]\<rparr>);
          st2 = st1\<lparr>st_members := filter (\<lambda>g. gm_name g \<noteq> name) (st_members st1)\<rparr>
      in or_return st (insert_members name members st2) (\<lambda>st3. (st3, Inr ())))"

definition delete_group :: "alias_name \<Rightarrow> store \<Rightarrow> store \<times> bool" where
  "delete_group name st =
     (st\<lparr>st_members := filter (\<lambda>g. gm_name g \<noteq> name) (st_members st),
         st_groups := filter (\<lambda>g. gr_name g \<noteq> name) (st_groups st)\<rparr>,
      count_where (\<lambda>g. gr_name g = name) (st_groups st) > 0)"

definition group_members :: "store \<Rightarrow> alias_name \<Rightarrow> opaque list result" where
  "group_members st name =
     (if count_where (\<lambda>g. gr_name g = name) (st_groups st) = 0 then Inl NotFound
      else Inr (sort (map gm_endpoint (filter (\<lambda>g. gm_name g = name) (st_members st)))))"

definition list_groups :: "store \<Rightarrow> (alias_name \<times> opaque list) list result" where
  "list_groups st =
     collect (map (\<lambda>n. and_then (group_members st n) (\<lambda>ms. Inr (n, ms))) (sort (map gr_name (st_groups st))))"

definition open_group_send ::
  "int \<Rightarrow> opaque \<Rightarrow> alias_name \<Rightarrow> caller \<Rightarrow> opaque list \<Rightarrow> store \<Rightarrow> store \<times> opaque result" where
  "open_group_send now fresh name sender members st =
     (if lookup_by gs_id fresh (st_group_sends st) \<noteq> None then (st, Inl IoError)
      else (st\<lparr>st_group_sends := st_group_sends st @
                [\<lparr>gs_id = fresh, gs_name = name, gs_sender = principal_key (cl_principal sender),
                  gs_members = joined '','' members, gs_created_at = now\<rparr>]\<rparr>,
            Inr fresh))"

definition group_row_of :: "opaque \<Rightarrow> message_row \<Rightarrow> message_row" where
  "group_row_of s m = m\<lparr>mr_group_send := Some s\<rparr>"

definition attach_to_group_send :: "opaque \<Rightarrow> opaque \<Rightarrow> store \<Rightarrow> store" where
  "attach_to_group_send i s st = set_messages (\<lambda>m. mr_id m = i) (group_row_of s) st"

text \<open>\<open>str::split\<close> on one character.\<close>

fun split_on :: "char \<Rightarrow> string \<Rightarrow> string \<Rightarrow> string list" where
  "split_on sep [] acc = [rev acc]"
| "split_on sep (c # cs) acc = (if c = sep then rev acc # split_on sep cs [] else split_on sep cs (c # acc))"

definition group_send_members :: "store \<Rightarrow> opaque \<Rightarrow> opaque list result" where
  "group_send_members st s =
     (case lookup_by gs_id s (st_group_sends st) of
        None \<Rightarrow> Inl NotFound
      | Some r \<Rightarrow> collect (map opaque_parse (filter (\<lambda>v. v \<noteq> []) (split_on (CHR '','') (gs_members r) []))))"

definition group_send_requests :: "store \<Rightarrow> opaque \<Rightarrow> message list result" where
  "group_send_requests st s =
     collect (map (\<lambda>m. load_message st (mr_id m))
       (sort_key mr_created_at (filter (\<lambda>m. mr_group_send m = Some s) (st_messages st))))"

interpretation attempted_update: column_update mr_id "attempted_row now"
  by unfold_locales (simp add: attempted_row_def)
interpretation group_update: column_update mr_id "group_row_of s"
  by unfold_locales (simp add: group_row_of_def)

end
