(* ===== verification/StoreInvariant.thy ===== *)
theory StoreInvariant
  imports StoreActivation
begin

text \<open>
  What every transaction of the store keeps: keys and sequence numbers, the pending counters, the
  mailbox ceilings, and how the rows of the message table may change. The first part proves it for
  the updates the transactions are made of, the second for each operation.
\<close>

section \<open>How a message row may change\<close>

text \<open>
  The columns written when the message is accepted and never again: everything but the state, the
  outcome an interrupt records, the claim, the activation attempts, the group and the failure.
\<close>

definition content :: "message_row \<Rightarrow> message_row" where
  "content m = m\<lparr>mr_state := Queued, mr_outcome := None, mr_claim_owner := None, mr_claim_expires := None,
     mr_activations := 0, mr_last_activated := None, mr_group_send := None, mr_failure := None\<rparr>"

text \<open>The states one transaction or several may lead to.\<close>

fun may_become :: "msg_state \<Rightarrow> msg_state \<Rightarrow> bool" where
  "may_become Queued s = True"
| "may_become Claimed s = True"
| "may_become Delivered s = (s \<in> {Delivered, CancellationRequested, Consumed, Cancelled, Undeliverable})"
| "may_become CancellationRequested s = (s \<in> {CancellationRequested, Consumed, Cancelled, Undeliverable})"
| "may_become Consumed s = (s = Consumed)"
| "may_become Cancelled s = (s = Cancelled)"
| "may_become Expired s = (s = Expired)"
| "may_become Undeliverable s = (s = Undeliverable)"

lemma may_become_refl [simp]: "may_become s s"
  by (cases s) simp_all

lemma may_become_trans: "may_become s t \<Longrightarrow> may_become t u \<Longrightarrow> may_become s u"
  by (cases s; cases t) auto

lemma may_become_pending: "may_become s t \<Longrightarrow> is_pending t \<Longrightarrow> is_pending s"
  by (cases s; cases t) (auto simp: is_pending_def)

definition row_evolves :: "message_row \<Rightarrow> message_row \<Rightarrow> bool" where
  "row_evolves m n \<longleftrightarrow> content n = content m \<and> may_become (mr_state m) (mr_state n)"

lemma content_simps [simp]:
  "mr_id (content m) = mr_id m" "mr_to (content m) = mr_to m" "mr_sequence (content m) = mr_sequence m"
  "mr_bytes (content m) = mr_bytes m" "mr_from (content m) = mr_from m" "mr_kind (content m) = mr_kind m"
  "mr_text (content m) = mr_text m" "mr_reply_to (content m) = mr_reply_to m"
  "mr_expires_at (content m) = mr_expires_at m" "mr_origin (content m) = mr_origin m"
  "mr_refs (content m) = mr_refs m" "mr_subject (content m) = mr_subject m"
  by (simp_all add: content_def)

lemma content_eqD:
  assumes "content n = content m"
  shows "mr_id n = mr_id m" "mr_to n = mr_to m" "mr_sequence n = mr_sequence m" "mr_bytes n = mr_bytes m"
    "mr_from n = mr_from m" "mr_kind n = mr_kind m" "mr_reply_to n = mr_reply_to m"
    "mr_expires_at n = mr_expires_at m" "mr_text n = mr_text m" "mr_subject n = mr_subject m" "mr_refs n = mr_refs m"
  using arg_cong [OF assms, of mr_id] arg_cong [OF assms, of mr_to] arg_cong [OF assms, of mr_sequence]
    arg_cong [OF assms, of mr_bytes] arg_cong [OF assms, of mr_from] arg_cong [OF assms, of mr_kind]
    arg_cong [OF assms, of mr_reply_to] arg_cong [OF assms, of mr_expires_at] arg_cong [OF assms, of mr_text]
    arg_cong [OF assms, of mr_subject] arg_cong [OF assms, of mr_refs]
  by simp_all

lemma row_evolves_refl [simp]: "row_evolves m m"
  by (simp add: row_evolves_def)

lemma row_evolves_trans: "row_evolves a b \<Longrightarrow> row_evolves b c \<Longrightarrow> row_evolves a c"
  by (auto simp: row_evolves_def intro: may_become_trans)

lemma content_updates [simp]:
  "content (release_claim m) = content m" "content (stopped_row m) = content m"
  "content (claimed_row inc until m) = content m" "content (consumed_row m) = content m"
  "content (state_only s m) = content m" "content (failed_row why m) = content m"
  "content (abandoned_row why m) = content m" "content (settled_row failure m) = content m"
  "content (unclaimed_state s m) = content m" "content (attempted_row now m) = content m"
  "content (group_row_of g m) = content m"
  by (simp_all add: content_def release_claim_def stopped_row_def claimed_row_def consumed_row_def
      state_only_def failed_row_def abandoned_row_def settled_row_def unclaimed_state_def
      attempted_row_def group_row_of_def)

lemma state_updates [simp]:
  "mr_state (release_claim m) = Queued" "mr_state (stopped_row m) = Cancelled"
  "mr_state (claimed_row inc until m) = Claimed" "mr_state (consumed_row m) = Consumed"
  "mr_state (state_only s m) = s" "mr_state (failed_row why m) = Undeliverable"
  "mr_state (abandoned_row why m) = Undeliverable" "mr_state (unclaimed_state s m) = s"
  "mr_state (attempted_row now m) = mr_state m" "mr_state (group_row_of g m) = mr_state m"
  "mr_state (settled_row failure m) =
     (if failure \<noteq> None then Undeliverable else if mr_kind m = Request then Delivered else Consumed)"
  by (simp_all add: release_claim_def stopped_row_def claimed_row_def consumed_row_def
      state_only_def failed_row_def abandoned_row_def settled_row_def unclaimed_state_def
      attempted_row_def group_row_of_def)

text \<open>The table after: the same rows in the same order, each evolved, then rows newly queued.\<close>

definition mail_evolves :: "message_row list \<Rightarrow> message_row list \<Rightarrow> bool" where
  "mail_evolves ms ns \<longleftrightarrow>
     (\<exists>old new. ns = old @ new \<and> list_all2 row_evolves ms old)"

lemma mail_evolves_refl [simp]: "mail_evolves ms ms"
  unfolding mail_evolves_def by (rule exI [of _ ms]) (simp add: list_all2_same)

lemma mail_evolves_append: "mail_evolves ms (ms @ new)"
  unfolding mail_evolves_def by (rule exI [of _ ms]) (simp add: list_all2_same)

lemma mail_evolves_trans:
  assumes "mail_evolves as bs" "mail_evolves bs cs"
  shows "mail_evolves as cs"
proof -
  obtain old new where bs: "bs = old @ new" "list_all2 row_evolves as old"
    using assms(1) by (auto simp: mail_evolves_def)
  obtain old' new' where cs: "cs = old' @ new'" "list_all2 row_evolves (old @ new) old'"
    using assms(2) bs(1) by (auto simp: mail_evolves_def)
  obtain u v where uv: "old' = u @ v" "list_all2 row_evolves old u"
    using cs(2) by (auto simp: list_all2_append1)
  have "list_all2 row_evolves as u"
    using list_all2_trans [OF row_evolves_trans bs(2) uv(2)] .
  then show ?thesis unfolding mail_evolves_def cs(1) uv(1) by (intro exI [of _ u] exI [of _ "v @ new'"]) simp
qed

lemma mail_evolves_update:
  assumes "\<And>m. m \<in> set ms \<Longrightarrow> P m \<Longrightarrow> row_evolves m (f m)"
  shows "mail_evolves ms (update_where P f ms)"
proof -
  have "list_all2 row_evolves ms (update_where P f ms)"
    using assms by (induction ms) auto
  then show ?thesis unfolding mail_evolves_def by (intro exI [of _ "update_where P f ms"] exI [of _ "[]"]) simp
qed

lemma mail_evolves_lookup:
  assumes "mail_evolves ms ns" "lookup_by mr_id i ms = Some m"
  shows "\<exists>n. lookup_by mr_id i ns = Some n \<and> row_evolves m n"
proof -
  obtain old new where ns: "ns = old @ new" "list_all2 row_evolves ms old"
    using assms(1) by (auto simp: mail_evolves_def)
  have "\<exists>n. lookup_by mr_id i old = Some n \<and> row_evolves m n"
    using ns(2) assms(2)
    by (induction ms old rule: list_all2_induct)
      (auto simp: row_evolves_def dest: content_eqD split: if_splits)
  then show ?thesis by (auto simp: ns(1) lookup_by_append)
qed

section \<open>Keys and sequence numbers\<close>

definition slots_ok :: "store \<Rightarrow> bool" where
  "slots_ok st \<longleftrightarrow>
     distinct (map er_id (st_endpoints st)) \<and> distinct (map mr_id (st_messages st))
     \<and> mr_to ` set (st_messages st) \<subseteq> er_id ` set (st_endpoints st)
     \<and> distinct (map (\<lambda>m. (mr_to m, mr_sequence m)) (st_messages st))
     \<and> (\<forall>e \<in> set (st_endpoints st). \<forall>m \<in> set (st_messages st).
          mr_to m = er_id e \<longrightarrow> mr_sequence m < er_next_sequence e)"

text \<open>The message half depends on the content of the rows only.\<close>

lemma slots_ok_content:
  assumes "map content ms = map content (st_messages st)" "slots_ok st"
  shows "slots_ok (st\<lparr>st_messages := ms\<rparr>)"
proof -
  have via: "map g ms = map g (st_messages st)" if "\<And>m. g (content m) = g m" for g :: "message_row \<Rightarrow> 'x"
  proof -
    have "map g ms = map g (map content ms)" by (simp add: that)
    also have "\<dots> = map g (map content (st_messages st))" using assms(1) by simp
    finally show ?thesis by (simp add: that)
  qed
  have ids: "map mr_id ms = map mr_id (st_messages st)" by (rule via) simp
  have slots: "map (\<lambda>m. (mr_to m, mr_sequence m)) ms = map (\<lambda>m. (mr_to m, mr_sequence m)) (st_messages st)"
    by (rule via) simp
  have tos: "mr_to ` set ms = mr_to ` set (st_messages st)"
    using arg_cong [OF via [of mr_to], of set] by simp
  have all: "(\<forall>m \<in> set ms. mr_to m = i \<longrightarrow> mr_sequence m < n)
      \<longleftrightarrow> (\<forall>m \<in> set (st_messages st). mr_to m = i \<longrightarrow> mr_sequence m < n)" for i n
  proof -
    have "(\<lambda>m. (mr_to m, mr_sequence m)) ` set ms = (\<lambda>m. (mr_to m, mr_sequence m)) ` set (st_messages st)"
      using arg_cong [OF slots, of set] by simp
    then have "(\<forall>p \<in> (\<lambda>m. (mr_to m, mr_sequence m)) ` set ms. fst p = i \<longrightarrow> snd p < n)
      \<longleftrightarrow> (\<forall>p \<in> (\<lambda>m. (mr_to m, mr_sequence m)) ` set (st_messages st). fst p = i \<longrightarrow> snd p < n)" by simp
    then show ?thesis by simp
  qed
  show ?thesis using assms(2) by (simp add: slots_ok_def ids slots tos all)
qed

lemma map_content_update:
  "(\<And>m. m \<in> set ms \<Longrightarrow> P m \<Longrightarrow> row_evolves m (f m)) \<Longrightarrow> map content (update_where P f ms) = map content ms"
  by (induction ms) (auto simp: row_evolves_def)

text \<open>The endpoint half needs the identifier and the next sequence number kept.\<close>

lemma slots_ok_endpoints:
  assumes "map (\<lambda>e. (er_id e, er_next_sequence e)) es = map (\<lambda>e. (er_id e, er_next_sequence e)) (st_endpoints st)"
    and "slots_ok st"
  shows "slots_ok (st\<lparr>st_endpoints := es\<rparr>)"
proof -
  have ids: "map er_id es = map er_id (st_endpoints st)"
    using arg_cong [OF assms(1), of "map fst"] by (simp add: comp_def)
  have image: "er_id ` set es = er_id ` set (st_endpoints st)"
    using arg_cong [OF ids, of set] by simp
  have pairs: "(\<lambda>e. (er_id e, er_next_sequence e)) ` set es = (\<lambda>e. (er_id e, er_next_sequence e)) ` set (st_endpoints st)"
    using arg_cong [OF assms(1), of set] by simp
  have all: "(\<forall>e \<in> set es. Q (er_id e) (er_next_sequence e)) \<longleftrightarrow> (\<forall>e \<in> set (st_endpoints st). Q (er_id e) (er_next_sequence e))"
    for Q :: "opaque \<Rightarrow> int \<Rightarrow> bool"
  proof -
    have "(\<forall>p \<in> (\<lambda>e. (er_id e, er_next_sequence e)) ` set es. Q (fst p) (snd p))
      \<longleftrightarrow> (\<forall>p \<in> (\<lambda>e. (er_id e, er_next_sequence e)) ` set (st_endpoints st). Q (fst p) (snd p))"
      by (simp only: pairs)
    then show ?thesis by simp
  qed
  show ?thesis
    using assms(2) all [of "\<lambda>i n. \<forall>m \<in> set (st_messages st). mr_to m = i \<longrightarrow> mr_sequence m < n"]
    by (simp add: slots_ok_def ids image)
qed

section \<open>Counters and ceilings\<close>

text \<open>The stored counters agree with the table, but possibly not for the endpoints in \<open>E\<close>.\<close>

definition counters_ok :: "opaque set \<Rightarrow> store \<Rightarrow> bool" where
  "counters_ok E st \<longleftrightarrow>
     (\<forall>e \<in> set (st_endpoints st). er_id e \<notin> E \<longrightarrow>
        er_pending_count e = pending_count_of (er_id e) (st_messages st)
        \<and> er_pending_bytes e = pending_bytes_of (er_id e) (st_messages st))"

definition caps_ok :: "store \<Rightarrow> bool" where
  "caps_ok st \<longleftrightarrow>
     (\<forall>m \<in> set (st_messages st). 0 \<le> mr_bytes m)
     \<and> (\<forall>i. pending_count_of i (st_messages st) \<le> MAX_PENDING_COUNT + RESERVED_COUNT
          \<and> pending_bytes_of i (st_messages st) \<le> MAX_PENDING_BYTES + RESERVED_BYTES)"

lemma pending_to_simps [simp]:
  "pending_to i [] = []"
  "pending_to i (m # ms) = (if mr_to m = i \<and> is_pending (mr_state m) then m # pending_to i ms else pending_to i ms)"
  "pending_to i (ms @ ns) = pending_to i ms @ pending_to i ns"
  by (simp_all add: pending_to_def)

lemma pending_counts_simps [simp]:
  "pending_count_of i [] = 0" "pending_bytes_of i [] = 0"
  "pending_count_of i (m # ms) = (if mr_to m = i \<and> is_pending (mr_state m) then 1 else 0) + pending_count_of i ms"
  "pending_bytes_of i (m # ms) = (if mr_to m = i \<and> is_pending (mr_state m) then mr_bytes m else 0) + pending_bytes_of i ms"
  "pending_count_of i (ms @ ns) = pending_count_of i ms + pending_count_of i ns"
  "pending_bytes_of i (ms @ ns) = pending_bytes_of i ms + pending_bytes_of i ns"
  by (simp_all add: pending_count_of_def pending_bytes_of_def)

lemma pending_kept:
  assumes "\<And>m. m \<in> set ms \<Longrightarrow> P m \<Longrightarrow> row_evolves m (f m)"
    and "\<And>m. m \<in> set ms \<Longrightarrow> P m \<Longrightarrow> mr_to m = i \<Longrightarrow> is_pending (mr_state m) \<Longrightarrow> is_pending (mr_state (f m))"
  shows "pending_count_of i (update_where P f ms) = pending_count_of i ms
    \<and> pending_bytes_of i (update_where P f ms) = pending_bytes_of i ms"
  using assms
proof (induction ms)
  case (Cons m ms)
  have ih: "pending_count_of i (update_where P f ms) = pending_count_of i ms
    \<and> pending_bytes_of i (update_where P f ms) = pending_bytes_of i ms"
    using Cons.prems by (intro Cons.IH) auto
  show ?case
  proof (cases "P m")
    case True
    have ev: "content (f m) = content m" "may_become (mr_state m) (mr_state (f m))"
      using Cons.prems(1) [of m] True by (simp_all add: row_evolves_def)
    note kept = content_eqD(2,4) [OF ev(1)]
    have "mr_to m = i \<Longrightarrow> is_pending (mr_state (f m)) \<longleftrightarrow> is_pending (mr_state m)"
      using Cons.prems(2) [of m] may_become_pending [OF ev(2)] True by auto
    then show ?thesis using ih True kept by (cases "mr_to m = i") simp_all
  qed (use ih in simp)
qed simp

lemma pending_shrinks:
  assumes "\<And>m. m \<in> set ms \<Longrightarrow> 0 \<le> mr_bytes m" "mail_evolves ms (ns :: message_row list)" "length ns = length ms"
  shows "pending_count_of i ns \<le> pending_count_of i ms \<and> pending_bytes_of i ns \<le> pending_bytes_of i ms"
proof -
  obtain old new where "ns = old @ new" "list_all2 row_evolves ms old"
    using assms(2) by (auto simp: mail_evolves_def)
  moreover from this have "new = []" using assms(3) by (auto dest: list_all2_lengthD)
  ultimately have "list_all2 row_evolves ms ns" by simp
  then show ?thesis using assms(1)
  proof (induction ms ns rule: list_all2_induct)
    case (Cons m ms n ns)
    have "pending_count_of i ns \<le> pending_count_of i ms \<and> pending_bytes_of i ns \<le> pending_bytes_of i ms"
      using Cons.prems by (intro Cons.IH) simp
    moreover have "mr_to n = mr_to m" "mr_bytes n = mr_bytes m"
      using Cons.hyps(1) by (auto simp: row_evolves_def dest: content_eqD(2,4))
    moreover have "is_pending (mr_state n) \<Longrightarrow> is_pending (mr_state m)"
      using Cons.hyps(1) may_become_pending by (auto simp: row_evolves_def)
    moreover have "0 \<le> mr_bytes m" using Cons.prems by simp
    ultimately show ?case by auto
  qed simp
qed

section \<open>The updates the transactions are made of\<close>

definition good :: "opaque set \<Rightarrow> store \<Rightarrow> bool" where
  "good E st \<longleftrightarrow> slots_ok st \<and> counters_ok E st \<and> caps_ok st"

lemma goodD: "good E st \<Longrightarrow> slots_ok st" "good E st \<Longrightarrow> counters_ok E st" "good E st \<Longrightarrow> caps_ok st"
  by (simp_all add: good_def)

lemma good_mono: "good E st \<Longrightarrow> E \<subseteq> E' \<Longrightarrow> good E' st"
  by (auto simp: good_def counters_ok_def)

text \<open>Nothing but the two tables matters.\<close>

lemma good_cong:
  "st_endpoints st' = st_endpoints st \<Longrightarrow> st_messages st' = st_messages st \<Longrightarrow> good E st' = good E st"
  by (simp add: good_def slots_ok_def counters_ok_def caps_ok_def)

lemma table_simps [simp]:
  "st_messages (audit at m e o' old new r b res st) = st_messages st"
  "st_endpoints (audit at m e o' old new r b res st) = st_endpoints st"
  "st_messages (set_endpoints P f st) = st_messages st"
  "st_endpoints (set_messages Q g st) = st_endpoints st"
  "st_endpoints (set_endpoints P f st) = update_where P f (st_endpoints st)"
  "st_messages (set_messages Q g st) = update_where Q g (st_messages st)"
  "st_messages (recount i st) = st_messages st"
  "st_messages (set_peers R h st) = st_messages st" "st_endpoints (set_peers R h st) = st_endpoints st"
  "st_messages (remember_key s d dg i n st) = st_messages st" "st_endpoints (remember_key s d dg i n st) = st_endpoints st"
  "st_proxies (set_peers R h st) = st_proxies st" "st_proxies (set_endpoints P f st) = st_proxies st"
  "st_proxies (set_messages Q g st) = st_proxies st" "st_proxies (audit at m e o' old new r b res st) = st_proxies st"
  "st_proxies (recount i st) = st_proxies st" "st_peers (recount i st) = st_peers st"
  "st_peers (set_messages Q g st) = st_peers st" "st_peers (set_endpoints P f st) = st_peers st"
  "st_peers (audit at m e o' old new r b res st) = st_peers st"
  "st_peers (set_peers R h st) = update_where R h (st_peers st)"
  by (simp_all add: audit_def set_endpoints_def set_messages_def recount_def set_peers_def remember_key_def)

lemma good_audit [simp]: "good E (audit at m e o' old new r b res st) = good E st"
  by (rule good_cong) simp_all

lemma good_set_peers [simp]: "good E (set_peers R h st) = good E st"
  by (rule good_cong) simp_all

lemma good_remember_key [simp]: "good E (remember_key s d dg i n st) = good E st"
  by (rule good_cong) simp_all

lemma set_messages_good:
  assumes "good E st"
    and evolves: "\<And>m. m \<in> set (st_messages st) \<Longrightarrow> P m \<Longrightarrow> row_evolves m (f m)"
    and lag: "\<And>m. m \<in> set (st_messages st) \<Longrightarrow> P m \<Longrightarrow> is_pending (mr_state m) \<Longrightarrow> mr_to m \<notin> E' \<Longrightarrow> is_pending (mr_state (f m))"
    and "E \<subseteq> E'"
  shows "good E' (set_messages P f st)"
  unfolding good_def
proof (intro conjI)
  let ?ms = "update_where P f (st_messages st)"
  show "slots_ok (set_messages P f st)"
    unfolding set_messages_def using goodD(1) [OF assms(1)] map_content_update [OF evolves]
    by (intro slots_ok_content) auto
  have kept: "i \<notin> E' \<Longrightarrow> pending_count_of i ?ms = pending_count_of i (st_messages st)
      \<and> pending_bytes_of i ?ms = pending_bytes_of i (st_messages st)" for i
    using lag by (intro pending_kept evolves) auto
  show "counters_ok E' (set_messages P f st)"
    using goodD(2) [OF assms(1)] kept assms(4) by (auto simp: counters_ok_def)
  have bytes: "0 \<le> mr_bytes m" if "m \<in> set (st_messages st)" for m
    using goodD(3) [OF assms(1)] that by (simp add: caps_ok_def)
  have "pending_count_of i ?ms \<le> pending_count_of i (st_messages st)
      \<and> pending_bytes_of i ?ms \<le> pending_bytes_of i (st_messages st)" for i
    by (intro pending_shrinks bytes mail_evolves_update evolves) simp_all
  moreover have "0 \<le> mr_bytes m" if m: "m \<in> set ?ms" for m
  proof -
    obtain x where x: "x \<in> set (st_messages st)" "m = (if P x then f x else x)"
      using m unfolding set_update_where image_iff by blast
    then have "row_evolves x m" using evolves by auto
    then have "mr_bytes m = mr_bytes x" by (auto simp: row_evolves_def dest: content_eqD(4))
    then show ?thesis using bytes x(1) by simp
  qed
  ultimately show "caps_ok (set_messages P f st)"
    using goodD(3) [OF assms(1)] unfolding caps_ok_def by (simp only: table_simps) (meson order_trans)
qed

lemma set_endpoints_good:
  assumes "good E st" "\<And>e. er_id (f e) = er_id e" "\<And>e. er_next_sequence (f e) = er_next_sequence e"
    and "\<And>e. er_pending_count (f e) = er_pending_count e" "\<And>e. er_pending_bytes (f e) = er_pending_bytes e"
  shows "good E (set_endpoints P f st)"
  unfolding good_def
proof (intro conjI)
  show "slots_ok (set_endpoints P f st)"
    unfolding set_endpoints_def using goodD(1) [OF assms(1)] assms(2,3)
    by (intro slots_ok_endpoints) (auto simp: update_where_def)
  show "counters_ok E (set_endpoints P f st)"
    using goodD(2) [OF assms(1)] assms(2,4,5) by (auto simp: counters_ok_def set_update_where)
  show "caps_ok (set_endpoints P f st)"
    using goodD(3) [OF assms(1)] by (simp add: caps_ok_def)
qed

lemma recount_good:
  assumes "good E st" "E \<subseteq> insert i E'"
  shows "good E' (recount i st)"
  unfolding good_def
proof (intro conjI)
  show "slots_ok (recount i st)"
    unfolding recount_def set_endpoints_def using goodD(1) [OF assms(1)]
    by (intro slots_ok_endpoints) (auto simp: update_where_def set_counts_def)
  show "counters_ok E' (recount i st)"
    using goodD(2) [OF assms(1)] assms(2)
    by (auto simp: counters_ok_def recount_def set_update_where set_counts_def)
  show "caps_ok (recount i st)"
    using goodD(3) [OF assms(1)] by (simp add: caps_ok_def)
qed

lemma insert_endpoint_good:
  assumes "good E st" "insert_endpoint r st = Inr st'" "er_pending_count r = 0" "er_pending_bytes r = 0"
  shows "good E st'"
proof -
  have st': "st' = st\<lparr>st_endpoints := st_endpoints st @ [r]\<rparr>" and new: "er_id r \<notin> er_id ` set (st_endpoints st)"
    using assms(2) by (auto simp: insert_endpoint_def find_endpoint_def lookup_by_None split: if_splits)
  have none: "mr_to m \<noteq> er_id r" if "m \<in> set (st_messages st)" for m
  proof -
    have "mr_to m \<in> er_id ` set (st_endpoints st)"
      using goodD(1) [OF assms(1)] that unfolding slots_ok_def by blast
    with new show ?thesis by metis
  qed
  then have "pending_to (er_id r) (st_messages st) = []"
    by (auto simp: pending_to_def filter_empty_conv)
  then have "pending_count_of (er_id r) (st_messages st) = 0" "pending_bytes_of (er_id r) (st_messages st) = 0"
    by (simp_all add: pending_count_of_def pending_bytes_of_def)
  then show ?thesis
    using assms(1,3,4) new none by (auto simp: st' good_def slots_ok_def counters_ok_def caps_ok_def)
qed

end
