(* ===== verification/StoreSafety.thy ===== *)
theory StoreSafety
  imports StoreInvariant
begin

text \<open>
  Every transaction keeps the store's invariants and only lets its mail evolve.
\<close>

section \<open>Endpoints\<close>

lemma row_update_simps [simp]:
  "er_id (rebind_row inc hash b now e) = er_id e" "er_next_sequence (rebind_row inc hash b now e) = er_next_sequence e"
  "er_pending_count (rebind_row inc hash b now e) = er_pending_count e"
  "er_pending_bytes (rebind_row inc hash b now e) = er_pending_bytes e"
  "er_id (offline_row now e) = er_id e" "er_next_sequence (offline_row now e) = er_next_sequence e"
  "er_pending_count (offline_row now e) = er_pending_count e" "er_pending_bytes (offline_row now e) = er_pending_bytes e"
  "er_id (reopen_row inc now e) = er_id e" "er_next_sequence (reopen_row inc now e) = er_next_sequence e"
  "er_pending_count (reopen_row inc now e) = er_pending_count e" "er_pending_bytes (reopen_row inc now e) = er_pending_bytes e"
  "er_id (state_row s now e) = er_id e" "er_next_sequence (state_row s now e) = er_next_sequence e"
  "er_pending_count (state_row s now e) = er_pending_count e" "er_pending_bytes (state_row s now e) = er_pending_bytes e"
  "er_id (capabilities_row c now e) = er_id e" "er_next_sequence (capabilities_row c now e) = er_next_sequence e"
  "er_pending_count (capabilities_row c now e) = er_pending_count e" "er_pending_bytes (capabilities_row c now e) = er_pending_bytes e"
  "er_id (address_row a now e) = er_id e" "er_next_sequence (address_row a now e) = er_next_sequence e"
  "er_pending_count (address_row a now e) = er_pending_count e" "er_pending_bytes (address_row a now e) = er_pending_bytes e"
  "er_id (policy_row p now e) = er_id e" "er_next_sequence (policy_row p now e) = er_next_sequence e"
  "er_pending_count (policy_row p now e) = er_pending_count e" "er_pending_bytes (policy_row p now e) = er_pending_bytes e"
  "er_id (close_row now e) = er_id e" "er_next_sequence (close_row now e) = er_next_sequence e"
  "er_pending_count (close_row now e) = er_pending_count e" "er_pending_bytes (close_row now e) = er_pending_bytes e"
  "er_id (shut_row now e) = er_id e" "er_next_sequence (shut_row now e) = er_next_sequence e"
  "er_pending_count (shut_row now e) = er_pending_count e" "er_pending_bytes (shut_row now e) = er_pending_bytes e"
  by (simp_all add: rebind_row_def offline_row_def reopen_row_def state_row_def capabilities_row_def
      address_row_def policy_row_def close_row_def shut_row_def)

lemma insert_endpoint_messages: "insert_endpoint r st = Inr st' \<Longrightarrow> st_messages st' = st_messages st"
  by (auto simp: insert_endpoint_def split: if_splits)

lemma bind_good:
  assumes "good {} st"
  shows "good {} (fst (endpoint_bind sha now tb inc fresh b st))
    \<and> st_messages (fst (endpoint_bind sha now tb inc fresh b st)) = st_messages st"
proof -
  have new: "insert_endpoint (bind_row fresh inc h b now) st = Inr st' \<Longrightarrow> good {} st' \<and> st_messages st' = st_messages st"
    for h st'
    using insert_endpoint_good [OF assms] insert_endpoint_messages by (auto simp: bind_row_def)
  show ?thesis
    using assms new
    by (auto simp: endpoint_bind_def Let_def or_return_def set_endpoints_good
        split: option.splits sum.splits)
qed

lemma unbind_good:
  assumes "good {} st"
  shows "good {} (fst (endpoint_unbind now e inc st))
    \<and> mail_evolves (st_messages st) (st_messages (fst (endpoint_unbind now e inc st)))"
proof (intro conjI)
  show "good {} (fst (endpoint_unbind now e inc st))"
    by (auto simp: endpoint_unbind_def assms row_evolves_def is_pending_def
        intro!: set_messages_good set_endpoints_good)
  show "mail_evolves (st_messages st) (st_messages (fst (endpoint_unbind now e inc st)))"
    by (auto simp: endpoint_unbind_def row_evolves_def intro!: mail_evolves_update)
qed

lemma ensure_local_user_good:
  assumes "good {} st"
  shows "good {} (fst (ensure_local_user now fresh st))
    \<and> st_messages (fst (ensure_local_user now fresh st)) = st_messages st"
proof -
  have new: "insert_endpoint (local_row fresh now) st = Inr st' \<Longrightarrow> good {} st' \<and> st_messages st' = st_messages st" for st'
    using insert_endpoint_good [OF assms] insert_endpoint_messages by (auto simp: local_row_def)
  show ?thesis
    using assms new
    by (auto simp: ensure_local_user_def or_return_def set_endpoints_good split: option.splits sum.splits)
qed

lemma set_state_good:
  "good {} st \<Longrightarrow> good {} (fst (set_state now e s st)) \<and> st_messages (fst (set_state now e s st)) = st_messages st"
  by (auto simp: set_state_def Let_def set_endpoints_good split: option.splits)

lemma change_endpoint_good:
  assumes "good {} st" "\<And>e. er_id (f e) = er_id e" "\<And>e. er_next_sequence (f e) = er_next_sequence e"
    "\<And>e. er_pending_count (f e) = er_pending_count e" "\<And>e. er_pending_bytes (f e) = er_pending_bytes e"
  shows "good {} (fst (change_endpoint i f st)) \<and> st_messages (fst (change_endpoint i f st)) = st_messages st"
  using assms by (simp add: change_endpoint_def set_endpoints_good)

section \<open>Sending\<close>

lemma insert_message_Inr:
  "insert_message r st = Inr st' \<longleftrightarrow>
     mr_id r \<notin> mr_id ` set (st_messages st)
     \<and> (mr_to r, mr_sequence r) \<notin> (\<lambda>m. (mr_to m, mr_sequence m)) ` set (st_messages st)
     \<and> st' = st\<lparr>st_messages := st_messages st @ [r]\<rparr>"
  by (auto simp: insert_message_def find_message_def lookup_by_None list_ex_iff image_iff; metis)

lemma insert_charge_good:
  assumes "good {} st" "insert_message r st = Inr st1" "find_endpoint st i = Some t"
    and row: "mr_to r = i" "mr_sequence r = er_next_sequence t" "mr_state r = Queued" "0 \<le> mr_bytes r"
    and room: "\<not> mailbox_full t k (mr_bytes r)"
  shows "good {} (set_endpoints (\<lambda>e. er_id e = i) (charge_row (mr_bytes r)) st1)"
proof -
  have st1: "st1 = st\<lparr>st_messages := st_messages st @ [r]\<rparr>" and new: "mr_id r \<notin> mr_id ` set (st_messages st)"
    and fresh: "(mr_to r, mr_sequence r) \<notin> (\<lambda>m. (mr_to m, mr_sequence m)) ` set (st_messages st)"
    using assms(2) by (simp_all add: insert_message_Inr)
  have t: "t \<in> set (st_endpoints st)" "er_id t = i"
    using assms(3) by (auto simp: find_endpoint_def dest: lookup_by_Some)
  have counts: "er_pending_count t = pending_count_of i (st_messages st)"
    "er_pending_bytes t = pending_bytes_of i (st_messages st)"
    using goodD(2) [OF assms(1)] t by (auto simp: counters_ok_def)
  have slots: "slots_ok st" and caps: "caps_ok st" and ctr: "counters_ok {} st"
    using goodD [OF assms(1)] by simp_all
  have unique: "e = t" if "e \<in> set (st_endpoints st)" "er_id e = i" for e
    using slots t that by (auto simp: slots_ok_def distinct_map inj_on_def)
  let ?st = "set_endpoints (\<lambda>e. er_id e = i) (charge_row (mr_bytes r)) st1"
  have es: "st_endpoints ?st = update_where (\<lambda>e. er_id e = i) (charge_row (mr_bytes r)) (st_endpoints st)"
    and ms: "st_messages ?st = st_messages st @ [r]"
    by (simp_all add: st1)
  have charged: "er_id (charge_row b e) = er_id e" "er_next_sequence (charge_row b e) = er_next_sequence e + 1"
    "er_pending_count (charge_row b e) = er_pending_count e + 1" "er_pending_bytes (charge_row b e) = er_pending_bytes e + b" for b e
    by (simp_all add: charge_row_def)
  have ids: "map er_id (st_endpoints ?st) = map er_id (st_endpoints st)"
    unfolding es by (rule map_update_where) (rule charged)
  have pend: "is_pending (mr_state r)" using row(3) by (simp add: is_pending_def)
  have below: "mr_sequence m < er_next_sequence e'"
    if e': "e' \<in> set (st_endpoints ?st)" and m: "m \<in> set (st_messages st @ [r])" and to: "mr_to m = er_id e'" for e' m
  proof -
    obtain e where e: "e \<in> set (st_endpoints st)" "e' = (if er_id e = i then charge_row (mr_bytes r) e else e)"
      using e' unfolding es set_update_where image_iff by blast
    have old: "mr_sequence m < er_next_sequence e" if "m \<in> set (st_messages st)" "mr_to m = er_id e"
      using slots e(1) that by (simp add: slots_ok_def)
    show ?thesis
    proof (cases "er_id e = i")
      case True
      then have "e = t" using e(1) unique by simp
      then show ?thesis using e(2) True m to old row(2) by (auto simp: charged)
    next
      case False
      then show ?thesis using e(2) m to old row(1) by auto
    qed
  qed
  have "slots_ok ?st"
    unfolding slots_ok_def ids ms
  proof (intro conjI ballI impI)
    show "distinct (map er_id (st_endpoints st))" "distinct (map mr_id (st_messages st @ [r]))"
      "distinct (map (\<lambda>m. (mr_to m, mr_sequence m)) (st_messages st @ [r]))"
      using slots new fresh by (simp_all add: slots_ok_def)
    show "mr_to ` set (st_messages st @ [r]) \<subseteq> er_id ` set (st_endpoints ?st)"
      using slots t row(1) arg_cong [OF ids, of set] by (auto simp: slots_ok_def)
  qed (rule below)
  moreover have "counters_ok {} ?st"
    unfolding counters_ok_def
  proof (intro ballI impI)
    fix e' assume "e' \<in> set (st_endpoints ?st)"
    then obtain e where e: "e \<in> set (st_endpoints st)" "e' = (if er_id e = i then charge_row (mr_bytes r) e else e)"
      unfolding es set_update_where image_iff by blast
    have "er_pending_count e = pending_count_of (er_id e) (st_messages st)
      \<and> er_pending_bytes e = pending_bytes_of (er_id e) (st_messages st)"
      using ctr e(1) by (simp add: counters_ok_def)
    then show "er_pending_count e' = pending_count_of (er_id e') (st_messages ?st)
      \<and> er_pending_bytes e' = pending_bytes_of (er_id e') (st_messages ?st)"
      unfolding ms using e(2) row(1) pend by (cases "er_id e = i") (auto simp: charged)
  qed
  moreover have "caps_ok ?st"
  proof -
    have "er_pending_count t + 1 \<le> MAX_PENDING_COUNT + RESERVED_COUNT"
      "er_pending_bytes t + mr_bytes r \<le> MAX_PENDING_BYTES + RESERVED_BYTES"
      using room by (auto simp: mailbox_full_def count_cap_def byte_cap_def RESERVED_COUNT_def RESERVED_BYTES_def
          split: if_splits)
    then show ?thesis
      using caps counts row(1,4) pend unfolding caps_ok_def ms by auto
  qed
  ultimately show ?thesis by (simp add: good_def)
qed

lemma send_target_find: "send_target st c i = Inr t \<Longrightarrow> find_endpoint st i = Some t"
  by (auto simp: send_target_def split: option.splits if_splits)

lemma new_row_simps [simp]:
  "mr_id (new_row st c d origin t bytes now i conv) = i" "mr_to (new_row st c d origin t bytes now i conv) = d_to d"
  "mr_sequence (new_row st c d origin t bytes now i conv) = er_next_sequence t"
  "mr_state (new_row st c d origin t bytes now i conv) = Queued"
  "mr_bytes (new_row st c d origin t bytes now i conv) = bytes"
  "mr_from (new_row st c d origin t bytes now i conv) = cl_principal c"
  "mr_kind (new_row st c d origin t bytes now i conv) = d_kind d"
  "mr_text (new_row st c d origin t bytes now i conv) = d_text d"
  "mr_reply_to (new_row st c d origin t bytes now i conv) = d_reply_to d"
  by (simp_all add: new_row_def)

definition accepted_store :: "int \<Rightarrow> string \<Rightarrow> string \<Rightarrow> rule \<Rightarrow> draft \<Rightarrow> message_row \<Rightarrow> store \<Rightarrow> store" where
  "accepted_store now sender dg r d row st1 =
     audit now (Some (mr_id row)) (Some (d_to d)) ''send'' None (Some ''queued'') (Some (rule_str r)) (mr_bytes row)
       ''accepted'' (remember_key sender d dg (mr_id row) now
         (set_endpoints (\<lambda>e. er_id e = d_to d) (charge_row (mr_bytes row)) st1))"

lemma send_insert_cases:
  assumes "send_insert now sender dg r d row st = (st', res)"
  shows "(st' = st \<and> (\<exists>e. res = Inl e))
    \<or> (\<exists>st1 m. insert_message row st = Inr st1 \<and> st' = accepted_store now sender dg r d row st1
         \<and> load_message st' (mr_id row) = Inr m \<and> res = Inr m)"
proof (cases "insert_message row st")
  case (Inl e)
  then show ?thesis using assms by (auto simp: send_insert_def)
next
  case (Inr st1)
  have "send_insert now sender dg r d row st =
      (case load_message (accepted_store now sender dg r d row st1) (mr_id row) of
         Inl e \<Rightarrow> (st, Inl e) | Inr m \<Rightarrow> (accepted_store now sender dg r d row st1, Inr m))"
    unfolding send_insert_def Inr or_return_simps Let_def accepted_store_def by (rule refl)
  then show ?thesis
    using assms Inr
    by (cases "load_message (accepted_store now sender dg r d row st1) (mr_id row)") auto
qed

text \<open>The possible ends of the transaction: unchanged but for the audit trail, or accepted.\<close>

lemma send_tx_cases:
  assumes "send_tx sha json now i conv c d origin st = (st', res)"
  shows "(st_messages st' = st_messages st \<and> st_endpoints st' = st_endpoints st \<and> st_idempotency st' = st_idempotency st)
    \<or> (\<exists>t is_reply st1. find_idempotency st (principal_key (cl_principal c)) (d_key d) = None
         \<and> send_target st c (d_to d) = Inr t \<and> send_is_reply st c d = Inr is_reply
         \<and> dec_allowed (send_decision st c t (d_to d) is_reply) \<and> \<not> rate_exceeded st t d now
         \<and> \<not> mailbox_full t (d_kind d) (charged_bytes json d)
         \<and> insert_message (new_row st c d origin t (charged_bytes json d) now i conv) st = Inr st1
         \<and> st' = accepted_store now (principal_key (cl_principal c)) (draft_digest sha json d)
             (dec_rule (send_decision st c t (d_to d) is_reply)) d
             (new_row st c d origin t (charged_bytes json d) now i conv) st1
         \<and> load_message st' i = res)"
proof (cases "find_idempotency st (principal_key (cl_principal c)) (d_key d)")
  case (Some r)
  then show ?thesis
    using assms by (auto simp: send_tx_def send_replay_def audit_def split: if_splits)
next
  case None
  show ?thesis
  proof (cases "send_target st c (d_to d)")
    case (Inr t)
    show ?thesis
    proof (cases "send_is_reply st c d")
      case reply: (Inr is_reply)
      show ?thesis
        using assms None Inr reply
        by (auto simp: send_tx_def Let_def send_refused_def audit_def split: if_splits dest!: send_insert_cases)
    qed (use assms None Inr in \<open>simp add: send_tx_def\<close>)
  qed (use assms None in \<open>simp add: send_tx_def\<close>)
qed

lemma send_tx_good:
  assumes "good {} st"
  shows "good {} (fst (send_tx sha json now i conv c d origin st))
    \<and> mail_evolves (st_messages st) (st_messages (fst (send_tx sha json now i conv c d origin st)))"
proof -
  obtain st' res where eq: "send_tx sha json now i conv c d origin st = (st', res)"
    by (cases "send_tx sha json now i conv c d origin st")
  from send_tx_cases [OF eq] have "good {} st' \<and> mail_evolves (st_messages st) (st_messages st')"
  proof (elim disjE exE conjE)
    assume "st_messages st' = st_messages st" "st_endpoints st' = st_endpoints st"
    then show ?thesis using good_cong [of st' st] assms by simp
  next
    fix t is_reply st1
    assume t: "send_target st c (d_to d) = Inr t"
      and ins: "insert_message (new_row st c d origin t (charged_bytes json d) now i conv) st = Inr st1"
      and room: "\<not> mailbox_full t (d_kind d) (charged_bytes json d)"
      and st': "st' = accepted_store now (principal_key (cl_principal c)) (draft_digest sha json d)
             (dec_rule (send_decision st c t (d_to d) is_reply)) d
             (new_row st c d origin t (charged_bytes json d) now i conv) st1"
    have "good {} st'"
      using insert_charge_good [OF assms ins send_target_find [OF t]] room by (simp add: st' accepted_store_def)
    moreover have "st_messages st' = st_messages st @ [new_row st c d origin t (charged_bytes json d) now i conv]"
      using ins by (simp add: st' accepted_store_def insert_message_Inr)
    ultimately show ?thesis by (simp add: mail_evolves_append)
  qed
  then show ?thesis by (simp add: eq)
qed

lemma send_as_good:
  assumes "good {} st"
  shows "good {} (fst (send_as sha json now i conv c d origin st))
    \<and> mail_evolves (st_messages st) (st_messages (fst (send_as sha json now i conv c d origin st)))"
  using send_tx_good [OF assms] assms by (auto simp: send_as_def or_return_def split: sum.splits)

section \<open>Receiving\<close>

lemma set_messages_none:
  "count_where P (st_messages st) = 0 \<Longrightarrow> set_messages P f st = st"
  by (simp add: set_messages_def count_where_def filter_empty_conv update_where_none)

lemma reclaim_lapsed_good:
  assumes "good {} st"
  shows "good {} (reclaim_lapsed now st)
    \<and> mail_evolves (st_messages st) (st_messages (reclaim_lapsed now st))"
  unfolding reclaim_lapsed_def
  by (auto simp: assms lapsed_def row_evolves_def is_pending_def intro!: set_messages_good mail_evolves_update)

lemma first_visible_Some:
  "first_visible st is = Inr (Some (i, k, r)) \<Longrightarrow>
     i \<in> set is \<and> (\<exists>m d. load_message st i = Inr m \<and> k = msg_kind m
        \<and> message_decision st m MakeVisible = Inr d \<and> dec_allowed d \<and> r = dec_rule d)"
proof (induction "is")
  case (Cons j js)
  show ?case
  proof (cases "load_message st j")
    case (Inr m)
    show ?thesis
    proof (cases "message_decision st m MakeVisible")
      case dec: (Inr d)
      show ?thesis
        using Cons Inr dec by (cases "dec_allowed d") auto
    qed (use Cons.prems Inr in simp)
  qed (use Cons.prems in simp)
qed simp

lemma claim_candidates_mem:
  "i \<in> set (claim_candidates now e st) \<longleftrightarrow>
     (\<exists>m \<in> set (st_messages st). mr_id m = i \<and> mr_to m = e \<and> mr_state m = Queued \<and> unexpired now m)"
  by (auto simp: claim_candidates_def)

lemma same_id: "slots_ok st \<Longrightarrow> m \<in> set (st_messages st) \<Longrightarrow> n \<in> set (st_messages st) \<Longrightarrow> mr_id m = mr_id n \<Longrightarrow> m = n"
  by (auto simp: slots_ok_def distinct_map inj_on_def)

lemma take_message_good:
  assumes "good {} st" and found: "\<And>m. m \<in> set (st_messages st) \<Longrightarrow> mr_id m = i \<Longrightarrow> mr_state m = Queued \<and> mr_to m = e"
  shows "good {} (take_message now lease consume e inc (i, k, r) st)
    \<and> mail_evolves (st_messages st) (st_messages (take_message now lease consume e inc (i, k, r) st))"
proof -
  let ?f = "claimed_row inc (saturating_add now lease)"
  let ?st1 = "set_messages (\<lambda>m. mr_id m = i) ?f st"
  have one: "good {} ?st1" "mail_evolves (st_messages st) (st_messages ?st1)"
    using found by (auto simp: assms(1) row_evolves_def is_pending_def intro!: set_messages_good mail_evolves_update)
  have claimed: "mr_state m = Claimed \<and> mr_to m = e" if m: "m \<in> set (st_messages ?st1)" "mr_id m = i" for m
  proof -
    obtain n where n: "n \<in> set (st_messages st)" "m = (if mr_id n = i then ?f n else n)"
      using m(1) unfolding table_simps set_update_where image_iff by blast
    moreover have "mr_id n = i" using n(2) m(2) by (auto simp: claimed_row_def split: if_splits)
    ultimately show ?thesis using found [of n] by (simp add: claimed_row_def)
  qed
  let ?st2 = "set_messages (\<lambda>m. mr_id m = i) consumed_row ?st1"
  have two: "good {e} ?st2" "mail_evolves (st_messages ?st1) (st_messages ?st2)"
    using claimed by (auto simp: row_evolves_def intro!: set_messages_good [OF one(1)] mail_evolves_update)
  have "good {} (recount e ?st2)" by (rule recount_good [OF two(1)]) simp
  with one two show ?thesis
    by (auto simp: take_message_def Let_def intro: mail_evolves_trans)
qed

lemma claim_tx_good:
  assumes "good {} st"
  shows "good {} (fst (claim_tx now lease consume e inc st))
    \<and> mail_evolves (st_messages st) (st_messages (fst (claim_tx now lease consume e inc st)))"
proof -
  let ?st1 = "reclaim_lapsed now st"
  have st1: "good {} ?st1" "mail_evolves (st_messages st) (st_messages ?st1)"
    using reclaim_lapsed_good [OF assms] by simp_all
  have found: "good {} (take_message now lease consume e inc c ?st1)
      \<and> mail_evolves (st_messages ?st1) (st_messages (take_message now lease consume e inc c ?st1))"
    if c: "first_visible ?st1 (claim_candidates now e ?st1) = Inr (Some c)" for c
  proof -
    obtain i k r where ikr: "c = (i, k, r)" by (cases c)
    have "i \<in> set (claim_candidates now e ?st1)"
      using first_visible_Some c unfolding ikr by blast
    then obtain m where m: "m \<in> set (st_messages ?st1)" "mr_id m = i" "mr_to m = e" "mr_state m = Queued"
      by (auto simp: claim_candidates_mem)
    show ?thesis
      unfolding ikr
    proof (rule take_message_good [OF st1(1)])
      fix n assume n: "n \<in> set (st_messages ?st1)" "mr_id n = i"
      have "n = m" using same_id [OF goodD(1) [OF st1(1)] n(1) m(1)] n(2) m(2) by simp
      with m show "mr_state n = Queued \<and> mr_to n = e" by simp
    qed
  qed
  show ?thesis
    using assms st1 found
    by (auto simp: claim_tx_def Let_def or_return_def split: sum.splits option.splits intro: mail_evolves_trans)
qed

lemma recount_uncharge: "recount i (set_endpoints (\<lambda>r. er_id r = i) (uncharge_row n) st) = recount i st"
  by (auto simp: recount_def set_endpoints_def update_where_def set_counts_def uncharge_row_def)

lemma respond_retire_good:
  assumes "good {} st" and to: "\<And>m. m \<in> set (st_messages st) \<Longrightarrow> mr_id m = i \<Longrightarrow> mr_to m = e"
  shows "good {} (respond_retire now i e txt oc st)
    \<and> mail_evolves (st_messages st) (st_messages (respond_retire now i e txt oc st))"
proof -
  let ?P = "\<lambda>m. mr_id m = i \<and> is_pending (mr_state m)"
  have evolves: "row_evolves m (consumed_row m)" if "?P m" for m
    using that by (cases "mr_state m") (auto simp: row_evolves_def is_pending_def)
  have one: "good {e} (set_messages ?P consumed_row st)"
    using to by (intro set_messages_good [OF assms(1)] evolves) auto
  have two: "mail_evolves (st_messages st) (st_messages (set_messages ?P consumed_row st))"
    using evolves by (auto intro: mail_evolves_update)
  have "good {} (recount e (set_messages ?P consumed_row st))"
    by (rule recount_good [OF one]) simp
  with assms(1) two show ?thesis
    by (auto simp: respond_retire_def Let_def recount_uncharge set_messages_none)
qed

lemma confirm_interrupt_good:
  assumes "good {} st"
  shows "good {} (fst (confirm_interrupt now i inc st))
    \<and> mail_evolves (st_messages st) (st_messages (fst (confirm_interrupt now i inc st)))"
proof (cases "load_message st i")
  case (Inr m)
  then obtain r where r: "r \<in> set (st_messages st)" "mr_id r = i" "msg_to m = mr_to r"
    by (auto simp: load_message_Inr find_message_def dest: lookup_by_Some)
  let ?P = "interrupt_confirmed st i inc"
  have evolves: "row_evolves n (stopped_row n)" if "?P n" for n
    using that by (simp add: row_evolves_def interrupt_confirmed_def)
  have same: "mr_to n = msg_to m" if "n \<in> set (st_messages st)" "?P n" for n
    using that r same_id [OF goodD(1) [OF assms]] by (auto simp: interrupt_confirmed_def)
  have one: "good {msg_to m} (set_messages ?P stopped_row st)"
    using same by (intro set_messages_good [OF assms] evolves) auto
  have two: "mail_evolves (st_messages st) (st_messages (set_messages ?P stopped_row st))"
    using evolves by (auto intro: mail_evolves_update)
  have "good {} (recount (msg_to m) (set_messages ?P stopped_row st))"
    by (rule recount_good [OF one]) simp
  with assms two Inr show ?thesis
    by (auto simp: confirm_interrupt_def Let_def set_messages_none split: sum.splits)
qed (simp add: confirm_interrupt_def assms)

lemma cancel_tx_good:
  assumes "good {} st" and to: "\<And>m. m \<in> set (st_messages st) \<Longrightarrow> mr_id m = i \<Longrightarrow> mr_to m = msg_to request"
  shows "good {} (fst (cancel_tx now i request st))
    \<and> mail_evolves (st_messages st) (st_messages (fst (cancel_tx now i request st)))"
proof -
  let ?Q = "\<lambda>m. mr_id m = i \<and> mr_state m = Queued"
  let ?W = "\<lambda>m. mr_id m = i \<and> (mr_state m = Claimed \<or> mr_state m = Delivered)"
  have q: "good {msg_to request} (set_messages ?Q (state_only Cancelled) st)"
    "mail_evolves (st_messages st) (st_messages (set_messages ?Q (state_only Cancelled) st))"
    using to by (auto simp: row_evolves_def intro!: set_messages_good [OF assms(1)] mail_evolves_update)
  have w: "good {} (set_messages ?W (state_only CancellationRequested) st)"
    "mail_evolves (st_messages st) (st_messages (set_messages ?W (state_only CancellationRequested) st))"
    by (auto simp: row_evolves_def is_pending_def intro!: set_messages_good [OF assms(1)] mail_evolves_update)
  have "good {} (recount (msg_to request) (set_messages ?Q (state_only Cancelled) st))"
    by (rule recount_good [OF q(1)]) simp
  with assms(1) q(2) w show ?thesis
    by (auto simp: cancel_tx_def Let_def)
qed

lemma fold_recount_good: "good E st \<Longrightarrow> good (E - set is) (fold recount is st)"
proof (induction "is" arbitrary: E st)
  case (Cons i "is")
  have "good (E - {i}) (recount i st)" by (rule recount_good [OF Cons.prems]) auto
  then have "good (E - {i} - set is) (fold recount is (recount i st))" by (rule Cons.IH)
  moreover have "E - {i} - set is = E - set (i # is)" by auto
  ultimately show ?case by simp
qed simp

lemma fold_recount_messages [simp]: "st_messages (fold recount is st) = st_messages st"
  by (induction "is" arbitrary: st) simp_all

lemma sweep_good:
  assumes "good {} st"
  shows "good {} (fst (sweep now st)) \<and> mail_evolves (st_messages st) (st_messages (fst (sweep now st)))"
proof -
  let ?st1 = "reclaim_lapsed now st"
  have st1: "good {} ?st1" "mail_evolves (st_messages st) (st_messages ?st1)"
    using reclaim_lapsed_good [OF assms] by simp_all
  let ?st2 = "set_messages (past_deadline now) (state_only Expired) ?st1"
  let ?E = "mr_to ` {m \<in> set (st_messages ?st2). mr_state m = Expired}"
  have evolves: "row_evolves m (state_only Expired m)" if "past_deadline now m" for m
    using that by (auto simp: row_evolves_def past_deadline_def)
  have hit: "mr_to m \<in> ?E" if "m \<in> set (st_messages ?st1)" "past_deadline now m" for m
  proof -
    have "(if past_deadline now m then state_only Expired m else m) \<in> set (st_messages ?st2)"
      unfolding table_simps set_update_where using that(1) by (rule imageI)
    then have "state_only Expired m \<in> set (st_messages ?st2)" using that(2) by simp
    then have "mr_to (state_only Expired m) \<in> ?E" by (intro imageI) simp
    then show ?thesis by (simp add: state_only_def)
  qed
  have st2: "good ?E ?st2" "mail_evolves (st_messages ?st1) (st_messages ?st2)"
    using hit by (auto intro!: set_messages_good [OF st1(1)] evolves mail_evolves_update)
  let ?is = "remdups (map mr_to (filter (\<lambda>m. mr_state m = Expired) (st_messages ?st2)))"
  have "good (?E - set ?is) (fold recount ?is ?st2)" by (rule fold_recount_good [OF st2(1)])
  moreover have "?E - set ?is = {}" by auto
  ultimately have "good {} (fold recount ?is ?st2)" by simp
  then show ?thesis
    using st1 st2(2)
    by (auto simp: sweep_def Let_def set_messages_none intro: mail_evolves_trans)
qed

end
