(* ===== verification/StorePeerSafety.thy ===== *)
theory StorePeerSafety
  imports StoreSafety
begin

text \<open>
  The peer, proxy, bridge and activation transactions keep the invariants of the store as well.
\<close>

section \<open>Leases and proxies\<close>

lemma requeue_good:
  assumes "good {} st"
  shows "good {} (requeue_proxy_claims p w st)
    \<and> mail_evolves (st_messages st) (st_messages (requeue_proxy_claims p w st))"
  unfolding requeue_proxy_claims_def
  by (auto simp: assms row_evolves_def is_pending_def intro!: set_messages_good mail_evolves_update)

lemma requeue_tables [simp]:
  "st_endpoints (requeue_proxy_claims p w st) = st_endpoints st"
  "st_proxies (requeue_proxy_claims p w st) = st_proxies st"
  "st_peers (requeue_proxy_claims p w st) = st_peers st"
  by (simp_all add: requeue_proxy_claims_def)

lemma acquire_good:
  assumes "good {} st"
  shows "good {} (fst (acquire_peer_lease p owner anchor ttl now st))
    \<and> mail_evolves (st_messages st) (st_messages (fst (acquire_peer_lease p owner anchor ttl now st)))"
proof -
  have "good {} (requeue_proxy_claims p w st)
      \<and> mail_evolves (st_messages st) (st_messages (requeue_proxy_claims p w st))" for w
    by (rule requeue_good [OF assms])
  then show ?thesis
    using assms by (auto simp: acquire_peer_lease_def Let_def set_endpoints_good split: option.splits)
qed

lemma release_good:
  assumes "good {} st"
  shows "good {} (fst (release_peer_lease now p owner st))
    \<and> mail_evolves (st_messages st) (st_messages (fst (release_peer_lease now p owner st)))"
proof -
  have "good {} (set_peers P f st)" for P f using assms by simp
  then have r: "good {} (requeue_proxy_claims p w (set_peers P f st))
      \<and> mail_evolves (st_messages st) (st_messages (requeue_proxy_claims p w (set_peers P f st)))" for w P f
    using requeue_good [of "set_peers P f st"] by simp
  then show ?thesis
    using assms by (auto simp: release_peer_lease_def Let_def set_endpoints_good)
qed

lemma insert_proxy_tables:
  "insert_proxy x st = Inr st' \<Longrightarrow> st_messages st' = st_messages st \<and> st_endpoints st' = st_endpoints st"
  by (auto simp: insert_proxy_def split: if_splits)

lemma create_proxy_good:
  assumes "good {} st"
  shows "good {} (fst (create_proxy now fresh r p remote display st))
    \<and> st_messages (fst (create_proxy now fresh r p remote display st)) = st_messages st"
proof -
  have new: "insert_endpoint (proxy_endpoint_row fresh p w now) st = Inr st1 \<Longrightarrow>
      good {} st1 \<and> st_messages st1 = st_messages st" for w st1
    using insert_endpoint_good [OF assms] insert_endpoint_messages by (auto simp: proxy_endpoint_row_def)
  have px: "insert_proxy x st1 = Inr st2 \<Longrightarrow> good {} st2 = good {} st1 \<and> st_messages st2 = st_messages st1" for x st1 st2
    using insert_proxy_tables good_cong by metis
  show ?thesis
    using assms new px
    by (auto simp: create_proxy_def or_return_def Let_def split: sum.splits if_splits)
qed

lemma ensure_proxy_good:
  assumes "good {} st"
  shows "good {} (fst (ensure_proxy now fresh p remote display st))
    \<and> st_messages (fst (ensure_proxy now fresh p remote display st)) = st_messages st"
proof -
  have "good {} (st\<lparr>st_proxies := xs\<rparr>) = good {} st" for xs by (rule good_cong) simp_all
  then show ?thesis
    using assms create_proxy_good [OF assms]
    by (auto simp: ensure_proxy_def split: option.splits)
qed

lemma pin_peer_good:
  assumes "good {} st"
  shows "good {} (fst (pin_peer now fresh l h st)) \<and> st_messages (fst (pin_peer now fresh l h st)) = st_messages st"
proof -
  have "insert_peer r st = Inr st1 \<Longrightarrow> good {} st1 \<and> st_messages st1 = st_messages st" for r st1
    using assms good_cong [of st1 st] by (auto simp: insert_peer_def split: if_splits)
  then show ?thesis
    using assms by (auto simp: pin_peer_def or_return_def Let_def split: option.splits sum.splits)
qed

lemma set_peer_trust_good:
  "good {} st \<Longrightarrow> good {} (fst (set_peer_trust now l b st))
    \<and> st_messages (fst (set_peer_trust now l b st)) = st_messages st"
  by (auto simp: set_peer_trust_def Let_def)

section \<open>Forgetting a peer\<close>

text \<open>The rows still to be failed are of the same recipient and may still fail.\<close>

definition failable :: "message_row list \<Rightarrow> message_row list \<Rightarrow> bool" where
  "failable todo ms \<longleftrightarrow>
     (\<forall>m \<in> set todo. \<forall>n \<in> set ms. mr_id n = mr_id m \<longrightarrow> mr_to n = mr_to m \<and> may_become (mr_state n) Undeliverable)"

lemma failable_step:
  assumes "failable todo ms" "\<And>n. content (f n) = content n" "\<And>n. mr_state (f n) = Undeliverable"
  shows "failable todo (update_where (\<lambda>n. mr_id n = i) f ms)"
  unfolding failable_def
proof (intro ballI impI)
  fix m n' assume m: "m \<in> set todo" and n': "n' \<in> set (update_where (\<lambda>n. mr_id n = i) f ms)" "mr_id n' = mr_id m"
  then obtain n where n: "n \<in> set ms" "n' = (if mr_id n = i then f n else n)"
    unfolding set_update_where image_iff by blast
  have kept: "mr_id (f n) = mr_id n" "mr_to (f n) = mr_to n" using content_eqD(1,2) [OF assms(2) [of n]] by simp_all
  then have "mr_id n = mr_id m" using n(2) n'(2) by (auto split: if_splits)
  then have "mr_to n = mr_to m \<and> may_become (mr_state n) Undeliverable"
    using assms(1) m n(1) by (simp add: failable_def)
  then show "mr_to n' = mr_to m \<and> may_become (mr_state n') Undeliverable"
    using n(2) kept assms(3) by simp
qed

lemma fold_withdraw_good:
  assumes "good {} st" "failable todo (st_messages st)"
  shows "good {} (fold (withdraw_one now) todo st)
    \<and> mail_evolves (st_messages st) (st_messages (fold (withdraw_one now) todo st))"
  using assms
proof (induction todo arbitrary: st)
  case (Cons m todo)
  let ?f = "failed_row (error_code_str PeerRetired)"
  let ?st1 = "set_messages (\<lambda>n. mr_id n = mr_id m) ?f st"
  have hit: "mr_to n = mr_to m \<and> may_become (mr_state n) Undeliverable" if "n \<in> set (st_messages st)" "mr_id n = mr_id m" for n
    using Cons.prems(2) that by (simp add: failable_def)
  have one: "good {mr_to m} ?st1" "mail_evolves (st_messages st) (st_messages ?st1)"
    using hit by (auto simp: row_evolves_def intro!: set_messages_good [OF Cons.prems(1)] mail_evolves_update)
  have "good {} (recount (mr_to m) ?st1)" by (rule recount_good [OF one(1)]) simp
  then have two: "good {} (withdraw_one now m st)" "st_messages (withdraw_one now m st) = st_messages ?st1"
    by (simp_all add: withdraw_one_def retire_audit_def)
  have "failable todo (st_messages (withdraw_one now m st))"
    using Cons.prems(2) unfolding two(2) table_simps by (intro failable_step) (auto simp: failable_def)
  from Cons.IH [OF two(1) this] show ?case
    using one(2) two(2) by (auto intro: mail_evolves_trans)
qed simp

lemma fold_abandon_good:
  assumes "good {x} st" "failable todo (st_messages st)" "\<forall>m \<in> set todo. mr_to m = x"
  shows "good {x} (fold (abandon_one now x) todo st)
    \<and> mail_evolves (st_messages st) (st_messages (fold (abandon_one now x) todo st))"
  using assms
proof (induction todo arbitrary: st)
  case (Cons m todo)
  let ?st1 = "set_messages (\<lambda>n. mr_id n = mr_id m) (abandoned_row (error_code_str PeerRetired)) st"
  have hit: "mr_to n = x \<and> may_become (mr_state n) Undeliverable" if "n \<in> set (st_messages st)" "mr_id n = mr_id m" for n
    using Cons.prems(2,3) that by (simp add: failable_def)
  have one: "good {x} ?st1" "mail_evolves (st_messages st) (st_messages ?st1)"
    using hit by (auto simp: row_evolves_def intro!: set_messages_good [OF Cons.prems(1)] mail_evolves_update)
  have two: "good {x} (abandon_one now x m st)" "st_messages (abandon_one now x m st) = st_messages ?st1"
    using one(1) by (simp_all add: abandon_one_def retire_audit_def)
  have "failable todo (st_messages (abandon_one now x m st))"
    using Cons.prems(2) unfolding two(2) table_simps by (intro failable_step) (auto simp: failable_def)
  from Cons.IH [OF two(1) this] Cons.prems(3) show ?case
    using one(2) two(2) by (auto intro: mail_evolves_trans)
qed simp

lemma failable_self:
  assumes "slots_ok st" "\<And>m. m \<in> set todo \<Longrightarrow> m \<in> set (st_messages st) \<and> may_become (mr_state m) Undeliverable"
  shows "failable todo (st_messages st)"
  unfolding failable_def
proof (intro ballI impI)
  fix m n assume m: "m \<in> set todo" and n: "n \<in> set (st_messages st)" "mr_id n = mr_id m"
  have "n = m" using same_id [OF assms(1) n(1) _ n(2)] assms(2) [OF m] by simp
  then show "mr_to n = mr_to m \<and> may_become (mr_state n) Undeliverable" using assms(2) [OF m] by simp
qed

lemma retire_proxy_good:
  assumes "good {} st"
  shows "good {} (fst (retire_proxy now x (st, u, w)))
    \<and> mail_evolves (st_messages st) (st_messages (fst (retire_proxy now x (st, u, w))))"
proof -
  let ?todo = "unclaimed_from st x"
  let ?st1 = "fold (withdraw_one now) ?todo st"
  let ?waiting = "pending_to x (st_messages ?st1)"
  let ?st2 = "fold (abandon_one now x) ?waiting ?st1"
  have "failable ?todo (st_messages st)"
    by (rule failable_self [OF goodD(1) [OF assms]]) (auto simp: unclaimed_from_def)
  then have one: "good {} ?st1" "mail_evolves (st_messages st) (st_messages ?st1)"
    using fold_withdraw_good [OF assms] by simp_all
  have "failable ?waiting (st_messages ?st1)"
  proof (rule failable_self [OF goodD(1) [OF one(1)]])
    show "m \<in> set (st_messages ?st1) \<and> may_become (mr_state m) Undeliverable" if "m \<in> set ?waiting" for m
      using that by (cases "mr_state m") (auto simp: pending_to_def is_pending_def)
  qed
  then have two: "good {x} ?st2" "mail_evolves (st_messages ?st1) (st_messages ?st2)"
    using fold_abandon_good [OF good_mono [OF one(1)]] by (auto simp: pending_to_def)
  have "good {} (recount x ?st2)" by (rule recount_good [OF two(1)]) simp
  then have "good {} (set_endpoints (\<lambda>e. er_id e = x) (shut_row now) (recount x ?st2))"
    by (rule set_endpoints_good) simp_all
  then show ?thesis
    using one(2) two(2) by (auto simp: retire_proxy_def Let_def intro: mail_evolves_trans)
qed

lemma fold_retire_good:
  assumes "good {} (fst acc)"
  shows "good {} (fst (fold (retire_proxy now) xs acc))
    \<and> mail_evolves (st_messages (fst acc)) (st_messages (fst (fold (retire_proxy now) xs acc)))"
  using assms
proof (induction xs arbitrary: acc)
  case (Cons x xs)
  obtain st u w where acc: "acc = (st, u, w)" by (cases acc)
  have one: "good {} (fst (retire_proxy now x acc))"
    "mail_evolves (st_messages (fst acc)) (st_messages (fst (retire_proxy now x acc)))"
    using retire_proxy_good [of st] Cons.prems by (simp_all add: acc)
  from Cons.IH [OF one(1)] one(2) show ?case by (auto intro: mail_evolves_trans)
qed simp

lemma retire_peer_good:
  assumes "good {} st"
  shows "good {} (fst (retire_peer now l st))
    \<and> mail_evolves (st_messages st) (st_messages (fst (retire_peer now l st)))"
proof (cases "live_peer_row st (\<lambda>r. pe_label r = Some l)")
  case (Some r)
  show ?thesis
    using fold_retire_good [of "(st, 0, 0)" now "proxies_of st (pe_id r)"] assms Some
    by (auto simp: retire_peer_def Let_def split: prod.splits)
qed (simp add: retire_peer_def assms)

section \<open>The bridge\<close>

lemma settle_good:
  assumes "good {} st"
  shows "good {} (fst (settle_outbound now c i failure st))
    \<and> mail_evolves (st_messages st) (st_messages (fst (settle_outbound now c i failure st)))"
proof -
  let ?P = "\<lambda>x owner m. mr_id m = i \<and> mr_to m = x \<and> mr_state m = Claimed \<and> mr_claim_owner m = Some owner"
  have one: "good {x} (set_messages (?P x owner) (settled_row failure) st)"
    "mail_evolves (st_messages st) (st_messages (set_messages (?P x owner) (settled_row failure) st))" for x owner
    by (auto simp: row_evolves_def intro!: set_messages_good [OF assms] mail_evolves_update)
  have "good {} (recount x (set_messages (?P x owner) (settled_row failure) st))" for x owner
    by (rule recount_good [OF one(1)]) simp
  then show ?thesis
    using assms one(2)
    by (auto simp: settle_outbound_def or_return_def Let_def set_messages_none split: sum.splits prod.splits)
qed

lemma is_working_may: "is_working s \<Longrightarrow> may_become s Cancelled"
  by (cases s) (auto simp: is_working_def)

lemma confirm_remote_cancel_good:
  assumes "good {} st"
  shows "good {} (fst (confirm_remote_cancel now c i s st))
    \<and> mail_evolves (st_messages st) (st_messages (fst (confirm_remote_cancel now c i s st)))"
proof -
  let ?P = "\<lambda>x m. mr_id m = i \<and> mr_to m = x \<and> is_working (mr_state m)"
  have one: "good {x} (set_messages (?P x) (unclaimed_state Cancelled) st)"
    "mail_evolves (st_messages st) (st_messages (set_messages (?P x) (unclaimed_state Cancelled) st))" for x
    by (auto simp: row_evolves_def is_working_may intro!: set_messages_good [OF assms] mail_evolves_update)
  have "good {} (recount x (set_messages (?P x) (unclaimed_state Cancelled) st))" for x
    by (rule recount_good [OF one(1)]) simp
  then show ?thesis
    using assms one(2)
    by (auto simp: confirm_remote_cancel_def or_return_def Let_def split: sum.splits prod.splits)
qed

lemma record_activation_good:
  assumes "good {} st"
  shows "good {} (record_activation now i e mode r res st)
    \<and> mail_evolves (st_messages st) (st_messages (record_activation now i e mode r res st))"
  by (auto simp: record_activation_def row_evolves_def intro!: set_messages_good [OF assms] mail_evolves_update)

lemma attach_to_group_send_good:
  assumes "good {} st"
  shows "good {} (attach_to_group_send i s st)
    \<and> mail_evolves (st_messages st) (st_messages (attach_to_group_send i s st))"
  by (auto simp: attach_to_group_send_def row_evolves_def intro!: set_messages_good [OF assms] mail_evolves_update)

end
