(* ===== verification/StoreMachine.thy ===== *)
theory StoreMachine
  imports StorePeerSafety
begin

text \<open>
  The store as a state machine: every transaction any process may commit is a step, in any order and
  with any arguments, and the properties of all reachable stores follow from the invariants.
\<close>

section \<open>Transactions\<close>

text \<open>
  One rule for each transaction. \<open>respond\<close> and \<open>ingest\<close> commit more than one, between which other
  processes may commit theirs, so their transactions are separate steps. A transaction that acts on
  a request it looked up earlier knows its recipient, which never changes.
\<close>

inductive txn :: "(string \<Rightarrow> 8 word list) \<Rightarrow> (reference list \<Rightarrow> string) \<Rightarrow> store \<Rightarrow> store \<Rightarrow> bool"
  for sha :: "string \<Rightarrow> 8 word list" and json :: "reference list \<Rightarrow> string" where
  txn_bind: "txn sha json st (fst (endpoint_bind sha now tb inc fresh b st))"
| txn_unbind: "txn sha json st (fst (endpoint_unbind now e inc st))"
| txn_local_user: "txn sha json st (fst (ensure_local_user now fresh st))"
| txn_set_state: "txn sha json st (fst (set_state now e s st))"
| txn_set_capabilities: "txn sha json st (fst (set_capabilities now e caps st))"
| txn_set_address: "txn sha json st (fst (set_address now e a st))"
| txn_set_policy: "txn sha json st (fst (set_policy now e p st))"
| txn_send: "draft_validate d = Inr () \<Longrightarrow>
    txn sha json st (fst (send_tx (\<lambda>s. hex (sha s)) json now i conv c d origin st))"
| txn_claim: "txn sha json st (fst (claim_tx now lease consume e inc st))"
| txn_respond: "find_message st i = Some r \<Longrightarrow> txn sha json st (respond_retire now i (mr_to r) body oc st)"
| txn_cancel: "find_message st i = Some r \<Longrightarrow> msg_to request = mr_to r \<Longrightarrow>
    txn sha json st (fst (cancel_tx now i request st))"
| txn_interrupt: "txn sha json st (fst (confirm_interrupt now i inc st))"
| txn_sweep: "txn sha json st (fst (sweep now st))"
| txn_pin: "txn sha json st (fst (pin_peer now fresh l h st))"
| txn_trust: "txn sha json st (fst (set_peer_trust now l b st))"
| txn_acquire: "txn sha json st (fst (acquire_peer_lease p owner anchor ttl now st))"
| txn_release: "txn sha json st (fst (release_peer_lease now p owner st))"
| txn_proxy: "txn sha json st (fst (ensure_proxy now fresh p remote display st))"
| txn_retire: "txn sha json st (fst (retire_peer now l st))"
| txn_settle: "txn sha json st (fst (settle_outbound now c i failure st))"
| txn_remote_cancel: "txn sha json st (fst (confirm_remote_cancel now c i s st))"
| txn_question: "txn sha json st (fst (request_resolution now p sel st))"
| txn_answer: "txn sha json st (fst (answer_resolution now p q ans st))"
| txn_take: "txn sha json st (fst (take_resolution q st))"
| txn_attachment: "txn sha json st (fst (record_attachment now c key pos x ra st))"
| txn_activation: "txn sha json st (record_activation now i e mode r res st)"
| txn_group: "txn sha json st (fst (set_group now name members st))"
| txn_delete_group: "txn sha json st (fst (delete_group name st))"
| txn_open_group: "txn sha json st (fst (open_group_send now fresh name c members st))"
| txn_attach_group: "txn sha json st (attach_to_group_send i s st)"

inductive_cases txn_cases [consumes 1]: "txn sha json st st'"

section \<open>Operations that do not touch mail\<close>

lemma insert_members_tables:
  "insert_members name is st = Inr st' \<Longrightarrow> st_messages st' = st_messages st \<and> st_endpoints st' = st_endpoints st
     \<and> st_peers st' = st_peers st \<and> st_proxies st' = st_proxies st \<and> st_idempotency st' = st_idempotency st
     \<and> st_host st' = st_host st"
  by (induction "is" arbitrary: st) (auto split: if_splits)

lemma set_group_tables:
  "st_messages (fst (set_group now name members st)) = st_messages st"
  "st_endpoints (fst (set_group now name members st)) = st_endpoints st"
  "st_peers (fst (set_group now name members st)) = st_peers st"
  "st_proxies (fst (set_group now name members st)) = st_proxies st"
  "st_idempotency (fst (set_group now name members st)) = st_idempotency st"
  "st_host (fst (set_group now name members st)) = st_host st"
  by (auto simp: set_group_def Let_def or_return_def split: sum.splits dest!: insert_members_tables)

lemma side_tables:
  "st_messages (fst (request_resolution now p sel st)) = st_messages st"
  "st_endpoints (fst (request_resolution now p sel st)) = st_endpoints st"
  "st_messages (fst (answer_resolution now p q ans st)) = st_messages st"
  "st_endpoints (fst (answer_resolution now p q ans st)) = st_endpoints st"
  "st_messages (fst (take_resolution q st)) = st_messages st"
  "st_endpoints (fst (take_resolution q st)) = st_endpoints st"
  "st_messages (fst (record_attachment now c key pos x ra st)) = st_messages st"
  "st_endpoints (fst (record_attachment now c key pos x ra st)) = st_endpoints st"
  "st_messages (fst (delete_group name st)) = st_messages st"
  "st_endpoints (fst (delete_group name st)) = st_endpoints st"
  "st_messages (fst (open_group_send now fresh name c members st)) = st_messages st"
  "st_endpoints (fst (open_group_send now fresh name c members st)) = st_endpoints st"
  by (auto simp: request_resolution_def answer_resolution_def take_resolution_def record_attachment_def
      delete_group_def open_group_send_def or_return_def Let_def split: sum.splits option.splits)

section \<open>The store is a machine\<close>

lemma txn_good:
  assumes "good {} st" "txn sha json st st'"
  shows "good {} st' \<and> mail_evolves (st_messages st) (st_messages st')"
  using assms(2)
proof (cases rule: txn.cases)
  case (txn_respond i r now body oc)
  have "mr_to m = mr_to r" if "m \<in> set (st_messages st)" "mr_id m = i" for m
    using that same_id [OF goodD(1) [OF assms(1)]] lookup_by_Some txn_respond(2)
    unfolding find_message_def by metis
  then show ?thesis using respond_retire_good [OF assms(1)] txn_respond(1) by simp
next
  case (txn_cancel i r request now)
  have "mr_to m = msg_to request" if "m \<in> set (st_messages st)" "mr_id m = i" for m
    using that same_id [OF goodD(1) [OF assms(1)]] lookup_by_Some txn_cancel(2,3)
    unfolding find_message_def by metis
  then show ?thesis using cancel_tx_good [OF assms(1)] txn_cancel(1) by simp
next
  case (txn_group now name members)
  then show ?thesis using good_cong [of st' st] assms(1) by (simp add: set_group_tables)
next
  case (txn_question now p sel)
  then show ?thesis using good_cong [of st' st] assms(1) by (simp add: side_tables)
next
  case (txn_answer now p q ans)
  then show ?thesis using good_cong [of st' st] assms(1) by (simp add: side_tables)
next
  case (txn_take q)
  then show ?thesis using good_cong [of st' st] assms(1) by (simp add: side_tables)
next
  case (txn_attachment now c key pos x ra)
  then show ?thesis using good_cong [of st' st] assms(1) by (simp add: side_tables)
next
  case (txn_delete_group name)
  then show ?thesis using good_cong [of st' st] assms(1) by (simp add: side_tables)
next
  case (txn_open_group now fresh name c members)
  then show ?thesis using good_cong [of st' st] assms(1) by (simp add: side_tables)
qed (simp_all add: assms(1) bind_good unbind_good ensure_local_user_good set_state_good change_endpoint_good
    set_capabilities_def set_address_def set_policy_def send_tx_good claim_tx_good confirm_interrupt_good
    sweep_good pin_peer_good set_peer_trust_good acquire_good release_good ensure_proxy_good
    retire_peer_good settle_good confirm_remote_cancel_good record_activation_good attach_to_group_send_good)

lemma new_store_good: "good {} (new_store h)"
  by (simp add: good_def new_store_def slots_ok_def counters_ok_def caps_ok_def
      MAX_PENDING_COUNT_def RESERVED_COUNT_def MAX_PENDING_BYTES_def RESERVED_BYTES_def)

interpretation mail: advancing_machine "txn sha json" "\<lambda>st. \<exists>h. st = new_store h" "good {}"
  "\<lambda>st st'. mail_evolves (st_messages st) (st_messages st')" for sha json
proof
  show "\<exists>h. s = new_store h \<Longrightarrow> good {} s" for s using new_store_good by blast
  show "good {} s \<Longrightarrow> txn sha json s t \<Longrightarrow> good {} t" for s t using txn_good by blast
  show "good {} s \<Longrightarrow> txn sha json s t \<Longrightarrow> mail_evolves (st_messages s) (st_messages t)" for s t
    using txn_good by blast
qed (auto intro: mail_evolves_trans)

end
