(* ===== verification/StoreSamples.thy ===== *)
theory StoreSamples
  imports StoreMachine
begin

text \<open>
  A small reachable store on which the properties are applied: two agents bound in one runtime
  instance, and the first one's request to the second.
\<close>

definition sample_binding :: "alias_name \<Rightarrow> binding" where
  "sample_binding a =
     \<lparr>bi_alias = Some a, bi_provider = None,
      bi_locator = \<lparr>loc_kind = Wrapper, loc_instance_id = ''r'', loc_instance_name = None, loc_address = None\<rparr>\<rparr>"

definition sample_sha :: "string \<Rightarrow> 8 word list" where "sample_sha s = []"

definition sample_json :: "reference list \<Rightarrow> string" where "sample_json rs = ''[]''"

definition sample_alice :: store where
  "sample_alice = fst (endpoint_bind sample_sha 0 [] ''ia'' ''a'' (sample_binding ''alice'') (new_store ''h''))"

definition sample_bound :: store where
  "sample_bound = fst (endpoint_bind sample_sha 0 [] ''ib'' ''b'' (sample_binding ''bob'') sample_alice)"

definition sample_agent :: "opaque \<Rightarrow> opaque \<Rightarrow> caller" where
  "sample_agent e inc =
     \<lparr>cl_principal = \<lparr>pr_kind = Agent, pr_endpoint = Some e, pr_incarnation = Some inc\<rparr>, cl_scope = Some ''r''\<rparr>"

definition sample_mail :: draft where
  "sample_mail = \<lparr>d_to = ''b'', d_kind = Request, d_reply_to = None, d_outcome = None, d_subject = None,
     d_text = ''hi'', d_refs = [], d_key = ''k'', d_expires_in = None\<rparr>"

definition sample_send :: "store \<Rightarrow> store \<times> message result" where
  "sample_send = send_as (\<lambda>s. hex (sample_sha s)) sample_json 5 ''m'' ''c'' (sample_agent ''a'' ''ia'') sample_mail None"

definition sample_sent :: store where "sample_sent = fst (sample_send sample_bound)"

definition sample_row :: message_row where
  "sample_row =
     \<lparr>mr_id = ''m'', mr_to = ''b'', mr_from = cl_principal (sample_agent ''a'' ''ia''), mr_kind = Request,
      mr_conversation = ''c'', mr_reply_to = None, mr_outcome = None, mr_sequence = 1, mr_state = Queued,
      mr_subject = None, mr_text = ''hi'', mr_refs = [], mr_bytes = 4, mr_created_at = 5, mr_expires_at = None,
      mr_claim_owner = None, mr_claim_expires = None, mr_activations = 0, mr_last_activated = None,
      mr_group_send = None, mr_failure = None, mr_origin = None\<rparr>"

lemma sample_simps [simp]:
  "d_to sample_mail = ''b''" "d_kind sample_mail = Request" "d_reply_to sample_mail = None"
  "d_key sample_mail = ''k''"
  "pr_kind (cl_principal (sample_agent e inc)) = Agent"
  "pr_endpoint (cl_principal (sample_agent e inc)) = Some e"
  "pr_incarnation (cl_principal (sample_agent e inc)) = Some inc"
  "cl_scope (sample_agent e inc) = Some ''r''"
  "mr_id sample_row = ''m''" "mr_to sample_row = ''b''" "mr_state sample_row = Queued" "mr_bytes sample_row = 4"
  by (simp_all add: sample_mail_def sample_agent_def sample_row_def)

lemma sample_mail_ok: "draft_validate sample_mail = Inr ()"
  by (simp add: draft_validate_def sample_mail_def MAX_TEXT_BYTES_def MAX_IDEMPOTENCY_KEY_BYTES_def)

lemma sample_bound_endpoints:
  "st_endpoints sample_bound =
     [bind_row ''a'' ''ia'' [] (sample_binding ''alice'') 0, bind_row ''b'' ''ib'' [] (sample_binding ''bob'') 0]"
  by (simp add: sample_bound_def sample_alice_def endpoint_bind_def Let_def sample_binding_def slot_of_def new_store_def
      endpoint_limit_def MAX_ENDPOINTS_def insert_endpoint_def find_endpoint_def bind_row_def sample_sha_def
      hex_def audit_def)

lemma sample_bound_tables:
  "st_messages sample_bound = []" "st_idempotency sample_bound = []" "st_proxies sample_bound = []"
  "st_peers sample_bound = []" "st_host sample_bound = ''h''"
  "map au_operation (st_audit sample_bound) = [''bind'', ''bind'']"
  by (simp_all add: sample_bound_def sample_alice_def endpoint_bind_def Let_def sample_binding_def slot_of_def new_store_def
      endpoint_limit_def MAX_ENDPOINTS_def insert_endpoint_def find_endpoint_def bind_row_def sample_sha_def
      hex_def audit_def)

lemma sample_bound_reachable: "(txn sample_sha sample_json)\<^sup>*\<^sup>* (new_store ''h'') sample_bound"
proof -
  have a: "txn sample_sha sample_json (new_store ''h'') sample_alice" unfolding sample_alice_def by (rule txn_bind)
  have b: "txn sample_sha sample_json sample_alice sample_bound" unfolding sample_bound_def by (rule txn_bind)
  show ?thesis
    by (rule rtranclp.rtrancl_into_rtrancl, rule rtranclp.rtrancl_into_rtrancl, rule rtranclp.rtrancl_refl,
        rule a, rule b)
qed

lemma sample_send_eq:
  "sample_send sample_bound =
     (accepted_store 5 ''agent:a'' [] RuleAnyone sample_mail sample_row
        (sample_bound\<lparr>st_messages := [sample_row]\<rparr>), Inr (build_message sample_row))"
proof -
  have audit: "count_where (\<lambda>a. au_endpoint a = Some ''b'' \<and> au_operation a = ''send''
      \<and> au_result a = ''accepted'' \<and> au_at a > 5 - 60000) (st_audit sample_bound) = 0"
  proof -
    have "set (map au_operation (st_audit sample_bound)) = {''bind''}"
      unfolding sample_bound_tables(6) by simp
    then have bind: "au_operation a = ''bind''" if "a \<in> set (st_audit sample_bound)" for a
      using that unfolding set_map by blast
    have "\<not> (au_endpoint a = Some ''b'' \<and> au_operation a = ''send''
        \<and> au_result a = ''accepted'' \<and> au_at a > 5 - 60000)" if "a \<in> set (st_audit sample_bound)" for a
      using bind [OF that] by simp
    then have "filter (\<lambda>a. au_endpoint a = Some ''b'' \<and> au_operation a = ''send''
        \<and> au_result a = ''accepted'' \<and> au_at a > 5 - 60000) (st_audit sample_bound) = []"
      unfolding filter_empty_conv by blast
    then show ?thesis by (simp only: count_where_def list.size)
  qed
  have target: "send_target sample_bound (sample_agent ''a'' ''ia'') ''b'' = Inr (bind_row ''b'' ''ib'' [] (sample_binding ''bob'') 0)"
    by (simp add: send_target_def find_endpoint_def sample_bound_endpoints bind_row_def sample_binding_def)
  have decision: "send_decision sample_bound (sample_agent ''a'' ''ia'') (bind_row ''b'' ''ib'' [] (sample_binding ''bob'') 0) ''b'' False
      = allow RuleAnyone"
    by (simp add: send_decision_def evaluate_def local_decision_def policy_of_def bind_row_def default_policy_def
        sample_agent_def)
  have row: "new_row sample_bound (sample_agent ''a'' ''ia'') sample_mail None (bind_row ''b'' ''ib'' [] (sample_binding ''bob'') 0)
      4 5 ''m'' ''c'' = sample_row"
    by (simp add: new_row_def sample_row_def sample_mail_def conversation_of_def expiry_def bind_row_def)
  have bytes: "charged_bytes sample_json sample_mail = 4"
    by (simp add: charged_bytes_def sample_json_def sample_mail_def or_empty_def i64_max_def)
  have digest: "draft_digest (\<lambda>s. hex (sample_sha s)) sample_json sample_mail = []"
    by (simp add: draft_digest_def sample_sha_def hex_def)
  have insert: "insert_message sample_row sample_bound = Inr (sample_bound\<lparr>st_messages := [sample_row]\<rparr>)"
    by (simp add: insert_message_Inr sample_bound_tables)
  have load: "load_message (accepted_store 5 ''agent:a'' [] RuleAnyone sample_mail sample_row
        (sample_bound\<lparr>st_messages := [sample_row]\<rparr>)) ''m'' = Inr (build_message sample_row)"
    by (simp add: load_message_def find_message_def accepted_store_def sample_row_def)
  have ins: "send_insert 5 ''agent:a'' [] RuleAnyone sample_mail sample_row sample_bound =
     (accepted_store 5 ''agent:a'' [] RuleAnyone sample_mail sample_row
        (sample_bound\<lparr>st_messages := [sample_row]\<rparr>), Inr (build_message sample_row))"
    using load unfolding send_insert_def insert or_return_simps Let_def accepted_store_def
    by (simp add: sample_row_def)
  have room: "\<not> mailbox_full (bind_row ''b'' ''ib'' [] (sample_binding ''bob'') 0) Request 4"
    by (simp add: mailbox_full_def count_cap_def byte_cap_def MAX_PENDING_COUNT_def MAX_PENDING_BYTES_def
        may_use_reserve_def bind_row_def)
  have rate: "\<not> rate_exceeded sample_bound (bind_row ''b'' ''ib'' [] (sample_binding ''bob'') 0) sample_mail 5"
    unfolding rate_exceeded_def recent_def sample_simps audit
    by (simp add: u32_count_def policy_of_def default_policy_def bind_row_def)
  have prior: "find_idempotency sample_bound s k = None" for s k
    by (simp add: find_idempotency_def sample_bound_tables)
  show ?thesis
    unfolding sample_send_def send_as_def sample_mail_ok or_return_simps require_peer_authority_def send_tx_def
    by (simp add: Let_def bytes digest target decision row ins prior send_is_reply_def
        rate room principal_key_def allow_def [symmetric])
qed

end
