(* ===== verification/StoreMail.thy ===== *)
theory StoreMail
  imports StoreSamples
begin

text \<open>
  The mailbox properties of the store: bounds and order in every reachable store, durability of
  accepted mail, exactly-once acceptance under retries, and what each refusal leaves.
\<close>

section \<open>Idempotency keys are never forgotten\<close>

lemma idempotency_simps [simp]:
  "st_idempotency (audit at m e o' old new r b res st) = st_idempotency st"
  "st_idempotency (set_endpoints P f st) = st_idempotency st"
  "st_idempotency (set_messages Q g st) = st_idempotency st"
  "st_idempotency (set_peers R h st) = st_idempotency st"
  "st_idempotency (recount i st) = st_idempotency st"
  "st_idempotency (fold recount is st) = st_idempotency st"
  "st_idempotency (requeue_proxy_claims p w st) = st_idempotency st"
  "st_idempotency (reclaim_lapsed now st) = st_idempotency st"
  "st_idempotency (take_message now lease consume x inc c st) = st_idempotency st"
  "st_idempotency (respond_retire now i x body oc st) = st_idempotency st"
  "st_idempotency (withdraw_one now msg st) = st_idempotency st"
  "st_idempotency (abandon_one now x msg st) = st_idempotency st"
proof -
  show "st_idempotency (fold recount is st) = st_idempotency st"
    by (induction "is" arbitrary: st) (simp_all add: recount_def set_endpoints_def)
qed (auto simp: audit_def set_endpoints_def set_messages_def set_peers_def recount_def requeue_proxy_claims_def
      reclaim_lapsed_def take_message_def respond_retire_def withdraw_one_def abandon_one_def retire_audit_def Let_def
      split: prod.splits)

lemma insert_idempotency:
  "insert_endpoint r st = Inr st' \<Longrightarrow> st_idempotency st' = st_idempotency st"
  "insert_proxy x st = Inr st' \<Longrightarrow> st_idempotency st' = st_idempotency st"
  "insert_peer q st = Inr st' \<Longrightarrow> st_idempotency st' = st_idempotency st"
  "insert_message m st = Inr st' \<Longrightarrow> st_idempotency st' = st_idempotency st"
  by (auto simp: insert_endpoint_def insert_proxy_def insert_peer_def insert_message_def split: if_splits)

lemma retire_proxy_idempotency: "st_idempotency (fst (retire_proxy now x acc)) = st_idempotency (fst acc)"
proof -
  have w: "st_idempotency (fold (withdraw_one now) todo st) = st_idempotency st" for todo st
    by (induction todo arbitrary: st) simp_all
  have a: "st_idempotency (fold (abandon_one now x) todo st) = st_idempotency st" for todo st
    by (induction todo arbitrary: st) simp_all
  show ?thesis by (simp add: retire_proxy_def Let_def w a split: prod.splits)
qed

lemma retire_peer_idempotency: "st_idempotency (fst (retire_peer now l st)) = st_idempotency st"
proof -
  have f: "st_idempotency (fst (fold (retire_proxy now) xs acc)) = st_idempotency (fst acc)" for xs acc
    by (induction xs arbitrary: acc) (simp_all add: retire_proxy_idempotency)
  show ?thesis
  proof (cases "live_peer_row st (\<lambda>r. pe_label r = Some l)")
    case (Some r)
    then show ?thesis
      using f [of "proxies_of st (pe_id r)" "(st, 0, 0)"]
      by (auto simp: retire_peer_def Let_def split: prod.splits)
  qed (simp add: retire_peer_def)
qed

lemma side_idempotency:
  "st_idempotency (fst (request_resolution now p sel st)) = st_idempotency st"
  "st_idempotency (fst (answer_resolution now p q ans st)) = st_idempotency st"
  "st_idempotency (fst (take_resolution q st)) = st_idempotency st"
  "st_idempotency (fst (record_attachment now c key pos x ra st)) = st_idempotency st"
  "st_idempotency (fst (delete_group name st)) = st_idempotency st"
  "st_idempotency (fst (open_group_send now fresh name c members st)) = st_idempotency st"
  "st_idempotency (record_activation now i e mode r res st) = st_idempotency st"
  "st_idempotency (attach_to_group_send i s st) = st_idempotency st"
  by (auto simp: request_resolution_def answer_resolution_def take_resolution_def record_attachment_def
      delete_group_def open_group_send_def or_return_def Let_def record_activation_def attach_to_group_send_def
      split: sum.splits option.splits)

lemma op_idempotency:
  "st_idempotency (fst (endpoint_bind sha now tb inc fresh b st)) = st_idempotency st"
  "st_idempotency (fst (endpoint_unbind now e inc st)) = st_idempotency st"
  "st_idempotency (fst (ensure_local_user now fresh st)) = st_idempotency st"
  "st_idempotency (fst (set_state now e s st)) = st_idempotency st"
  "st_idempotency (fst (change_endpoint e f st)) = st_idempotency st"
  "st_idempotency (fst (claim_tx now lease consume e inc st)) = st_idempotency st"
  "st_idempotency (fst (cancel_tx now i request st)) = st_idempotency st"
  "st_idempotency (fst (confirm_interrupt now i inc st)) = st_idempotency st"
  "st_idempotency (fst (sweep now st)) = st_idempotency st"
  "st_idempotency (fst (pin_peer now fresh l h st)) = st_idempotency st"
  "st_idempotency (fst (set_peer_trust now l tr st)) = st_idempotency st"
  "st_idempotency (fst (acquire_peer_lease p owner anchor ttl now st)) = st_idempotency st"
  "st_idempotency (fst (release_peer_lease now p owner st)) = st_idempotency st"
  "st_idempotency (fst (settle_outbound now c i failure st)) = st_idempotency st"
  "st_idempotency (fst (confirm_remote_cancel now c i s' st)) = st_idempotency st"
  by (auto simp: endpoint_bind_def endpoint_unbind_def ensure_local_user_def set_state_def change_endpoint_def
      claim_tx_def cancel_tx_def confirm_interrupt_def sweep_def pin_peer_def set_peer_trust_def
      acquire_peer_lease_def release_peer_lease_def settle_outbound_def confirm_remote_cancel_def
      or_return_def Let_def insert_idempotency split: sum.splits option.splits prod.splits)

lemma ensure_proxy_idempotency: "st_idempotency (fst (ensure_proxy now fresh p remote display st)) = st_idempotency st"
  by (auto simp: ensure_proxy_def create_proxy_def or_return_def Let_def insert_idempotency
      split: sum.splits option.splits)

lemma send_tx_idempotency:
  "\<exists>new. st_idempotency (fst (send_tx sha json now i conv c d origin st)) = st_idempotency st @ new"
proof -
  obtain st' res where eq: "send_tx sha json now i conv c d origin st = (st', res)"
    by (cases "send_tx sha json now i conv c d origin st")
  from send_tx_cases [OF eq] show ?thesis
    unfolding eq fst_conv
    by (elim disjE exE conjE) (auto simp: accepted_store_def remember_key_def dest: insert_idempotency)
qed

lemma txn_idempotency:
  assumes "txn sha json st st'"
  shows "\<exists>new. st_idempotency st' = st_idempotency st @ new"
  using assms
proof (cases rule: txn.cases)
  case (txn_send d now i conv c origin)
  then show ?thesis using send_tx_idempotency by simp
qed (simp_all add: op_idempotency side_idempotency ensure_proxy_idempotency retire_peer_idempotency
    set_group_tables set_capabilities_def set_address_def set_policy_def)

lemma run_idempotency: "(txn sha json)\<^sup>*\<^sup>* st st' \<Longrightarrow> \<exists>new. st_idempotency st' = st_idempotency st @ new"
proof (induction rule: rtranclp_induct)
  case (step t u)
  then obtain a b where "st_idempotency t = st_idempotency st @ a" "st_idempotency u = st_idempotency t @ b"
    using txn_idempotency by blast
  then show ?case by simp
qed simp

lemma find_idempotency_kept:
  assumes "(txn sha json)\<^sup>*\<^sup>* st st'" "find_idempotency st s k = Some r"
  shows "find_idempotency st' s k = Some r"
proof -
  obtain new where "st_idempotency st' = st_idempotency st @ new" using run_idempotency [OF assms(1)] by blast
  moreover have "List.find P (xs @ ys) = Some r" if "List.find P xs = Some r" for P xs ys
    using that by (induction xs) auto
  ultimately show ?thesis using assms(2) by (simp add: find_idempotency_def)
qed

end
