(* ===== verification/StoreProperties.thy ===== *)
theory StoreProperties
  imports StoreMail
begin

text \<open>
  The properties of sending: bounds and order in every reachable store, durability of accepted mail,
  exactly-once acceptance, and what an acceptance and a refusal mean.
\<close>

section \<open>Reachable stores\<close>

lemma reachable_good: "(txn sha json)\<^sup>*\<^sup>* (new_store h) st \<Longrightarrow> good {} st"
  using mail.reachable_inv by blast

text \<open>C3. Mailbox bounds. In every store any sequence of transactions can reach, an endpoint's pending
  counters are exactly the number and the charged bytes of its unfinished messages, and they never
  exceed 256 + 16 messages and 4 + 1 MiB: the quota cannot be overrun by any interleaving, and no
  path (answer, cancel, expiry, forgotten peer, settled forward) loses or leaks a charge.\<close>

theorem mailbox_bounds:
  assumes "(txn sha json)\<^sup>*\<^sup>* (new_store h) st" and "e \<in> set (st_endpoints st)"
  shows "er_pending_count e = pending_count_of (er_id e) (st_messages st)
    \<and> er_pending_bytes e = pending_bytes_of (er_id e) (st_messages st)
    \<and> er_pending_count e \<le> 272 \<and> er_pending_bytes e \<le> 5242880"
proof -
  have "counters_ok {} st" "caps_ok st" using goodD reachable_good [OF assms(1)] by blast+
  then show ?thesis
    using assms(2) by (simp add: counters_ok_def caps_ok_def MAX_PENDING_COUNT_def RESERVED_COUNT_def
        MAX_PENDING_BYTES_def RESERVED_BYTES_def)
qed

lemma sample_sent_tables:
  "st_messages sample_sent = [sample_row]"
  "st_endpoints sample_sent = [bind_row ''a'' ''ia'' [] (sample_binding ''alice'') 0,
     charge_row 4 (bind_row ''b'' ''ib'' [] (sample_binding ''bob'') 0)]"
  by (simp_all add: sample_sent_def sample_send_eq accepted_store_def sample_bound_endpoints bind_row_def charge_row_def)

lemma sample_sent_reachable: "(txn sample_sha sample_json)\<^sup>*\<^sup>* (new_store ''h'') sample_sent"
proof -
  have eq: "sample_sent = fst (send_tx (\<lambda>s. hex (sample_sha s)) sample_json 5 ''m'' ''c'' (sample_agent ''a'' ''ia'') sample_mail None sample_bound)"
    by (simp add: sample_sent_def sample_send_def send_as_def sample_mail_ok require_peer_authority_def)
  have "txn sample_sha sample_json sample_bound sample_sent"
    unfolding eq by (rule txn_send [OF sample_mail_ok])
  then show ?thesis by (rule rtranclp.rtrancl_into_rtrancl [OF sample_bound_reachable])
qed

theorem mailbox_bounds_witness:
  "er_pending_count (charge_row 4 (bind_row ''b'' ''ib'' [] (sample_binding ''bob'') 0)) = pending_count_of ''b'' (st_messages sample_sent)
   \<and> pending_count_of ''b'' (st_messages sample_sent) = 1"
proof -
  have "charge_row 4 (bind_row ''b'' ''ib'' [] (sample_binding ''bob'') 0) \<in> set (st_endpoints sample_sent)"
    by (simp add: sample_sent_tables)
  from mailbox_bounds [OF sample_sent_reachable this] show ?thesis
    by (simp add: sample_sent_tables charge_row_def bind_row_def is_pending_def)
qed

text \<open>C4. Order and identity. In every reachable store message ids are unique, every message is addressed
  to an endpoint that exists, no two messages of a mailbox share a sequence number, and every number
  handed out is below the endpoint's next one, so numbers are never reused.\<close>

theorem mailbox_order:
  assumes "(txn sha json)\<^sup>*\<^sup>* (new_store h) st"
  shows "distinct (map mr_id (st_messages st)) \<and> distinct (map er_id (st_endpoints st))
    \<and> distinct (map (\<lambda>m. (mr_to m, mr_sequence m)) (st_messages st))
    \<and> (\<forall>m \<in> set (st_messages st). \<exists>e. find_endpoint st (mr_to m) = Some e \<and> mr_sequence m < er_next_sequence e)"
proof -
  have slots: "slots_ok st" using goodD reachable_good [OF assms] by blast
  have "\<exists>e. find_endpoint st (mr_to m) = Some e \<and> mr_sequence m < er_next_sequence e"
    if m: "m \<in> set (st_messages st)" for m
  proof -
    have "mr_to m \<in> er_id ` set (st_endpoints st)" using slots m unfolding slots_ok_def by blast
    then obtain e where e: "find_endpoint st (mr_to m) = Some e"
      unfolding find_endpoint_def by (cases "lookup_by er_id (mr_to m) (st_endpoints st)") (auto simp: lookup_by_None)
    then have "e \<in> set (st_endpoints st)" "er_id e = mr_to m"
      using lookup_by_Some unfolding find_endpoint_def by metis+
    then show ?thesis using slots m e by (simp add: slots_ok_def)
  qed
  then show ?thesis using slots by (simp add: slots_ok_def)
qed

theorem mailbox_order_witness:
  "distinct (map (\<lambda>m. (mr_to m, mr_sequence m)) (st_messages sample_sent)) \<and> st_messages sample_sent \<noteq> []"
  using mailbox_order [OF sample_sent_reachable] by (simp add: sample_sent_tables)



section \<open>Exactly once\<close>

lemma find_idempotency_mem: "find_idempotency st s k = Some r \<Longrightarrow> r \<in> set (st_idempotency st) \<and> id_sender r = s \<and> id_key r = k"
  by (auto simp: find_idempotency_def find_Some_iff)

lemma send_tx_remembers:
  assumes "send_tx sha json now i conv c d origin st = (st', Inr m)"
  shows "\<exists>r. find_idempotency st' (principal_key (cl_principal c)) (d_key d) = Some r
    \<and> id_digest r = draft_digest sha json d \<and> load_message st' (id_message r) = Inr m"
proof (cases "find_idempotency st (principal_key (cl_principal c)) (d_key d)")
  case (Some r)
  then have "st' = st \<and> id_digest r = draft_digest sha json d \<and> load_message st (id_message r) = Inr m"
    using assms by (auto simp: send_tx_def send_replay_def split: if_splits)
  with Some show ?thesis by blast
next
  case None
  show ?thesis
  proof (cases "send_target st c (d_to d)")
    case (Inr t)
    show ?thesis
    proof (cases "send_is_reply st c d")
      case reply: (Inr is_reply)
      then obtain r0 row where ins: "send_insert now (principal_key (cl_principal c)) (draft_digest sha json d) r0 d row st = (st', Inr m)"
        and row: "mr_id row = i"
        using assms None Inr by (auto simp: send_tx_def Let_def send_refused_def split: if_splits)
      from send_insert_cases [OF ins] obtain st1 where st1: "insert_message row st = Inr st1"
        "st' = accepted_store now (principal_key (cl_principal c)) (draft_digest sha json d) r0 d row st1"
        "load_message st' i = Inr m"
        by (auto simp: row)
      have keys: "st_idempotency st1 = st_idempotency st" using insert_idempotency(4) [OF st1(1)] .
      have none: "\<not> (id_sender x = principal_key (cl_principal c) \<and> id_key x = d_key d)" if "x \<in> set (st_idempotency st)" for x
        using None that by (auto simp: find_idempotency_def find_None_iff)
      let ?new = "\<lparr>id_sender = principal_key (cl_principal c), id_key = d_key d, id_digest = draft_digest sha json d,
          id_message = i, id_created_at = now\<rparr>"
      have "List.find P (xs @ [y]) = Some y" if "\<And>x. x \<in> set xs \<Longrightarrow> \<not> P x" "P y" for P xs and y :: idempotency_row
        using that by (induction xs) auto
      then have "find_idempotency st' (principal_key (cl_principal c)) (d_key d) = Some ?new"
        unfolding find_idempotency_def st1(2) using none
        by (simp add: accepted_store_def remember_key_def row keys)
      then show ?thesis using st1(3) by (intro exI [of _ ?new]) simp
    qed (use assms None Inr in \<open>simp add: send_tx_def\<close>)
  qed (use assms None in \<open>simp add: send_tx_def\<close>)
qed

lemma send_tx_replays:
  assumes "find_idempotency st (principal_key (cl_principal c)) (d_key d) = Some r"
    and "id_digest r = draft_digest sha json d"
  shows "send_tx sha json now i conv c d origin st = (st, load_message st (id_message r))"
  using assms by (simp add: send_tx_def send_replay_def)

text \<open>C1. Exactly once. If a send succeeded, then a retry of the same draft by the same sender, at any
  later time and after any transactions of any processes in between, returns the message with the
  same id and content and changes nothing at all; and a different draft under the same key is refused
  as a conflict without touching mail, mailboxes or keys.\<close>

theorem send_exactly_once:
  assumes reach: "(txn s json)\<^sup>*\<^sup>* (new_store h) st"
    and sent: "send_as (\<lambda>x. hex (s x)) json now i conv c d origin st = (st1, Inr m)"
    and later: "(txn s json)\<^sup>*\<^sup>* st1 st2"
    and valid: "draft_validate d' = Inr ()" "d_key d' = d_key d" "principal_key (cl_principal c') = principal_key (cl_principal c)"
    and live: "require_peer_authority st2 now' c' = Inr ()"
  shows "(draft_digest (\<lambda>x. hex (s x)) json d' = draft_digest (\<lambda>x. hex (s x)) json d \<longrightarrow>
      (\<exists>m'. send_as (\<lambda>x. hex (s x)) json now' i' conv' c' d' origin' st2 = (st2, Inr m')
         \<and> msg_id m' = msg_id m \<and> msg_text m' = msg_text m \<and> msg_to m' = msg_to m \<and> msg_sequence m' = msg_sequence m))
    \<and> (draft_digest (\<lambda>x. hex (s x)) json d' \<noteq> draft_digest (\<lambda>x. hex (s x)) json d \<longrightarrow>
      (\<exists>st3. send_as (\<lambda>x. hex (s x)) json now' i' conv' c' d' origin' st2 = (st3, Inl IdempotencyConflict)
         \<and> st_messages st3 = st_messages st2 \<and> st_endpoints st3 = st_endpoints st2 \<and> st_idempotency st3 = st_idempotency st2))"
proof -
  have tx: "send_tx (\<lambda>x. hex (s x)) json now i conv c d origin st = (st1, Inr m)"
    and ok: "draft_validate d = Inr ()"
    using sent by (auto simp: send_as_def or_return_ok)
  have step: "txn s json st st1" using txn_send [OF ok, of s json st now i conv c origin] tx by simp
  obtain r where r: "find_idempotency st1 (principal_key (cl_principal c)) (d_key d) = Some r"
    "id_digest r = draft_digest (\<lambda>x. hex (s x)) json d" "load_message st1 (id_message r) = Inr m"
    using send_tx_remembers [OF tx] by blast
  have kept: "find_idempotency st2 (principal_key (cl_principal c')) (d_key d') = Some r"
    using find_idempotency_kept [OF later r(1)] valid by simp
  have good1: "good {} st1" using txn_good [OF reachable_good [OF reach] step] by simp
  obtain row where row: "lookup_by mr_id (id_message r) (st_messages st1) = Some row" "m = build_message row"
    using r(3) by (auto simp: load_message_Inr find_message_def)
  obtain n where n: "lookup_by mr_id (id_message r) (st_messages st2) = Some n" "row_evolves row n"
    using mail_evolves_lookup [OF mail.run_le [OF later good1] row(1)] by blast
  have c: "content n = content row" using n(2) by (simp add: row_evolves_def)
  have load: "load_message st2 (id_message r) = Inr (build_message n)"
    using n(1) by (simp add: load_message_def find_message_def)
  have same: "msg_id (build_message n) = msg_id m \<and> msg_text (build_message n) = msg_text m
      \<and> msg_to (build_message n) = msg_to m \<and> msg_sequence (build_message n) = msg_sequence m"
    using content_eqD [OF c] by (simp add: row(2))
  have tx2: "send_as (\<lambda>x. hex (s x)) json now' i' conv' c' d' origin' st2
      = send_tx (\<lambda>x. hex (s x)) json now' i' conv' c' d' origin' st2"
    by (simp add: send_as_def valid(1) live)
  show ?thesis
  proof (cases "draft_digest (\<lambda>x. hex (s x)) json d' = draft_digest (\<lambda>x. hex (s x)) json d")
    case True
    then show ?thesis using same load by (simp add: tx2 send_tx_replays [OF kept] r(2))
  next
    case False
    then show ?thesis using kept r(2) by (simp add: tx2 send_tx_def send_replay_def)
  qed
qed

theorem send_exactly_once_witness:
  "\<exists>m'. sample_send (fst (sweep 9 sample_sent)) = (fst (sweep 9 sample_sent), Inr m') \<and> msg_id m' = ''m''"
proof -
  have sent: "send_as (\<lambda>x. hex (sample_sha x)) sample_json 5 ''m'' ''c'' (sample_agent ''a'' ''ia'') sample_mail None sample_bound
      = (sample_sent, Inr (build_message sample_row))"
    using sample_send_eq by (simp add: sample_sent_def sample_send_def)
  have later: "(txn sample_sha sample_json)\<^sup>*\<^sup>* sample_sent (fst (sweep 9 sample_sent))"
    by (rule r_into_rtranclp) (rule txn_sweep)
  have live: "require_peer_authority (fst (sweep 9 sample_sent)) 5 (sample_agent ''a'' ''ia'') = Inr ()"
    by (simp add: require_peer_authority_def)
  show ?thesis
    using send_exactly_once [OF sample_bound_reachable sent later sample_mail_ok refl refl live, of "''m''" "''c''" None]
    by (auto simp: sample_send_def)
qed

end
