(* ===== verification/StoreDirectory.thy ===== *)
theory StoreDirectory
  imports StoreProperties
begin

text \<open>
  The invariant of the directory: endpoints keep their identity, peers are pinned uniquely, every
  remote agent has one proxy, no process can hold a proxy's token, and mail is never relayed from
  one peer to another.
\<close>

section \<open>The invariant\<close>

definition identity :: "endpoint_row \<Rightarrow> opaque \<times> alias_name option \<times> runtime_kind \<times> opaque" where
  "identity e = (er_id e, er_alias e, er_kind e, er_instance e)"

definition proxies_ok :: "endpoint_row list \<Rightarrow> proxy_row list \<Rightarrow> peer_row list \<Rightarrow> bool" where
  "proxies_ok es xs ps \<longleftrightarrow>
     distinct (map er_id es)
     \<and> (\<forall>e \<in> set es. er_kind e = PeerRuntime \<longrightarrow> er_token_hash e = None \<and> er_alias e = None
          \<and> er_id e \<in> px_endpoint ` set xs)
     \<and> (\<forall>x \<in> set xs. \<exists>e \<in> set es. er_id e = px_endpoint x \<and> er_kind e = PeerRuntime \<and> er_instance e = px_peer x)
     \<and> distinct (map px_endpoint xs) \<and> distinct (map (\<lambda>x. (px_peer x, px_remote x)) xs)
     \<and> px_peer ` set xs \<subseteq> pe_id ` set ps"

definition peers_ok :: "opaque \<Rightarrow> peer_row list \<Rightarrow> bool" where
  "peers_ok host ps \<longleftrightarrow>
     distinct (map pe_id ps)
     \<and> (\<forall>p \<in> set ps. pe_host p \<noteq> host \<and> (pe_retired p \<longleftrightarrow> pe_label p = None))
     \<and> (\<forall>p \<in> set ps. \<forall>q \<in> set ps. \<not> pe_retired p \<and> \<not> pe_retired q \<and> (pe_label p = pe_label q \<or> pe_host p = pe_host q)
          \<longrightarrow> pe_id p = pe_id q)"

definition no_relay :: "endpoint_row list \<Rightarrow> message_row list \<Rightarrow> bool" where
  "no_relay es ms \<longleftrightarrow>
     (\<forall>m \<in> set ms. pr_kind (mr_from m) = PeerPrincipal \<longrightarrow>
        (\<exists>e \<in> set es. er_id e = mr_to m \<and> er_kind e \<noteq> PeerRuntime))"

definition directory_ok :: "store \<Rightarrow> bool" where
  "directory_ok st \<longleftrightarrow>
     proxies_ok (st_endpoints st) (st_proxies st) (st_peers st) \<and> peers_ok (st_host st) (st_peers st)
     \<and> no_relay (st_endpoints st) (st_messages st)"

text \<open>Updates of an endpoint that keep its identity and mint no token, and of a peer that keep its pin.\<close>

definition calm :: "(endpoint_row \<Rightarrow> endpoint_row) \<Rightarrow> bool" where
  "calm f \<longleftrightarrow> (\<forall>e. identity (f e) = identity e \<and> (er_token_hash (f e) = er_token_hash e \<or> er_token_hash (f e) = None))"

definition pin_kept :: "(peer_row \<Rightarrow> peer_row) \<Rightarrow> bool" where
  "pin_kept f \<longleftrightarrow> (\<forall>p. pe_id (f p) = pe_id p \<and> pe_label (f p) = pe_label p \<and> pe_host (f p) = pe_host p
     \<and> pe_retired (f p) = pe_retired p)"

lemma calm_updates [simp]:
  "calm (offline_row now)" "calm (reopen_row inc now)" "calm (state_row s now)" "calm (capabilities_row c now)"
  "calm (address_row a now)" "calm (policy_row p now)" "calm (close_row now)" "calm (shut_row now)"
  "calm (set_counts n b)" "calm (uncharge_row k)" "calm (charge_row b)"
  by (simp_all add: calm_def identity_def offline_row_def reopen_row_def state_row_def capabilities_row_def
      address_row_def policy_row_def close_row_def shut_row_def set_counts_def uncharge_row_def charge_row_def)

lemma pin_kept_updates [simp]:
  "pin_kept (trust_row b now)" "pin_kept (lease_row owner until anchor now)" "pin_kept (unlease_row now)"
  by (simp_all add: pin_kept_def trust_row_def lease_row_def unlease_row_def)

lemma update_where_ex:
  assumes "\<And>e. P e \<Longrightarrow> Q (f e) = Q e"
  shows "(\<exists>e \<in> set (update_where P f es). Q e) \<longleftrightarrow> (\<exists>e \<in> set es. Q e)"
  using assms by (induction es) auto

lemma update_where_all:
  assumes "\<And>e. e \<in> set es \<Longrightarrow> Q e \<Longrightarrow> P e \<Longrightarrow> Q (f e)" "\<forall>e \<in> set es. Q e"
  shows "\<forall>e \<in> set (update_where P f es). Q e"
  using assms by (induction es) auto

lemma proxies_ok_endpoints:
  assumes "proxies_ok es xs ps"
    and "\<And>e. P e \<Longrightarrow> identity (f e) = identity e"
    and "\<And>e. P e \<Longrightarrow> e \<in> set es \<Longrightarrow> er_kind e = PeerRuntime \<Longrightarrow> er_token_hash e = None \<Longrightarrow> er_token_hash (f e) = None"
  shows "proxies_ok (update_where P f es) xs ps"
proof -
  have id: "P e \<Longrightarrow> er_id (f e) = er_id e" "P e \<Longrightarrow> er_kind (f e) = er_kind e" "P e \<Longrightarrow> er_alias (f e) = er_alias e"
    "P e \<Longrightarrow> er_instance (f e) = er_instance e" for e
    using assms(2) [of e] by (simp_all add: identity_def)
  have ids: "map er_id (update_where P f es) = map er_id es"
    by (induction es) (auto simp: id)
  have ex: "(\<exists>e \<in> set (update_where P f es). er_id e = i \<and> er_kind e = PeerRuntime \<and> er_instance e = p)
      \<longleftrightarrow> (\<exists>e \<in> set es. er_id e = i \<and> er_kind e = PeerRuntime \<and> er_instance e = p)" for i p
    by (rule update_where_ex) (simp add: id)
  have all: "\<forall>e \<in> set (update_where P f es). er_kind e = PeerRuntime \<longrightarrow> er_token_hash e = None \<and> er_alias e = None
      \<and> er_id e \<in> px_endpoint ` set xs"
    using assms(1,3) id by (intro update_where_all) (auto simp: proxies_ok_def)
  show ?thesis using assms(1) all by (simp add: proxies_ok_def ids ex)
qed

lemma no_relay_endpoints:
  assumes "no_relay es ms" "\<And>e. P e \<Longrightarrow> identity (f e) = identity e"
  shows "no_relay (update_where P f es) ms"
proof -
  have id: "P e \<Longrightarrow> er_id (f e) = er_id e" "P e \<Longrightarrow> er_kind (f e) = er_kind e" for e
    using assms(2) [of e] by (simp_all add: identity_def)
  have "(\<exists>e \<in> set (update_where P f es). er_id e = i \<and> er_kind e \<noteq> PeerRuntime)
      \<longleftrightarrow> (\<exists>e \<in> set es. er_id e = i \<and> er_kind e \<noteq> PeerRuntime)" for i
    by (rule update_where_ex) (simp add: id)
  with assms(1) show ?thesis by (simp add: no_relay_def)
qed

lemma no_relay_mail:
  assumes "no_relay es ms" "map content ns = map content ms"
  shows "no_relay es ns"
proof -
  have "(\<lambda>m. (mr_from m, mr_to m)) ` set ns = (\<lambda>m. (mr_from m, mr_to m)) ` content ` set ns"
    by (simp add: image_image)
  also have "\<dots> = (\<lambda>m. (mr_from m, mr_to m)) ` content ` set ms"
    using arg_cong [OF assms(2), of set] by simp
  finally have same: "(\<lambda>m. (mr_from m, mr_to m)) ` set ns = (\<lambda>m. (mr_from m, mr_to m)) ` set ms"
    by (simp add: image_image)
  have "\<exists>m \<in> set ms. mr_from m = mr_from n \<and> mr_to m = mr_to n" if "n \<in> set ns" for n
  proof -
    have "(mr_from n, mr_to n) \<in> (\<lambda>m. (mr_from m, mr_to m)) ` set ms"
      unfolding same [symmetric] using that by (rule imageI)
    then show ?thesis by auto
  qed
  then show ?thesis using assms(1) unfolding no_relay_def by metis
qed

lemma calmD:
  "calm f \<Longrightarrow> identity (f e) = identity e"
  "calm f \<Longrightarrow> er_token_hash e = None \<Longrightarrow> er_token_hash (f e) = None"
  unfolding calm_def by (blast, metis)

lemma directory_set_endpoints:
  assumes "directory_ok st" "calm f"
  shows "directory_ok (set_endpoints P f st)"
proof -
  have "proxies_ok (update_where P f (st_endpoints st)) (st_proxies st) (st_peers st)"
    using assms by (intro proxies_ok_endpoints) (auto simp: directory_ok_def calmD)
  moreover have "no_relay (update_where P f (st_endpoints st)) (st_messages st)"
    using assms by (intro no_relay_endpoints) (auto simp: directory_ok_def calmD)
  ultimately show ?thesis
    using assms(1) by (simp add: directory_ok_def set_endpoints_def)
qed

lemma directory_set_messages:
  assumes "directory_ok st" "\<And>m. content (f m) = content m"
  shows "directory_ok (set_messages P f st)"
proof -
  have "map content (update_where P f (st_messages st)) = map content (st_messages st)"
    by (rule map_update_where) (rule assms(2))
  then show ?thesis
    using assms(1) no_relay_mail by (auto simp: directory_ok_def set_messages_def)
qed

lemma directory_set_peers:
  assumes "directory_ok st" "pin_kept f"
  shows "directory_ok (set_peers P f st)"
proof -
  let ?ps = "update_where P f (st_peers st)"
  have kept: "pe_id (f p) = pe_id p" "pe_label (f p) = pe_label p" "pe_host (f p) = pe_host p" "pe_retired (f p) = pe_retired p" for p
    using assms(2) by (simp_all add: pin_kept_def)
  have ids: "map pe_id ?ps = map pe_id (st_peers st)" by (rule map_update_where) (rule kept)
  have "\<exists>p \<in> set (st_peers st). pe_id q = pe_id p \<and> pe_label q = pe_label p \<and> pe_host q = pe_host p \<and> pe_retired q = pe_retired p"
    if "q \<in> set ?ps" for q
    using that kept unfolding set_update_where by fastforce
  moreover have "peers_ok (st_host st) (st_peers st)" using assms(1) by (simp add: directory_ok_def)
  ultimately have "peers_ok (st_host st) ?ps"
    unfolding peers_ok_def ids by (metis (no_types, lifting))
  then show ?thesis
    using assms(1) arg_cong [OF ids, of set] by (simp add: directory_ok_def set_peers_def proxies_ok_def)
qed

lemma directory_cong:
  "st_endpoints st' = st_endpoints st \<Longrightarrow> st_messages st' = st_messages st \<Longrightarrow> st_proxies st' = st_proxies st
   \<Longrightarrow> st_peers st' = st_peers st \<Longrightarrow> st_host st' = st_host st \<Longrightarrow> directory_ok st' = directory_ok st"
  by (simp add: directory_ok_def)

lemma directory_audit [simp]: "directory_ok (audit at m e o' old new r b res st) = directory_ok st"
  by (rule directory_cong) (simp_all add: audit_def)

lemma directory_remember [simp]: "directory_ok (remember_key s d dg i n st) = directory_ok st"
  by (rule directory_cong) (simp_all add: remember_key_def)

lemma directory_recount: "directory_ok st \<Longrightarrow> directory_ok (recount i st)"
  unfolding recount_def by (rule directory_set_endpoints) simp_all

lemma directory_fold_recount: "directory_ok st \<Longrightarrow> directory_ok (fold recount is st)"
  by (induction "is" arbitrary: st) (simp_all add: directory_recount)

lemma directory_requeue: "directory_ok st \<Longrightarrow> directory_ok (requeue_proxy_claims p w st)"
  unfolding requeue_proxy_claims_def by (rule directory_set_messages) simp_all

lemmas directory_intros = directory_set_endpoints directory_set_messages directory_set_peers directory_recount
  directory_fold_recount directory_requeue

section \<open>Every transaction keeps it\<close>

lemma directory_insert_endpoint:
  assumes "directory_ok st" "insert_endpoint r st = Inr st'" "er_kind r \<noteq> PeerRuntime"
  shows "directory_ok st'"
proof -
  have st': "st' = st\<lparr>st_endpoints := st_endpoints st @ [r]\<rparr>" and new: "er_id r \<notin> er_id ` set (st_endpoints st)"
    using assms(2) by (auto simp: insert_endpoint_def find_endpoint_def lookup_by_None split: if_splits)
  have px: "\<exists>e \<in> set (st_endpoints st @ [r]). er_id e = i \<and> er_kind e = PeerRuntime \<and> er_instance e = p"
    if "\<exists>e \<in> set (st_endpoints st). er_id e = i \<and> er_kind e = PeerRuntime \<and> er_instance e = p" for i p
    using that by auto
  have "proxies_ok (st_endpoints st @ [r]) (st_proxies st) (st_peers st)"
    using assms(1,3) new px by (auto simp: directory_ok_def proxies_ok_def)
  moreover have "no_relay (st_endpoints st @ [r]) (st_messages st)"
    using assms(1) unfolding directory_ok_def no_relay_def by (metis Un_iff set_append)
  ultimately show ?thesis using assms(1) by (simp add: directory_ok_def st')
qed

lemma slot_of_Some: "slot_of st a inst = Some r \<Longrightarrow> r \<in> set (st_endpoints st) \<and> er_alias r = Some a \<and> er_instance r = inst"
  by (auto simp: slot_of_def find_Some_iff)

lemma directory_rebind:
  assumes "directory_ok st" "r \<in> set (st_endpoints st)" "er_alias r = Some a"
  shows "directory_ok (set_endpoints (\<lambda>e. er_id e = er_id r) (rebind_row inc hash b now) st)"
proof -
  have id: "identity (rebind_row inc hash b now e) = identity e" for e
    by (simp add: identity_def rebind_row_def)
  have dist: "distinct (map er_id (st_endpoints st))" and pok: "proxies_ok (st_endpoints st) (st_proxies st) (st_peers st)"
    using assms(1) by (simp_all add: directory_ok_def proxies_ok_def)
  have "er_kind e \<noteq> PeerRuntime" if "e \<in> set (st_endpoints st)" "er_id e = er_id r" for e
  proof -
    have "e = r" using dist that assms(2) by (auto simp: distinct_map inj_on_def)
    then show ?thesis using pok assms(2,3) by (auto simp: proxies_ok_def)
  qed
  then have "proxies_ok (update_where (\<lambda>e. er_id e = er_id r) (rebind_row inc hash b now) (st_endpoints st)) (st_proxies st) (st_peers st)"
    by (intro proxies_ok_endpoints [OF pok] id) auto
  moreover have "no_relay (update_where (\<lambda>e. er_id e = er_id r) (rebind_row inc hash b now) (st_endpoints st)) (st_messages st)"
    using assms(1) by (intro no_relay_endpoints id) (simp add: directory_ok_def)
  ultimately show ?thesis using assms(1) by (simp add: directory_ok_def set_endpoints_def)
qed

lemma directory_bind: "directory_ok st \<Longrightarrow> directory_ok (fst (endpoint_bind sha now tb inc fresh b st))"
proof -
  assume ok: "directory_ok st"
  have new: "insert_endpoint (bind_row fresh inc h b now) st = Inr st' \<Longrightarrow> loc_kind (bi_locator b) \<noteq> PeerRuntime \<Longrightarrow> directory_ok st'"
    for h st' using directory_insert_endpoint [OF ok] by (simp add: bind_row_def)
  have re: "directory_ok (set_endpoints (\<lambda>e. er_id e = er_id r) (rebind_row inc h b now) st)"
    if "(case bi_alias b of Some a \<Rightarrow> slot_of st a (loc_instance_id (bi_locator b)) | None \<Rightarrow> None) = Some r" for r h
    using that slot_of_Some directory_rebind [OF ok] by (auto split: option.splits)
  show ?thesis
    using ok new re
    by (auto simp: endpoint_bind_def Let_def or_return_def split: option.split sum.split)
qed

lemma directory_ensure_local_user: "directory_ok st \<Longrightarrow> directory_ok (fst (ensure_local_user now fresh st))"
proof -
  assume ok: "directory_ok st"
  have new: "insert_endpoint (local_row fresh now) st = Inr st' \<Longrightarrow> directory_ok st'" for st'
    using directory_insert_endpoint [OF ok] by (simp add: local_row_def)
  show ?thesis
    using ok new by (auto simp: ensure_local_user_def or_return_def directory_set_endpoints split: option.split sum.split)
qed

lemma directory_simple:
  "directory_ok st \<Longrightarrow> directory_ok (fst (endpoint_unbind now e inc st))"
  "directory_ok st \<Longrightarrow> directory_ok (fst (set_state now e s st))"
  "directory_ok st \<Longrightarrow> calm f \<Longrightarrow> directory_ok (fst (change_endpoint e f st))"
  "directory_ok st \<Longrightarrow> directory_ok (respond_retire now i e body oc st)"
  "directory_ok st \<Longrightarrow> directory_ok (fst (cancel_tx now i request st))"
  "directory_ok st \<Longrightarrow> directory_ok (fst (confirm_interrupt now i inc st))"
  "directory_ok st \<Longrightarrow> directory_ok (fst (sweep now st))"
  "directory_ok st \<Longrightarrow> directory_ok (fst (set_peer_trust now l tr st))"
  "directory_ok st \<Longrightarrow> directory_ok (fst (acquire_peer_lease p owner anchor ttl now st))"
  "directory_ok st \<Longrightarrow> directory_ok (fst (release_peer_lease now p owner st))"
  "directory_ok st \<Longrightarrow> directory_ok (fst (settle_outbound now c i failure st))"
  "directory_ok st \<Longrightarrow> directory_ok (fst (confirm_remote_cancel now c i s' st))"
  "directory_ok st \<Longrightarrow> directory_ok (record_activation now i e mode r res st)"
  "directory_ok st \<Longrightarrow> directory_ok (attach_to_group_send i g st)"
  by (auto simp: endpoint_unbind_def set_state_def change_endpoint_def respond_retire_def cancel_tx_def
      confirm_interrupt_def sweep_def reclaim_lapsed_def set_peer_trust_def acquire_peer_lease_def release_peer_lease_def
      settle_outbound_def confirm_remote_cancel_def record_activation_def attach_to_group_send_def
      or_return_def Let_def directory_intros split: option.split sum.split prod.split)

lemma directory_claim: "directory_ok st \<Longrightarrow> directory_ok (fst (claim_tx now lease consume e inc st))"
proof -
  assume "directory_ok st"
  then have one: "directory_ok (reclaim_lapsed now st)" by (simp add: reclaim_lapsed_def directory_intros)
  then have "directory_ok (take_message now lease consume e inc c (reclaim_lapsed now st))" for c
    by (cases c) (simp add: take_message_def Let_def directory_intros)
  with one \<open>directory_ok st\<close> show ?thesis
    by (auto simp: claim_tx_def or_return_def Let_def split: option.split sum.split)
qed

lemma directory_send:
  assumes "directory_ok st"
  shows "directory_ok (fst (send_tx sha json now i conv c d origin st))"
proof -
  obtain st' res where eq: "send_tx sha json now i conv c d origin st = (st', res)"
    by (cases "send_tx sha json now i conv c d origin st")
  have frame: "st_proxies st' = st_proxies st \<and> st_peers st' = st_peers st \<and> st_host st' = st_host st"
    using eq
    by (auto simp: send_tx_def send_replay_def send_refused_def send_insert_def Let_def or_return_def audit_def
        remember_key_def set_endpoints_def insert_message_def split: option.splits sum.splits if_splits)
  from send_tx_cases [OF eq] have "directory_ok st'"
  proof (elim disjE exE conjE)
    assume "st_messages st' = st_messages st" "st_endpoints st' = st_endpoints st"
    then show ?thesis using directory_cong [of st' st] frame assms by simp
  next
    fix t is_reply st1
    assume t: "send_target st c (d_to d) = Inr t"
      and ins: "insert_message (new_row st c d origin t (charged_bytes json d) now i conv) st = Inr st1"
      and st': "st' = accepted_store now (principal_key (cl_principal c)) (draft_digest sha json d)
             (dec_rule (send_decision st c t (d_to d) is_reply)) d
             (new_row st c d origin t (charged_bytes json d) now i conv) st1"
    have st1: "st1 = st\<lparr>st_messages := st_messages st @ [new_row st c d origin t (charged_bytes json d) now i conv]\<rparr>"
      using ins by (simp add: insert_message_Inr)
    have "t \<in> set (st_endpoints st)" "er_id t = d_to d"
      using send_target_find [OF t] lookup_by_Some unfolding find_endpoint_def by metis+
    moreover have "pr_kind (cl_principal c) = PeerPrincipal \<Longrightarrow> er_kind t \<noteq> PeerRuntime"
      using t by (auto simp: send_target_def split: option.splits if_splits)
    ultimately have "no_relay (st_endpoints st) (st_messages st1)"
      using assms by (auto simp: directory_ok_def no_relay_def st1)
    then have "directory_ok st1" using assms by (simp add: directory_ok_def st1)
    then show ?thesis unfolding st' accepted_store_def by (simp add: directory_intros)
  qed
  then show ?thesis by (simp add: eq)
qed

lemma live_peer_row_Some:
  "live_peer_row st P = Some r \<Longrightarrow> r \<in> set (st_peers st) \<and> P r \<and> \<not> pe_retired r"
  by (auto simp: live_peer_row_def find_Some_iff)

lemma live_peer_row_None:
  "live_peer_row st P = None \<Longrightarrow> r \<in> set (st_peers st) \<Longrightarrow> \<not> pe_retired r \<Longrightarrow> \<not> P r"
  by (auto simp: live_peer_row_def find_None_iff)

lemma directory_pin:
  assumes "directory_ok st"
  shows "directory_ok (fst (pin_peer now fresh l h st))"
proof -
  have "directory_ok st1"
    if ins: "insert_peer (pinned_row fresh l h now) st = Inr st1" and "h \<noteq> st_host st"
      and label: "live_peer_row st (\<lambda>r. pe_label r = Some l) = None"
      and host: "live_peer_row st (\<lambda>r. pe_host r = h) = None" for st1
  proof -
    have st1: "st1 = st\<lparr>st_peers := st_peers st @ [pinned_row fresh l h now]\<rparr>"
      and new: "fresh \<notin> pe_id ` set (st_peers st)"
      using ins by (auto simp: insert_peer_def find_peer_def lookup_by_None pinned_row_def split: if_splits)
    have other: "pe_label p \<noteq> Some l \<and> pe_host p \<noteq> h" if "p \<in> set (st_peers st)" "\<not> pe_retired p" for p
      using live_peer_row_None [OF label that] live_peer_row_None [OF host that] by simp
    let ?p = "pinned_row fresh l h now"
    have row: "pe_id ?p = fresh" "pe_label ?p = Some l" "pe_host ?p = h" "\<not> pe_retired ?p"
      by (simp_all add: pinned_row_def)
    have old: "peers_ok (st_host st) (st_peers st)" using assms by (simp add: directory_ok_def)
    have "pe_id a = pe_id b"
      if "a \<in> set (st_peers st @ [?p])" "b \<in> set (st_peers st @ [?p])" "\<not> pe_retired a" "\<not> pe_retired b"
        "pe_label a = pe_label b \<or> pe_host a = pe_host b" for a b
    proof (cases "a \<in> set (st_peers st)"; cases "b \<in> set (st_peers st)")
      assume "a \<in> set (st_peers st)" "b \<in> set (st_peers st)"
      then show ?thesis using old that(3-5) unfolding peers_ok_def by blast
    next
      assume a: "a \<in> set (st_peers st)" "b \<notin> set (st_peers st)"
      then have "b = ?p" using that(2) by simp
      then show ?thesis using other [OF a(1) that(3)] that(5) row by simp
    next
      assume b: "a \<notin> set (st_peers st)" "b \<in> set (st_peers st)"
      then have "a = ?p" using that(1) by simp
      then show ?thesis using other [OF b(2) that(4)] that(5) row by auto
    next
      assume "a \<notin> set (st_peers st)" "b \<notin> set (st_peers st)"
      then show ?thesis using that(1,2) by simp
    qed
    moreover have "distinct (map pe_id (st_peers st @ [?p]))" using old new row(1) by (simp add: peers_ok_def)
    moreover have "\<forall>q \<in> set (st_peers st @ [?p]). pe_host q \<noteq> st_host st \<and> (pe_retired q \<longleftrightarrow> pe_label q = None)"
      using old row \<open>h \<noteq> st_host st\<close> by (auto simp: peers_ok_def)
    ultimately have "peers_ok (st_host st) (st_peers st @ [?p])"
      unfolding peers_ok_def by blast
    then show ?thesis
      using assms by (auto simp: directory_ok_def st1 proxies_ok_def)
  qed
  then show ?thesis
    using assms by (auto simp: pin_peer_def or_return_def Let_def split: option.split sum.split)
qed

lemma directory_create_proxy:
  assumes "directory_ok st" and peer: "p \<in> pe_id ` set (st_peers st)"
    and none: "\<And>x. x \<in> set (st_proxies st) \<Longrightarrow> \<not> (px_peer x = p \<and> px_remote x = remote)"
  shows "directory_ok (fst (create_proxy now fresh r p remote display st))"
proof -
  have "directory_ok st2"
    if ins: "insert_endpoint (proxy_endpoint_row fresh p w now) st = Inr st1"
      and px: "insert_proxy \<lparr>px_endpoint = fresh, px_peer = p, px_remote = remote, px_display = display\<rparr> st1 = Inr st2"
    for w st1 st2
  proof -
    let ?r = "proxy_endpoint_row fresh p w now"
    let ?x = "\<lparr>px_endpoint = fresh, px_peer = p, px_remote = remote, px_display = display\<rparr>"
    have st1: "st1 = st\<lparr>st_endpoints := st_endpoints st @ [?r]\<rparr>" and new: "fresh \<notin> er_id ` set (st_endpoints st)"
      using ins by (auto simp: insert_endpoint_def find_endpoint_def lookup_by_None proxy_endpoint_row_def split: if_splits)
    have st2: "st2 = st1\<lparr>st_proxies := st_proxies st1 @ [?x]\<rparr>" and newx: "fresh \<notin> px_endpoint ` set (st_proxies st)"
      using px by (auto simp: insert_proxy_def find_proxy_def lookup_by_None st1 split: if_splits)
    have row: "er_id ?r = fresh" "er_kind ?r = PeerRuntime" "er_instance ?r = p" "er_token_hash ?r = None" "er_alias ?r = None"
      by (simp_all add: proxy_endpoint_row_def)
    have "proxies_ok (st_endpoints st) (st_proxies st) (st_peers st)" using assms(1) by (simp add: directory_ok_def)
    moreover have "(p, remote) \<notin> (\<lambda>x. (px_peer x, px_remote x)) ` set (st_proxies st)" using none by auto
    ultimately have "proxies_ok (st_endpoints st @ [?r]) (st_proxies st @ [?x]) (st_peers st)"
      using new newx peer row by (auto simp: proxies_ok_def)
    moreover have "no_relay (st_endpoints st @ [?r]) (st_messages st)"
      using assms(1) unfolding directory_ok_def no_relay_def by (metis Un_iff set_append)
    ultimately show ?thesis using assms(1) by (simp add: directory_ok_def st2 st1)
  qed
  then show ?thesis
    using assms(1) by (auto simp: create_proxy_def or_return_def Let_def split: sum.split)
qed

lemma directory_ensure_proxy:
  assumes "directory_ok st"
  shows "directory_ok (fst (ensure_proxy now fresh p remote display st))"
proof (cases "live_peer_row st (\<lambda>r. pe_id r = p)")
  case (Some r)
  then have peer: "p \<in> pe_id ` set (st_peers st)" using live_peer_row_Some by blast
  show ?thesis
  proof (cases "List.find (\<lambda>x. px_peer x = p \<and> px_remote x = remote) (st_proxies st)")
    case None
    then have "\<And>x. x \<in> set (st_proxies st) \<Longrightarrow> \<not> (px_peer x = p \<and> px_remote x = remote)"
      by (auto simp: find_None_iff)
    from directory_create_proxy [OF assms peer this] show ?thesis
      using Some None by (simp add: ensure_proxy_def)
  next
    case found: (Some x)
    let ?xs = "\<lambda>s. update_where (\<lambda>y. px_endpoint y = px_endpoint x) (display_row s) (st_proxies st)"
    have kept: "map px_endpoint (?xs s) = map px_endpoint (st_proxies st)"
      "map (\<lambda>x. (px_peer x, px_remote x)) (?xs s) = map (\<lambda>x. (px_peer x, px_remote x)) (st_proxies st)"
      "map (\<lambda>x. (px_endpoint x, px_peer x)) (?xs s) = map (\<lambda>x. (px_endpoint x, px_peer x)) (st_proxies st)"
      "map px_peer (?xs s) = map px_peer (st_proxies st)" for s
      by (simp_all add: map_update_where display_row_def)
    have sets: "px_endpoint ` set (?xs s) = px_endpoint ` set (st_proxies st)"
      "px_peer ` set (?xs s) = px_peer ` set (st_proxies st)" for s
      using arg_cong [OF kept(1), of set] arg_cong [OF kept(4), of set] by simp_all
    have all: "(\<forall>y \<in> set (?xs s). Q (px_endpoint y) (px_peer y)) \<longleftrightarrow> (\<forall>y \<in> set (st_proxies st). Q (px_endpoint y) (px_peer y))" for Q s
    proof -
      have "(\<lambda>x. (px_endpoint x, px_peer x)) ` set (?xs s) = (\<lambda>x. (px_endpoint x, px_peer x)) ` set (st_proxies st)"
        using arg_cong [OF kept(3), of set] by simp
      then have "(\<forall>z \<in> (\<lambda>x. (px_endpoint x, px_peer x)) ` set (?xs s). Q (fst z) (snd z))
        \<longleftrightarrow> (\<forall>z \<in> (\<lambda>x. (px_endpoint x, px_peer x)) ` set (st_proxies st). Q (fst z) (snd z))" by simp
      then show ?thesis by simp
    qed
    have "directory_ok (st\<lparr>st_proxies := ?xs s\<rparr>)" for s
      using assms all [of s "\<lambda>i p. \<exists>e \<in> set (st_endpoints st). er_id e = i \<and> er_kind e = PeerRuntime \<and> er_instance e = p"]
      by (simp add: directory_ok_def proxies_ok_def kept sets)
    then show ?thesis using Some found assms by (simp add: ensure_proxy_def split: option.split)
  qed
qed (simp add: ensure_proxy_def assms)

lemma directory_retire_proxy: "directory_ok (fst acc) \<Longrightarrow> directory_ok (fst (retire_proxy now x acc))"
proof -
  assume ok: "directory_ok (fst acc)"
  have w: "directory_ok st \<Longrightarrow> directory_ok (fold (withdraw_one now) todo st)" for todo st
    by (induction todo arbitrary: st) (simp_all add: withdraw_one_def retire_audit_def directory_intros)
  have a: "directory_ok st \<Longrightarrow> directory_ok (fold (abandon_one now x) todo st)" for todo st
    by (induction todo arbitrary: st) (simp_all add: abandon_one_def retire_audit_def directory_intros)
  show ?thesis using ok by (cases acc) (simp add: retire_proxy_def Let_def directory_intros w a)
qed

lemma retire_proxy_frame: "st_peers (fst (retire_proxy now x acc)) = st_peers (fst acc)"
proof -
  have w: "st_peers (fold (withdraw_one now) todo st) = st_peers st" for todo st
    by (induction todo arbitrary: st) (simp_all add: withdraw_one_def retire_audit_def)
  have a: "st_peers (fold (abandon_one now x) todo st) = st_peers st" for todo st
    by (induction todo arbitrary: st) (simp_all add: abandon_one_def retire_audit_def)
  show ?thesis by (cases acc) (simp add: retire_proxy_def Let_def w a)
qed

lemma directory_retire_row:
  assumes "directory_ok st"
  shows "directory_ok (set_peers (\<lambda>q. pe_id q = i) (retired_row now) st)"
proof -
  let ?ps = "update_where (\<lambda>q. pe_id q = i) (retired_row now) (st_peers st)"
  have ids: "map pe_id ?ps = map pe_id (st_peers st)"
    by (rule map_update_where) (simp add: retired_row_def)
  have old: "peers_ok (st_host st) (st_peers st)" using assms by (simp add: directory_ok_def)
  have mem: "\<exists>p \<in> set (st_peers st). pe_id q = pe_id p \<and> pe_host q = pe_host p
      \<and> (q = p \<or> pe_retired q \<and> pe_label q = None)" if q: "q \<in> set ?ps" for q
  proof -
    obtain p where "p \<in> set (st_peers st)" "q = (if pe_id p = i then retired_row now p else p)"
      using q unfolding set_update_where image_iff by blast
    then show ?thesis by (intro bexI [of _ p]) (auto simp: retired_row_def)
  qed
  have "pe_id a = pe_id b"
    if "a \<in> set ?ps" "b \<in> set ?ps" "\<not> pe_retired a" "\<not> pe_retired b" "pe_label a = pe_label b \<or> pe_host a = pe_host b" for a b
  proof -
    have "a \<in> set (st_peers st)" "b \<in> set (st_peers st)" using mem that(1-4) by blast+
    then show ?thesis using old that(3-5) unfolding peers_ok_def by blast
  qed
  moreover have "\<forall>q \<in> set ?ps. pe_host q \<noteq> st_host st \<and> (pe_retired q \<longleftrightarrow> pe_label q = None)"
    using mem old unfolding peers_ok_def by metis
  ultimately have "peers_ok (st_host st) ?ps"
    using old unfolding peers_ok_def ids by blast
  then show ?thesis
    using assms arg_cong [OF ids, of set] by (simp add: directory_ok_def set_peers_def proxies_ok_def)
qed

lemma directory_retire_peer:
  assumes "directory_ok st"
  shows "directory_ok (fst (retire_peer now l st))"
proof -
  have f: "directory_ok (fst acc) \<Longrightarrow> directory_ok (fst (fold (retire_proxy now) xs acc))" for xs acc
    by (induction xs arbitrary: acc) (simp_all add: directory_retire_proxy)
  show ?thesis
  proof (cases "live_peer_row st (\<lambda>r. pe_label r = Some l)")
    case (Some r)
    obtain st1 u w where acc: "fold (retire_proxy now) (proxies_of st (pe_id r)) (st, 0, 0) = (st1, u, w)"
      by (cases "fold (retire_proxy now) (proxies_of st (pe_id r)) (st, 0, 0)")
    have "directory_ok st1" using f [of "(st, 0, 0)" "proxies_of st (pe_id r)"] assms by (simp add: acc)
    then show ?thesis by (simp add: retire_peer_def Some Let_def acc directory_retire_row)
  qed (simp add: retire_peer_def assms)
qed

lemma side_directory:
  "directory_ok (fst (request_resolution now p sel st)) = directory_ok st"
  "directory_ok (fst (answer_resolution now p q ans st)) = directory_ok st"
  "directory_ok (fst (take_resolution q st)) = directory_ok st"
  "directory_ok (fst (record_attachment now c key pos x ra st)) = directory_ok st"
  "directory_ok (fst (delete_group name st)) = directory_ok st"
  "directory_ok (fst (open_group_send now fresh name c members st)) = directory_ok st"
  "directory_ok (fst (set_group now name members st)) = directory_ok st"
proof -
  show "directory_ok (fst (set_group now name members st)) = directory_ok st"
    by (rule directory_cong) (simp_all add: set_group_tables)
qed (auto simp: request_resolution_def answer_resolution_def take_resolution_def record_attachment_def
      delete_group_def open_group_send_def or_return_def Let_def directory_ok_def audit_def
      split: sum.splits option.splits)

lemma txn_directory:
  assumes "directory_ok st" "txn sha json st st'"
  shows "directory_ok st'"
  using assms(2)
proof (cases rule: txn.cases)
  case (txn_send d now i conv c origin)
  then show ?thesis using directory_send [OF assms(1)] by simp
qed (simp_all add: assms(1) directory_bind directory_ensure_local_user directory_simple directory_claim directory_pin
    directory_ensure_proxy directory_retire_peer side_directory set_capabilities_def set_address_def set_policy_def)

interpretation directory: machine "txn sha json" "\<lambda>st. \<exists>h. st = new_store h" directory_ok for sha json
proof
  show "\<exists>h. s = new_store h \<Longrightarrow> directory_ok s" for s
    by (auto simp: new_store_def directory_ok_def proxies_ok_def peers_ok_def no_relay_def)
  show "directory_ok s \<Longrightarrow> txn sha json s t \<Longrightarrow> directory_ok t" for s t
    by (rule txn_directory)
qed

lemma reachable_directory: "(txn sha json)\<^sup>*\<^sup>* (new_store h) st \<Longrightarrow> directory_ok st"
  using directory.reachable_inv by blast

section \<open>The directory of every reachable store\<close>

text \<open>C6. Peers are pinned uniquely. In every reachable store the peers not forgotten have distinct labels
  and distinct hosts, none is this store itself, a forgotten peer has no label, each remote agent of
  a peer has at most one proxy, and every proxy stands on its own endpoint of kind \<open>peer\<close> that belongs
  to its peer.\<close>

theorem peer_directory:
  assumes "(txn sha json)\<^sup>*\<^sup>* (new_store h) st"
  shows "(\<forall>p \<in> set (st_peers st). \<forall>q \<in> set (st_peers st).
        \<not> pe_retired p \<and> \<not> pe_retired q \<and> (pe_label p = pe_label q \<or> pe_host p = pe_host q) \<longrightarrow> p = q)
    \<and> (\<forall>p \<in> set (st_peers st). pe_host p \<noteq> st_host st \<and> (pe_retired p \<longleftrightarrow> pe_label p = None))
    \<and> distinct (map (\<lambda>x. (px_peer x, px_remote x)) (st_proxies st)) \<and> distinct (map px_endpoint (st_proxies st))
    \<and> (\<forall>x \<in> set (st_proxies st). \<exists>e \<in> set (st_endpoints st).
         er_id e = px_endpoint x \<and> er_kind e = PeerRuntime \<and> er_instance e = px_peer x)"
proof -
  have ok: "directory_ok st" by (rule reachable_directory [OF assms])
  have same: "p = q" if "p \<in> set (st_peers st)" "q \<in> set (st_peers st)" "pe_id p = pe_id q" for p q
    using ok that by (auto simp: directory_ok_def peers_ok_def distinct_map inj_on_def)
  show ?thesis
    using ok same unfolding directory_ok_def peers_ok_def proxies_ok_def by blast
qed

definition sample_pinned :: store where
  "sample_pinned = fst (ensure_proxy 6 ''x'' ''p'' ''remote'' None (fst (pin_peer 5 ''p'' ''lab'' ''h2'' sample_sent)))"

lemma sample_sent_peers: "st_peers sample_sent = []" "st_proxies sample_sent = []" "st_host sample_sent = ''h''"
  by (simp_all add: sample_sent_def sample_send_eq accepted_store_def sample_bound_tables audit_def
      remember_key_def set_endpoints_def)

lemma sample_pin: "pin_peer 5 ''p'' ''lab'' ''h2'' sample_sent
    = (audit 5 None None ''peer_pin'' None None None 0 ''ok'' (sample_sent\<lparr>st_peers := [pinned_row ''p'' ''lab'' ''h2'' 5]\<rparr>),
       Inr \<lparr>peer_id = ''p'', peer_name = ''lab'', peer_host = ''h2'', peer_is_trusted = False, peer_lease = None\<rparr>)"
  by (simp add: pin_peer_def sample_sent_peers live_peer_row_def insert_peer_def find_peer_def pinned_row_def
      build_peer_def)

lemma sample_pinned_tables:
  "st_proxies sample_pinned = [\<lparr>px_endpoint = ''x'', px_peer = ''p'', px_remote = ''remote'', px_display = None\<rparr>]"
  "st_peers sample_pinned = [pinned_row ''p'' ''lab'' ''h2'' 5]" "st_host sample_pinned = ''h''"
  "st_endpoints sample_pinned = st_endpoints sample_sent @ [proxy_endpoint_row ''x'' ''p'' None 6]"
  "st_messages sample_pinned = [sample_row]"
  by (simp_all add: sample_pinned_def sample_pin ensure_proxy_def live_peer_row_def create_proxy_def endpoint_limit_def
      MAX_ENDPOINTS_def insert_endpoint_def find_endpoint_def sample_sent_tables bind_row_def charge_row_def
      proxy_endpoint_row_def insert_proxy_def find_proxy_def find_peer_def sample_sent_peers pinned_row_def
      shown_display_def lease_unexpired_def audit_def)

lemma sample_pinned_reachable: "(txn sample_sha sample_json)\<^sup>*\<^sup>* (new_store ''h'') sample_pinned"
  unfolding sample_pinned_def
  by (rule rtranclp.rtrancl_into_rtrancl, rule rtranclp.rtrancl_into_rtrancl, rule sample_sent_reachable,
      rule txn_pin, rule txn_proxy)

theorem peer_directory_witness:
  "length (st_peers sample_pinned) = 1 \<and> distinct (map px_endpoint (st_proxies sample_pinned))
   \<and> pe_host (pinned_row ''p'' ''lab'' ''h2'' 5) \<noteq> st_host sample_pinned"
  using peer_directory [OF sample_pinned_reachable] by (simp add: sample_pinned_tables)

text \<open>C5. A proxy cannot be impersonated and never relays. In every reachable store, whatever token a
  process presents for a proxy's endpoint, authentication fails; binding never returns a proxy's
  endpoint; and no message addressed to a proxy was sent by a peer, so mail from one peer is never
  passed on to another.\<close>

theorem proxies_are_closed:
  assumes "(txn s json)\<^sup>*\<^sup>* (new_store h) st" and "e \<in> set (st_endpoints st)" and "er_kind e = PeerRuntime"
  shows "authenticate sha (er_id e) token st = Inl NotAuthorized
    \<and> (\<forall>st' bo. endpoint_bind sha now tb inc fresh b st = (st', Inr bo) \<longrightarrow> bo_endpoint bo \<noteq> er_id e)
    \<and> (\<forall>m \<in> set (st_messages st). mr_to m = er_id e \<longrightarrow> pr_kind (mr_from m) \<noteq> PeerPrincipal)"
proof (intro conjI allI impI ballI)
  have ok: "directory_ok st" by (rule reachable_directory [OF assms(1)])
  then have dist: "distinct (map er_id (st_endpoints st))" and locked: "er_token_hash e = None" "er_alias e = None"
    using assms(2,3) by (auto simp: directory_ok_def proxies_ok_def)
  have find: "find_endpoint st (er_id e) = Some e"
    using assms(2) by (simp add: find_endpoint_def lookup_by_eq_Some [OF dist])
  show "authenticate sha (er_id e) token st = Inl NotAuthorized"
    by (simp add: authenticate_def find locked(1))
  have same: "a = e" if "a \<in> set (st_endpoints st)" "er_id a = er_id e" for a
    using dist that assms(2) by (auto simp: distinct_map inj_on_def)
  show "bo_endpoint bo \<noteq> er_id e" if bound: "endpoint_bind sha now tb inc fresh b st = (st', Inr bo)" for st' bo
  proof (cases "case bi_alias b of Some a \<Rightarrow> slot_of st a (loc_instance_id (bi_locator b)) | None \<Rightarrow> None")
    case (Some r)
    then have "r \<in> set (st_endpoints st)" "er_alias r \<noteq> None" by (auto split: option.splits dest: slot_of_Some)
    then have "er_id r \<noteq> er_id e" using same locked(2) by metis
    with Some bound show ?thesis by (auto simp: endpoint_bind_def Let_def split: if_splits)
  next
    case None
    have "insert_endpoint (bind_row fresh inc hash b now) st = Inr st1 \<Longrightarrow> fresh \<noteq> er_id e" for hash st1
      using find by (auto simp: insert_endpoint_def bind_row_def split: if_splits)
    with None bound show ?thesis
      by (auto simp: endpoint_bind_def Let_def or_return_def split: if_splits sum.splits)
  qed
  show "pr_kind (mr_from m) \<noteq> PeerPrincipal" if "m \<in> set (st_messages st)" "mr_to m = er_id e" for m
    using ok that same assms(3) unfolding directory_ok_def no_relay_def by metis
qed

theorem proxies_are_closed_witness:
  "authenticate sample_sha ''x'' ''guess'' sample_pinned = Inl NotAuthorized"
proof -
  have "proxy_endpoint_row ''x'' ''p'' None 6 \<in> set (st_endpoints sample_pinned)"
    by (simp add: sample_pinned_tables)
  from proxies_are_closed [OF sample_pinned_reachable this] show ?thesis
    by (simp add: proxy_endpoint_row_def)
qed

end
