(* ===== verification/BridgeSession.thy ===== *)
theory BridgeSession
  imports BridgeStream StoreDirectory
begin

text \<open>
  One bridge process (\<open>vvagent/src/bridge.rs\<close>): the handshake, and the loop that owns the store and the
  writer. Outside the repository, and so arguments, are the clock, generated identifiers, the JSON
  writer, the hash, and the carrier, which takes \<open>ss_writes\<close> more writes before it breaks. One clock
  reading serves a frame or a pass of the loop. The text of an error is for people: \<open>ox_say\<close> gives it.
\<close>

section \<open>The session\<close>

record outside =
  ox_sha :: "string \<Rightarrow> 8 word list"
  ox_refs :: "reference list \<Rightarrow> string"
  ox_hello :: "hello \<Rightarrow> string"
  ox_frame :: "frame \<Rightarrow> string"
  ox_say :: "error_code \<Rightarrow> string"

text \<open>What one frame or pass draws from outside: the time and identifiers not used before.\<close>

record draw =
  tk_now :: int
  tk_proxy :: opaque
  tk_id :: opaque
  tk_conv :: opaque

text \<open>
  \<open>ss_sent\<close> is what was written, as frames; \<open>ss_flight\<close> is the hash map of deliveries awaiting an answer,
  from the message to the proxy it left through.
\<close>

record session =
  ss_store :: store
  ss_peer :: opaque
  ss_owner :: opaque
  ss_sent :: "frame list"
  ss_writes :: nat
  ss_flight :: "(opaque \<times> opaque) list"
  ss_cancels :: "opaque set"
  ss_asked :: "int set"

definition chain :: "session \<times> 'a result \<Rightarrow> (session \<Rightarrow> 'a \<Rightarrow> session \<times> 'b result) \<Rightarrow> session \<times> 'b result" where
  "chain p k = (case p of (s, Inl e) \<Rightarrow> (s, Inl e) | (s, Inr x) \<Rightarrow> k s x)"

definition with_store :: "(store \<Rightarrow> store \<times> 'a result) \<Rightarrow> session \<Rightarrow> session \<times> 'a result" where
  "with_store f s = (case f (ss_store s) of (st, r) \<Rightarrow> (s\<lparr>ss_store := st\<rparr>, r))"

definition send_frame :: "outside \<Rightarrow> frame \<Rightarrow> session \<Rightarrow> session \<times> unit result" where
  "send_frame ox f s =
     (case encode_frame (ox_frame ox) f of
        Inl e \<Rightarrow> (s, Inl e)
      | Inr bytes \<Rightarrow>
          if ss_writes s = 0 then (s, Inl IoError)
          else (s\<lparr>ss_sent := ss_sent s @ [f], ss_writes := ss_writes s - 1\<rparr>, Inr ()))"

definition flush_writer :: "session \<Rightarrow> session \<times> unit result" where
  "flush_writer s = (if ss_writes s = 0 then (s, Inl IoError) else (s, Inr ()))"

definition track :: "opaque \<Rightarrow> opaque \<Rightarrow> session \<Rightarrow> session" where
  "track i x s = s\<lparr>ss_flight := (i, x) # filter (\<lambda>p. fst p \<noteq> i) (ss_flight s)\<rparr>"

definition untrack :: "opaque \<Rightarrow> session \<Rightarrow> session" where
  "untrack i s = s\<lparr>ss_flight := filter (\<lambda>p. fst p \<noteq> i) (ss_flight s)\<rparr>"

text \<open>Errors after which the bridge must stop rather than tell the peer \<open>no\<close>.\<close>

definition fatal :: "error_code \<Rightarrow> bool" where
  "fatal e \<longleftrightarrow> e \<in> {IoError, StoreCorrupt, SchemaMismatch, ClaimLost, PeerRetired}"

definition display :: "string \<Rightarrow> string" where
  "display name = truncate_to MAX_DISPLAY_BYTES (drop_control name)"

definition told :: "outside \<Rightarrow> error_code \<Rightarrow> string list \<Rightarrow> wire_error" where
  "told ox e candidates = wire_error_from_mesh \<lparr>me_code = e, me_message = ox_say ox e, me_candidates = candidates\<rparr>"

section \<open>Answering the peer\<close>

definition on_deliver :: "outside \<Rightarrow> draw \<Rightarrow> deliver \<Rightarrow> session \<Rightarrow> session \<times> unit result" where
  "on_deliver ox t d s =
     (case with_store (ingest (\<lambda>x. hex (ox_sha ox x)) (ox_refs ox) (tk_now t) (tk_proxy t) (tk_id t) (tk_conv t)
                         (ss_peer s) (ss_owner s) d) s of
        (s1, Inr m) \<Rightarrow> send_frame ox (FAccepted (dl_origin_message d)) s1
      | (s1, Inl e) \<Rightarrow>
          if fatal e then (s1, Inl e) else send_frame ox (FRefused (dl_origin_message d) (told ox e [])) s1)"

text \<open>Only a delivery this bridge sent can be settled.\<close>

definition on_settled :: "draw \<Rightarrow> opaque \<Rightarrow> error_code option \<Rightarrow> session \<Rightarrow> session \<times> unit result" where
  "on_settled t i failure s =
     (case map_of (ss_flight s) i of
        None \<Rightarrow> (s, Inr ())
      | Some x \<Rightarrow>
          let s1 = untrack i s
          in chain (s1, proxy_caller (ss_store s1) (tk_now t) x (ss_owner s1)) (\<lambda>s2 c.
             chain (with_store (case failure of
                      None \<Rightarrow> forwarded (tk_now t) c i | Some e \<Rightarrow> forward_failed (tk_now t) c i e) s2) (\<lambda>s3 _.
               (s3, Inr ()))))"

definition on_cancel :: "outside \<Rightarrow> draw \<Rightarrow> opaque \<Rightarrow> session \<Rightarrow> session \<times> unit result" where
  "on_cancel ox t origin s =
     chain (s, message_by_origin (ss_store s) (ss_peer s) origin) (\<lambda>s found.
       (case found of
          None \<Rightarrow> send_frame ox (FCancelState origin Cancelled) s
        | Some m \<Rightarrow>
            chain (s, proxy_caller (ss_store s) (tk_now t) (the (pr_endpoint (msg_from m))) (ss_owner s)) (\<lambda>s c.
              (case with_store (cancel (tk_now t) c (msg_id m)) s of
                 (s1, Inr state) \<Rightarrow> send_frame ox (FCancelState origin state) s1
               | (s1, Inl e) \<Rightarrow>
                   if fatal e then (s1, Inl e) else send_frame ox (FCancelState origin (msg_state m)) s1))))"

definition on_cancel_state :: "draw \<Rightarrow> opaque \<Rightarrow> msg_state \<Rightarrow> session \<Rightarrow> session \<times> unit result" where
  "on_cancel_state t i state s =
     (case load_message (ss_store s) i of
        Inl _ \<Rightarrow> (s, Inr ())
      | Inr m \<Rightarrow>
          (case proxy_get (ss_store s) (msg_to m) of
             Inl _ \<Rightarrow> (s, Inr ())
           | Inr x \<Rightarrow>
               if px_peer x \<noteq> ss_peer s then (s, Inr ())
               else chain (s, proxy_caller (ss_store s) (tk_now t) (px_endpoint x) (ss_owner s)) (\<lambda>s c.
                      chain (with_store (confirm_remote_cancel (tk_now t) c i state) s) (\<lambda>s _. (s, Inr ())))))"

definition no_origin :: origin where
  "no_origin = \<lparr>org_scope = None, org_address = None, org_endpoint = None\<rparr>"

definition resolved_here :: "string \<Rightarrow> endpoint list \<Rightarrow> resolve_error + endpoint" where
  "resolved_here sel endpoints =
     (case selector_parse sel of Inl e \<Rightarrow> Inl (e, []) | Inr q \<Rightarrow> resolve q endpoints no_origin)"

definition on_resolve :: "outside \<Rightarrow> nat \<Rightarrow> string \<Rightarrow> session \<Rightarrow> session \<times> unit result" where
  "on_resolve ox q sel s =
     chain (s, list_endpoints (ss_store s)) (\<lambda>s endpoints.
       (case resolved_here sel endpoints of
          Inr e \<Rightarrow> send_frame ox (FResolved q (ep_id e) (Some (display (qualified_name e)))) s
        | Inl (e, candidates) \<Rightarrow> send_frame ox (FUnresolved q (told ox e candidates)) s))"

definition on_answer :: "draw \<Rightarrow> nat \<Rightarrow> resolution \<Rightarrow> session \<Rightarrow> session \<times> unit result" where
  "on_answer t q a s =
     (if int q > i64_max \<or> int q \<notin> ss_asked s then (s, Inr ())
      else (s\<lparr>ss_asked := ss_asked s - {int q},
              ss_store := fst (answer_resolution (tk_now t) (ss_peer s) (int q) a (ss_store s))\<rparr>, Inr ()))"

fun handle :: "outside \<Rightarrow> draw \<Rightarrow> frame \<Rightarrow> session \<Rightarrow> session \<times> unit result" where
  "handle ox t (FDeliver d) s = on_deliver ox t d s"
| "handle ox t (FAccepted i) s = on_settled t i None s"
| "handle ox t (FRefused i e) s = on_settled t i (Some (we_code e)) s"
| "handle ox t (FCancel i) s = on_cancel ox t i s"
| "handle ox t (FCancelState i state) s = on_cancel_state t i state s"
| "handle ox t (FResolve q sel) s = on_resolve ox q sel s"
| "handle ox t (FResolved q e shown) s = on_answer t q (Inr (e, shown)) s"
| "handle ox t (FUnresolved q e) s = on_answer t q (Inl (wire_error_into_mesh e)) s"
| "handle ox t (FPing n) s = send_frame ox (FPong n) s"
| "handle ox t (FPong n) s = (s, Inr ())"

section \<open>Forwarding\<close>

text \<open>One round over the proxies; the result says whether any of them had mail.\<close>

fun forward_round :: "outside \<Rightarrow> int \<Rightarrow> proxy_row list \<Rightarrow> bool \<Rightarrow> session \<Rightarrow> session \<times> bool result" where
  "forward_round ox now [] progressed s = (s, Inr progressed)"
| "forward_round ox now (x # xs) progressed s =
     (if MAX_IN_FLIGHT \<le> length (ss_flight s) then (s, Inr progressed)
      else chain (s, proxy_caller (ss_store s) now (px_endpoint x) (ss_owner s)) (\<lambda>s c.
           chain (with_store (claim_outbound now c) s) (\<lambda>s found.
             (case found of
                None \<Rightarrow> forward_round ox now xs progressed s
              | Some m \<Rightarrow>
                  (case outbound (ss_store s) x m now of
                     Inr d \<Rightarrow>
                       chain (send_frame ox (FDeliver d) s) (\<lambda>s _.
                         forward_round ox now xs True (track (msg_id m) (px_endpoint x) s))
                   | Inl e \<Rightarrow>
                       if fatal e then (s, Inl e)
                       else chain (with_store (forward_failed now c (msg_id m) e) s) (\<lambda>s _.
                              forward_round ox now xs True s))))))"

text \<open>The loop over rounds, with fuel; \<open>None\<close> is a loop that has not ended.\<close>

fun forward_rounds :: "outside \<Rightarrow> int \<Rightarrow> proxy_row list \<Rightarrow> nat \<Rightarrow> session \<Rightarrow> (session \<times> unit result) option" where
  "forward_rounds ox now xs 0 s = None"
| "forward_rounds ox now xs (Suc n) s =
     (if MAX_IN_FLIGHT \<le> length (ss_flight s) then Some (s, Inr ())
      else (case forward_round ox now xs False s of
              (s1, Inl e) \<Rightarrow> Some (s1, Inl e)
            | (s1, Inr progressed) \<Rightarrow> if progressed then forward_rounds ox now xs n s1 else Some (s1, Inr ())))"

definition forward_fuel :: "session \<Rightarrow> nat" where
  "forward_fuel s = Suc (length (st_messages (ss_store s)))"

definition forward_outbound :: "outside \<Rightarrow> int \<Rightarrow> session \<Rightarrow> (session \<times> unit result) option" where
  "forward_outbound ox now s =
     forward_rounds ox now (list_proxies (ss_store s) (ss_peer s)) (forward_fuel s) s"

fun pass_cancels :: "outside \<Rightarrow> (opaque \<times> opaque) list \<Rightarrow> session \<Rightarrow> session \<times> unit result" where
  "pass_cancels ox [] s = (s, Inr ())"
| "pass_cancels ox ((i, x) # rest) s =
     (if i \<in> ss_cancels s then pass_cancels ox rest s
      else chain (send_frame ox (FCancel i) (s\<lparr>ss_cancels := insert i (ss_cancels s)\<rparr>)) (\<lambda>s _. pass_cancels ox rest s))"

definition forward_cancellations :: "outside \<Rightarrow> session \<Rightarrow> session \<times> unit result" where
  "forward_cancellations ox s = pass_cancels ox (cancellations_to_forward (ss_store s) (ss_peer s)) s"

fun pass_questions :: "outside \<Rightarrow> (int \<times> string) list \<Rightarrow> session \<Rightarrow> session \<times> unit result" where
  "pass_questions ox [] s = (s, Inr ())"
| "pass_questions ox ((q, sel) # rest) s =
     (if q \<in> ss_asked s then pass_questions ox rest s
      else let s1 = s\<lparr>ss_asked := insert q (ss_asked s)\<rparr>
           in if q < 0 then (s1, Inl StoreCorrupt)
              else chain (send_frame ox (FResolve (nat q) sel) s1) (\<lambda>s _. pass_questions ox rest s))"

definition forward_resolutions :: "outside \<Rightarrow> int \<Rightarrow> session \<Rightarrow> session \<times> unit result" where
  "forward_resolutions ox now s = pass_questions ox (pending_resolutions (ss_store s) now (ss_peer s)) s"

section \<open>The loop\<close>

record config =
  cf_role :: role
  cf_label :: "peer_label option"
  cf_name :: "string option"
  cf_anchor :: "lease_anchor option"
  cf_ttl :: int
  cf_heartbeat :: int
  cf_idle :: int

text \<open>
  What one turn of the loop meets: the items received, each with its draw; whether the channel then
  hung up; whether the parent died or the supervisor asked to stop; the monotonic clock; and the
  draw of the pass over the store.
\<close>

record turn =
  tn_items :: "(draw \<times> incoming) list"
  tn_hangup :: bool
  tn_stop :: bool
  tn_at :: int
  tn_draw :: draw

record timers =
  tm_heard :: int
  tm_ping :: int
  tm_renewed :: int
  tm_nonce :: "64 word"

text \<open>The items of a turn. \<open>Inr False\<close> is an orderly end.\<close>

fun take_items :: "outside \<Rightarrow> (draw \<times> incoming) list \<Rightarrow> session \<Rightarrow> session \<times> bool result" where
  "take_items ox [] s = (s, Inr True)"
| "take_items ox ((t, InFrame f) # rest) s = chain (handle ox t f s) (\<lambda>s _. take_items ox rest s)"
| "take_items ox ((t, InClosed) # rest) s = (s, Inr False)"
| "take_items ox ((t, InFailed e) # rest) s = (s, Inl e)"
| "take_items ox ((t, InHello h) # rest) s = (s, Inl InvalidRequest)"

definition renew_lease :: "config \<Rightarrow> int \<Rightarrow> session \<Rightarrow> session \<times> unit result" where
  "renew_lease cf now s =
     chain (with_store (acquire_peer_lease (ss_peer s) (ss_owner s) (cf_anchor cf) (cf_ttl cf) now) s) (\<lambda>s kept.
       if kept then (s, Inr ()) else (s, Inl ClaimLost))"

definition renewal_due :: "config \<Rightarrow> int \<Rightarrow> timers \<Rightarrow> bool" where
  "renewal_due cf at tm \<longleftrightarrow> at - tm_renewed tm \<ge> max (cf_ttl cf div 3) 1"

definition ping_if_due :: "outside \<Rightarrow> config \<Rightarrow> int \<Rightarrow> session \<Rightarrow> timers \<Rightarrow> (session \<times> unit result) \<times> timers" where
  "ping_if_due ox cf at s tm =
     (if at - tm_ping tm \<ge> cf_heartbeat cf
      then (send_frame ox (FPing (unat (tm_nonce tm + 1))) s, tm\<lparr>tm_nonce := tm_nonce tm + 1, tm_ping := at\<rparr>)
      else ((s, Inr ()), tm))"

text \<open>After the lease: forward, then the idle limit, the heartbeat and the flush.\<close>

definition serve_turn ::
  "outside \<Rightarrow> config \<Rightarrow> turn \<Rightarrow> session \<Rightarrow> timers \<Rightarrow> ((session \<times> bool result) \<times> timers) option" where
  "serve_turn ox cf tn s tm =
     (case forward_outbound ox (tk_now (tn_draw tn)) s of
        None \<Rightarrow> None
      | Some r \<Rightarrow>
          (case chain r (\<lambda>s _. chain (forward_cancellations ox s) (\<lambda>s _.
                  forward_resolutions ox (tk_now (tn_draw tn)) s)) of
             (s1, Inl e) \<Rightarrow> Some ((s1, Inl e), tm)
           | (s1, Inr _) \<Rightarrow>
               if tn_at tn - tm_heard tm \<ge> cf_idle cf then Some ((s1, Inl IoError), tm)
               else (case ping_if_due ox cf (tn_at tn) s1 tm of
                       (p, tm1) \<Rightarrow> Some (chain p (\<lambda>s _. chain (flush_writer s) (\<lambda>s _. (s, Inr True))), tm1))))"

definition pump_turn ::
  "outside \<Rightarrow> config \<Rightarrow> turn \<Rightarrow> session \<Rightarrow> timers \<Rightarrow> ((session \<times> bool result) \<times> timers) option" where
  "pump_turn ox cf tn s tm =
     (let tm1 = (if \<exists>p \<in> set (tn_items tn). is_frame (snd p) then tm\<lparr>tm_heard := tn_at tn\<rparr> else tm)
      in (case take_items ox (tn_items tn) s of
            (s1, Inl e) \<Rightarrow> Some ((s1, Inl e), tm1)
          | (s1, Inr go) \<Rightarrow>
              if \<not> go \<or> tn_hangup tn \<or> tn_stop tn then Some ((s1, Inr False), tm1)
              else if renewal_due cf (tn_at tn) tm1
              then (case renew_lease cf (tk_now (tn_draw tn)) s1 of
                      (s2, Inl e) \<Rightarrow> Some ((s2, Inl e), tm1)
                    | (s2, Inr _) \<Rightarrow> serve_turn ox cf tn s2 (tm1\<lparr>tm_renewed := tn_at tn\<rparr>))
              else serve_turn ox cf tn s1 tm1))"

text \<open>\<open>None\<close> is a bridge still running after these turns.\<close>

fun pump :: "outside \<Rightarrow> config \<Rightarrow> turn list \<Rightarrow> session \<Rightarrow> timers \<Rightarrow> session \<times> unit result option" where
  "pump ox cf [] s tm = (s, None)"
| "pump ox cf (tn # tns) s tm =
     (case pump_turn ox cf tn s tm of
        None \<Rightarrow> (s, None)
      | Some ((s1, Inl e), tm1) \<Rightarrow> (s1, Some (Inl e))
      | Some ((s1, Inr go), tm1) \<Rightarrow> if go then pump ox cf tns s1 tm1 else (s1, Some (Inr ())))"

section \<open>The handshake\<close>

text \<open>Which peer the other end is. The two identifiers are for the peers the two attempts may create.\<close>

definition suggested_label :: "config \<Rightarrow> hello \<Rightarrow> peer_label result" where
  "suggested_label cf theirs =
     (case (cf_label cf, hello_name theirs) of
        (Some l, _) \<Rightarrow> Inr l
      | (None, Some n) \<Rightarrow> label_parse n
      | (None, None) \<Rightarrow> label_parse (''peer-'' @ take 8 (hello_host theirs)))"

definition fallback_label :: "peer_label \<Rightarrow> hello \<Rightarrow> peer_label result" where
  "fallback_label l theirs = label_parse (take (min (length l) 55) l @ ''-'' @ take 8 (hello_host theirs))"

definition identify :: "int \<Rightarrow> opaque \<Rightarrow> opaque \<Rightarrow> config \<Rightarrow> hello \<Rightarrow> store \<Rightarrow> store \<times> peer result" where
  "identify now fresh fresh' cf theirs st =
     (case cf_role cf of
        Dial \<Rightarrow>
          (case cf_label cf of
             None \<Rightarrow> (st, Inl InvalidRequest)
           | Some l \<Rightarrow> pin_peer now fresh l (hello_host theirs) st)
      | Serve \<Rightarrow>
          or_return st (peer_by_host st (hello_host theirs)) (\<lambda>known.
            (case known of
               Some p \<Rightarrow> (st, Inr p)
             | None \<Rightarrow>
                 or_return st (suggested_label cf theirs) (\<lambda>l.
                   (case pin_peer now fresh l (hello_host theirs) st of
                      (st1, Inl PeerMismatch) \<Rightarrow>
                        or_return st1 (fallback_label l theirs) (\<lambda>l'.
                          pin_peer now fresh' l' (hello_host theirs) st1)
                    | r \<Rightarrow> r)))))"

datatype ended = Closed peer_label | Standby peer_label

text \<open>What the first wait on the channel gave: an item, nothing in time, or a channel already gone.\<close>

datatype arrival = Arrived incoming | Silence | Gone

definition await_hello :: "arrival \<Rightarrow> hello result" where
  "await_hello a =
     (case a of
        Arrived (InHello h) \<Rightarrow> Inr h
      | Arrived (InFailed e) \<Rightarrow> Inl e
      | Arrived (InFrame f) \<Rightarrow> Inl InvalidRequest
      | _ \<Rightarrow> Inl PeerUnreachable)"

definition own_hello :: "store \<Rightarrow> config \<Rightarrow> hello" where
  "own_hello st cf = (hello_new (st_host st) (cf_role cf))\<lparr>hello_name := cf_name cf\<rparr>"

text \<open>The session of the bridge that took the lease, and its end: the lease is given back.\<close>

definition run_session ::
  "outside \<Rightarrow> config \<Rightarrow> draw \<Rightarrow> int \<Rightarrow> nat \<Rightarrow> turn list \<Rightarrow> int \<Rightarrow> opaque \<Rightarrow> peer \<Rightarrow> store \<Rightarrow> store \<times> ended result option" where
  "run_session ox cf t at writes turns finish owner p st =
     (case pump ox cf turns
             \<lparr>ss_store = st, ss_peer = peer_id p, ss_owner = owner, ss_sent = [], ss_writes = writes,
              ss_flight = [], ss_cancels = {}, ss_asked = {}\<rparr>
             \<lparr>tm_heard = at, tm_ping = at, tm_renewed = at, tm_nonce = 0\<rparr> of
        (s, None) \<Rightarrow> (ss_store s, None)
      | (s, Some r) \<Rightarrow>
          (fst (release_peer_lease finish (peer_id p) owner (ss_store s)),
           Some (case r of Inl e \<Rightarrow> Inl e | Inr _ \<Rightarrow> Inr (Closed (peer_name p)))))"

definition bridge_run ::
  "outside \<Rightarrow> config \<Rightarrow> draw \<Rightarrow> opaque \<Rightarrow> int \<Rightarrow> nat \<Rightarrow> arrival \<Rightarrow> turn list \<Rightarrow> int \<Rightarrow> store \<Rightarrow> store \<times> ended result option" where
  "bridge_run ox cf t owner at writes first turns finish st =
     (case and_then (encode_hello (ox_hello ox) (own_hello st cf)) (\<lambda>_.
             and_then (if writes < 2 then Inl IoError else Inr ()) (\<lambda>_.
             and_then (await_hello first) (\<lambda>theirs.
             and_then (accept_peer (own_hello st cf) theirs) (\<lambda>_. Inr theirs)))) of
        Inl e \<Rightarrow> (st, Some (Inl e))
      | Inr theirs \<Rightarrow>
          (case identify (tk_now t) (tk_id t) (tk_conv t) cf theirs st of
             (st1, Inl e) \<Rightarrow> (st1, Some (Inl e))
           | (st1, Inr p) \<Rightarrow>
               (case acquire_peer_lease (peer_id p) owner (cf_anchor cf) (cf_ttl cf) (tk_now t) st1 of
                  (st2, Inl e) \<Rightarrow> (st2, Some (Inl e))
                | (st2, Inr held) \<Rightarrow>
                    if held then run_session ox cf t at (writes - 1) turns finish owner p st2
                    else (st2, Some (Inr (Standby (peer_name p)))))))"

end
