(* ===== verification/BridgeSafety.thy ===== *)
theory BridgeSafety
  imports BridgeSession
begin

text \<open>
  What a bridge can do. Its effect on the store is a sequence of the store's own transactions, so every
  property of all reachable stores holds under any number of bridges; and whatever is kept by the few
  updates of a session is kept by a whole bridge process, which is proved once, in a locale.
\<close>

section \<open>Operations as transactions\<close>

lemma send_as_txns: "(txn sha json)\<^sup>*\<^sup>* st (fst (send_as (\<lambda>x. hex (sha x)) json now i conv c d origin st))"
  by (auto simp: send_as_def or_return_def intro: txn_send split: sum.splits)

lemma claim_outbound_txns: "(txn sha json)\<^sup>*\<^sup>* st (fst (claim_outbound now c st))"
  by (auto simp: claim_outbound_def claim_as_def or_return_def intro: txn_claim split: sum.splits prod.splits)

lemma cancel_txns: "(txn sha json)\<^sup>*\<^sup>* st (fst (cancel now c i st))"
proof -
  have "txn sha json st (fst (cancel_tx now i request st))" if m: "load_message st i = Inr request" for request
    using m by (auto simp: load_message_Inr intro: txn_cancel)
  then show ?thesis by (auto simp: cancel_def or_return_def split: sum.splits prod.splits)
qed

lemma send_keeps_rows:
  assumes "find_message st q = Some r"
  shows "find_message (fst (send sha json now i conv c d st)) q = Some r"
proof -
  have "find_message (fst (send_tx sha json now i conv c d None st)) q = Some r"
    using send_tx_cases [of sha json now i conv c d None st] assms
    by (cases "send_tx sha json now i conv c d None st")
      (auto simp: find_message_def accepted_store_def insert_message_Inr lookup_by_append)
  then show ?thesis using assms by (auto simp: send_def send_as_def or_return_def split: sum.splits)
qed

lemma respond_txns: "(txn sha json)\<^sup>*\<^sup>* st (fst (respond (\<lambda>x. hex (sha x)) json now i conv c q oc t refs key st))"
proof (cases "respond_checks st now c q")
  case (Inr r)
  then obtain e request requester where r: "r = (e, request, requester)" by (cases r)
  then have req: "load_message st q = Inr request" "msg_to request = e"
    using Inr by (auto simp: respond_checks_def and_then_eq_Inr_iff split: if_splits option.splits)
  let ?send = "send (\<lambda>x. hex (sha x)) json now i conv c (response_draft q request requester oc t refs key) st"
  have sent: "(txn sha json)\<^sup>*\<^sup>* st (fst ?send)" unfolding send_def by (rule send_as_txns)
  obtain row where row: "find_message st q = Some row" "mr_to row = e"
    using req by (auto simp: load_message_Inr)
  show ?thesis
  proof (cases "snd ?send")
    case (Inr response)
    have "find_message (fst ?send) q = Some row" by (rule send_keeps_rows [OF row(1)])
    from txn_respond [OF this] have "txn sha json (fst ?send) (respond_retire now q e (msg_text request) oc (fst ?send))"
      by (simp add: row(2))
    then show ?thesis using sent Inr \<open>respond_checks st now c q = Inr r\<close> r
      by (auto simp: respond_def split: prod.splits sum.splits)
  qed (use sent Inr r in \<open>auto simp: respond_def split: prod.splits\<close>)
qed (simp add: respond_def)

lemma ingest_for_txns: "(txn sha json)\<^sup>*\<^sup>* st (fst (ingest_for (\<lambda>x. hex (sha x)) json now i conv p d c st))"
  by (simp add: ingest_for_def Let_def respond_txns send_as_txns)

lemma ingest_txns: "(txn sha json)\<^sup>*\<^sup>* st (fst (ingest (\<lambda>x. hex (sha x)) json now fresh i conv p owner d st))"
proof -
  have "(txn sha json)\<^sup>*\<^sup>* st (fst (ensure_proxy now fresh p (dl_origin_endpoint d) None st))"
    by (rule r_into_rtranclp) (rule txn_proxy)
  then show ?thesis
    by (auto simp: ingest_def or_return_def split: sum.splits prod.splits intro: rtranclp_trans ingest_for_txns)
qed

section \<open>What a session keeps\<close>

text \<open>
  The interface of a relation that every update of a session respects: the store by a transaction, a
  frame written, a delivery tracked while there is room, the sets of what was asked. The whole process
  then respects it.
\<close>

locale session_effect =
  fixes ox :: outside and R :: "session \<Rightarrow> session \<Rightarrow> bool"
  assumes effect_refl: "R s s"
    and effect_trans: "R s t \<Longrightarrow> R t u \<Longrightarrow> R s u"
    and effect_store: "(txn (ox_sha ox) (ox_refs ox))\<^sup>*\<^sup>* (ss_store s) st \<Longrightarrow> R s (s\<lparr>ss_store := st\<rparr>)"
    and effect_send: "encode_frame (ox_frame ox) f = Inr bs \<Longrightarrow> ss_writes s \<noteq> 0 \<Longrightarrow>
      R s (s\<lparr>ss_sent := ss_sent s @ [f], ss_writes := ss_writes s - 1\<rparr>)"
    and effect_track: "length (ss_flight s) < MAX_IN_FLIGHT \<Longrightarrow> R s (track i x s)"
    and effect_untrack: "R s (untrack i s)"
    and effect_cancels: "R s (s\<lparr>ss_cancels := X\<rparr>)"
    and effect_asked: "R s (s\<lparr>ss_asked := Y\<rparr>)"
begin

lemma chain_effect:
  assumes "R s (fst p)" "\<And>s1 x. p = (s1, Inr x) \<Longrightarrow> R s1 (fst (k s1 x))"
  shows "R s (fst (chain p k))"
  using assms effect_trans by (cases p; cases "snd p") (fastforce simp: chain_def)+

lemma with_store_effect:
  "(txn (ox_sha ox) (ox_refs ox))\<^sup>*\<^sup>* (ss_store s) (fst (f (ss_store s))) \<Longrightarrow> R s (fst (with_store f s))"
  using effect_store [of s "fst (f (ss_store s))"] by (cases "f (ss_store s)") (simp add: with_store_def)

lemma send_effect: "R s (fst (send_frame ox f s))"
  using effect_refl effect_send by (auto simp: send_frame_def split: sum.splits)

lemma deliver_effect: "R s (fst (on_deliver ox t d s))"
proof -
  let ?in = "with_store (ingest (\<lambda>x. hex (ox_sha ox x)) (ox_refs ox) (tk_now t) (tk_proxy t) (tk_id t) (tk_conv t)
      (ss_peer s) (ss_owner s) d) s"
  have "R s (fst ?in)" by (rule with_store_effect) (rule ingest_txns)
  then show ?thesis
    using effect_trans send_effect by (auto simp: on_deliver_def split: prod.splits sum.splits)
qed

lemma settle_step: "(txn sha json)\<^sup>*\<^sup>* st (fst (settle_outbound now c i failure st))"
  by (rule r_into_rtranclp) (rule txn_settle)

lemma settled_effect: "R s (fst (on_settled t i failure s))"
proof (cases "map_of (ss_flight s) i")
  case (Some x)
  have "R (untrack i s) (fst (chain (untrack i s, proxy_caller (ss_store (untrack i s)) (tk_now t) x (ss_owner (untrack i s)))
      (\<lambda>s2 c. chain (with_store (case failure of None \<Rightarrow> forwarded (tk_now t) c i | Some e \<Rightarrow> forward_failed (tk_now t) c i e) s2)
        (\<lambda>s3 _. (s3, Inr ())))))"
    by (intro chain_effect with_store_effect)
      (auto simp: effect_refl forwarded_def forward_failed_def settle_step split: option.split)
  then show ?thesis using Some effect_trans [OF effect_untrack] by (simp add: on_settled_def Let_def)
qed (simp add: on_settled_def effect_refl)

lemma cancel_effect: "R s (fst (on_cancel ox t origin s))"
  unfolding on_cancel_def
proof (intro chain_effect)
  fix s1 found assume "(s, message_by_origin (ss_store s) (ss_peer s) origin) = (s1, Inr found)"
  have one: "R s2 (fst (case with_store (cancel (tk_now t) c (msg_id m)) s2 of
      (s3, Inr state) \<Rightarrow> send_frame ox (FCancelState origin state) s3
    | (s3, Inl e) \<Rightarrow> if fatal e then (s3, Inl e) else send_frame ox (FCancelState origin (msg_state m)) s3))" for c m s2
    using with_store_effect [of s2 "cancel (tk_now t) c (msg_id m)"] cancel_txns effect_trans send_effect
    by (auto split: prod.splits sum.splits)
  show "R s1 (fst (case found of None \<Rightarrow> send_frame ox (FCancelState origin Cancelled) s1
    | Some m \<Rightarrow> chain (s1, proxy_caller (ss_store s1) (tk_now t) (the (pr_endpoint (msg_from m))) (ss_owner s1)) (\<lambda>s c.
        case with_store (cancel (tk_now t) c (msg_id m)) s of
          (s1, Inr state) \<Rightarrow> send_frame ox (FCancelState origin state) s1
        | (s1, Inl e) \<Rightarrow> if fatal e then (s1, Inl e) else send_frame ox (FCancelState origin (msg_state m)) s1)))"
    by (cases found) (auto intro!: chain_effect simp: send_effect one effect_refl)
qed (simp add: effect_refl)

lemma cancel_state_effect: "R s (fst (on_cancel_state t i state s))"
  by (auto simp: on_cancel_state_def effect_refl intro!: chain_effect with_store_effect
      intro: txn_remote_cancel split: sum.splits)

lemma resolve_effect: "R s (fst (on_resolve ox q sel s))"
  by (auto simp: on_resolve_def effect_refl send_effect intro!: chain_effect split: sum.splits)

lemma answer_effect: "R s (fst (on_answer t q a s))"
proof (cases "int q > i64_max \<or> int q \<notin> ss_asked s")
  case False
  let ?s1 = "s\<lparr>ss_asked := ss_asked s - {int q}\<rparr>"
  have "R ?s1 (?s1\<lparr>ss_store := fst (answer_resolution (tk_now t) (ss_peer s) (int q) a (ss_store s))\<rparr>)"
    by (intro effect_store r_into_rtranclp) (simp add: txn_answer)
  from effect_trans [OF effect_asked this] show ?thesis using False by (simp add: on_answer_def)
qed (simp add: on_answer_def effect_refl)

lemma handle_effect: "R s (fst (handle ox t f s))"
  by (cases f) (simp_all add: deliver_effect settled_effect cancel_effect cancel_state_effect resolve_effect
      answer_effect send_effect effect_refl)

lemma forward_round_effect: "R s (fst (forward_round ox now xs progressed s))"
proof (induction xs arbitrary: progressed s)
  case (Cons x xs)
  have one: "R s2 (fst (case outbound (ss_store s2) x m now of
      Inr d \<Rightarrow> chain (send_frame ox (FDeliver d) s2) (\<lambda>s _. forward_round ox now xs True (track (msg_id m) (px_endpoint x) s))
    | Inl e \<Rightarrow> if fatal e then (s2, Inl e)
        else chain (with_store (forward_failed now c (msg_id m) e) s2) (\<lambda>s _. forward_round ox now xs True s)))"
    if room: "length (ss_flight s2) < MAX_IN_FLIGHT" for s2 m c
  proof (cases "outbound (ss_store s2) x m now")
    case (Inl e)
    have "R s2 (fst (chain (with_store (forward_failed now c (msg_id m) e) s2) (\<lambda>s _. forward_round ox now xs True s)))"
      by (intro chain_effect with_store_effect Cons.IH) (simp add: forward_failed_def settle_step)
    then show ?thesis by (simp add: Inl effect_refl)
  next
    case (Inr d)
    have "R s2 (fst (chain (send_frame ox (FDeliver d) s2) (\<lambda>s _. forward_round ox now xs True (track (msg_id m) (px_endpoint x) s))))"
    proof (rule chain_effect)
      fix s3 u assume "send_frame ox (FDeliver d) s2 = (s3, Inr u)"
      then have "length (ss_flight s3) < MAX_IN_FLIGHT"
        using room by (auto simp: send_frame_def split: sum.splits if_splits)
      from effect_trans [OF effect_track [OF this] Cons.IH]
      show "R s3 (fst (forward_round ox now xs True (track (msg_id m) (px_endpoint x) s3)))" .
    qed (rule send_effect)
    then show ?thesis by (simp add: Inr)
  qed
  have "R s (fst (chain (s, proxy_caller (ss_store s) now (px_endpoint x) (ss_owner s)) (\<lambda>s c.
      chain (with_store (claim_outbound now c) s) (\<lambda>s found. case found of
          None \<Rightarrow> forward_round ox now xs progressed s
        | Some m \<Rightarrow> (case outbound (ss_store s) x m now of
            Inr d \<Rightarrow> chain (send_frame ox (FDeliver d) s) (\<lambda>s _. forward_round ox now xs True (track (msg_id m) (px_endpoint x) s))
          | Inl e \<Rightarrow> if fatal e then (s, Inl e)
              else chain (with_store (forward_failed now c (msg_id m) e) s) (\<lambda>s _. forward_round ox now xs True s))))))"
    if "length (ss_flight s) < MAX_IN_FLIGHT"
  proof (intro chain_effect)
    fix s1 c s2 found
    assume "(s, proxy_caller (ss_store s) now (px_endpoint x) (ss_owner s)) = (s1, Inr c)"
      and "with_store (claim_outbound now c) s1 = (s2, Inr found)"
    then have "length (ss_flight s2) < MAX_IN_FLIGHT"
      using that by (auto simp: with_store_def split: prod.splits)
    from one [OF this] show "R s2 (fst (case found of
          None \<Rightarrow> forward_round ox now xs progressed s2
        | Some m \<Rightarrow> (case outbound (ss_store s2) x m now of
            Inr d \<Rightarrow> chain (send_frame ox (FDeliver d) s2) (\<lambda>s _. forward_round ox now xs True (track (msg_id m) (px_endpoint x) s))
          | Inl e \<Rightarrow> if fatal e then (s2, Inl e)
              else chain (with_store (forward_failed now c (msg_id m) e) s2) (\<lambda>s _. forward_round ox now xs True s))))"
      by (cases found) (simp_all add: Cons.IH)
  qed (auto simp: effect_refl intro!: with_store_effect claim_outbound_txns)
  then show ?case by (cases "MAX_IN_FLIGHT \<le> length (ss_flight s)") (simp_all add: effect_refl)
qed (simp add: effect_refl)

lemma forward_rounds_effect: "forward_rounds ox now xs n s = Some (s1, r) \<Longrightarrow> R s s1"
proof (induction n arbitrary: s)
  case (Suc n)
  have "R s (fst (forward_round ox now xs False s))" by (rule forward_round_effect)
  then show ?case
    using Suc effect_refl effect_trans by (auto split: if_splits prod.splits sum.splits)
qed simp

lemma pass_cancels_effect: "R s (fst (pass_cancels ox todo s))"
  by (induction todo arbitrary: s)
    (auto simp: effect_refl intro!: chain_effect intro: effect_trans [OF effect_cancels send_effect])

lemma pass_questions_effect: "R s (fst (pass_questions ox todo s))"
  by (induction todo arbitrary: s)
    (auto simp: effect_refl effect_asked Let_def intro!: chain_effect intro: effect_trans [OF effect_asked send_effect])

lemma take_items_effect: "R s (fst (take_items ox items s))"
proof (induction items arbitrary: s)
  case (Cons p rest)
  obtain t x where p: "p = (t, x)" by (cases p)
  show ?case
  proof (cases x)
    case (InFrame f)
    have "R s (fst (chain (handle ox t f s) (\<lambda>s _. take_items ox rest s)))"
      by (intro chain_effect handle_effect Cons.IH)
    then show ?thesis by (simp add: p InFrame)
  qed (simp_all add: p effect_refl)
qed (simp add: effect_refl)

lemma renew_effect: "R s (fst (renew_lease cf now s))"
  by (auto simp: renew_lease_def effect_refl intro!: chain_effect with_store_effect r_into_rtranclp txn_acquire)

lemma ping_effect: "R s (fst (fst (ping_if_due ox cf at s tm)))"
  by (simp add: ping_if_due_def send_effect effect_refl)

lemma serve_turn_effect: "serve_turn ox cf tn s tm = Some (p, tm1) \<Longrightarrow> R s (fst p)"
proof -
  assume served: "serve_turn ox cf tn s tm = Some (p, tm1)"
  then obtain r where r: "forward_outbound ox (tk_now (tn_draw tn)) s = Some r"
    by (auto simp: serve_turn_def split: option.splits)
  have start: "R s (fst r)"
    using forward_rounds_effect r unfolding forward_outbound_def by (metis prod.collapse)
  let ?rest = "chain r (\<lambda>s _. chain (forward_cancellations ox s) (\<lambda>s _. forward_resolutions ox (tk_now (tn_draw tn)) s))"
  have rest: "R s (fst ?rest)"
    by (intro chain_effect start) (simp_all add: forward_cancellations_def forward_resolutions_def
        pass_cancels_effect pass_questions_effect)
  have close: "R s1 (fst (chain q (\<lambda>s _. chain (flush_writer s) (\<lambda>s _. (s, Inr True)))))"
    if "ping_if_due ox cf at s1 tm = (q, tm2)" for s1 at q tm2
    using ping_effect [of s1 cf at tm] that by (intro chain_effect) (auto simp: flush_writer_def effect_refl)
  obtain s1 y where y: "?rest = (s1, y)" by (cases ?rest)
  show ?thesis
  proof (cases y)
    case (Inl e)
    then show ?thesis using served r y rest by (auto simp: serve_turn_def)
  next
    case (Inr u)
    obtain q tm2 where q: "ping_if_due ox cf (tn_at tn) s1 tm = (q, tm2)" by (cases "ping_if_due ox cf (tn_at tn) s1 tm")
    have "R s s1" using rest y by simp
    with effect_trans [OF this close [OF q]] show ?thesis
      using served r y Inr q by (cases "tn_at tn - tm_heard tm \<ge> cf_idle cf") (auto simp: serve_turn_def)
  qed
qed

lemma pump_turn_effect: "pump_turn ox cf tn s tm = Some (p, tm1) \<Longrightarrow> R s (fst p)"
proof -
  assume turned: "pump_turn ox cf tn s tm = Some (p, tm1)"
  let ?tm = "if \<exists>p \<in> set (tn_items tn). is_frame (snd p) then tm\<lparr>tm_heard := tn_at tn\<rparr> else tm"
  obtain s1 y where y: "take_items ox (tn_items tn) s = (s1, y)" by (cases "take_items ox (tn_items tn) s")
  then have one: "R s s1" using take_items_effect [of s "tn_items tn"] by simp
  show ?thesis
  proof (cases "y = Inr True \<and> \<not> tn_hangup tn \<and> \<not> tn_stop tn")
    case True
    show ?thesis
    proof (cases "renewal_due cf (tn_at tn) ?tm")
      case due: True
      obtain s2 z where z: "renew_lease cf (tk_now (tn_draw tn)) s1 = (s2, z)" by (cases "renew_lease cf (tk_now (tn_draw tn)) s1")
      have two: "R s s2" using effect_trans [OF one] renew_effect [of s1 cf "tk_now (tn_draw tn)"] z by simp
      show ?thesis
        using turned y z two True due effect_trans [OF two] serve_turn_effect
        by (cases z) (auto simp: pump_turn_def Let_def)
    next
      case False
      then show ?thesis
        using turned y True effect_trans [OF one] serve_turn_effect by (auto simp: pump_turn_def Let_def)
    qed
  next
    case False
    then have "p = (s1, case y of Inl e \<Rightarrow> Inl e | Inr _ \<Rightarrow> Inr False)"
      using turned y by (cases y) (simp_all add: pump_turn_def Let_def split: if_splits)
    then show ?thesis using one by simp
  qed
qed

lemma pump_effect: "R s (fst (pump ox cf turns s tm))"
proof (induction turns arbitrary: s tm)
  case (Cons tn turns)
  show ?case
    using pump_turn_effect [of cf tn s tm] Cons effect_trans
    by (auto simp: effect_refl split: option.splits prod.splits sum.splits) 
qed (simp add: effect_refl)

end

section \<open>The effects of a bridge\<close>

interpretation reaching: session_effect ox "\<lambda>s s'. (txn (ox_sha ox) (ox_refs ox))\<^sup>*\<^sup>* (ss_store s) (ss_store s')" for ox
  by unfold_locales (auto simp: track_def untrack_def)

interpretation flow: session_effect ox "\<lambda>s s'. length (ss_flight s') \<le> max MAX_IN_FLIGHT (length (ss_flight s))" for ox
proof
  show "length (ss_flight (untrack i s)) \<le> max MAX_IN_FLIGHT (length (ss_flight s))" for s i
    by (simp add: untrack_def le_max_iff_disj)
  show "length (ss_flight (track i x s)) \<le> max MAX_IN_FLIGHT (length (ss_flight s))"
    if "length (ss_flight s) < MAX_IN_FLIGHT" for s i x
    using le_less_trans [OF length_filter_le that, of "\<lambda>p. fst p \<noteq> i"] by (simp add: track_def Suc_le_eq less_max_iff_disj)
qed auto

definition written :: "session \<Rightarrow> session \<Rightarrow> bool" where
  "written s s' \<longleftrightarrow> (\<exists>fs. ss_sent s' = ss_sent s @ fs \<and> list_all (\<lambda>f. frame_validate f = Inr ()) fs)"

lemma written_same: "ss_sent s' = ss_sent s \<Longrightarrow> written s s'"
  by (simp add: written_def)

interpretation writing: session_effect ox written for ox
proof
  show "written s u" if w: "written s t" "written t u" for s t u
  proof -
    obtain fs where "ss_sent t = ss_sent s @ fs" "list_all (\<lambda>f. frame_validate f = Inr ()) fs"
      using w(1) by (auto simp: written_def)
    moreover obtain gs where "ss_sent u = ss_sent t @ gs" "list_all (\<lambda>f. frame_validate f = Inr ()) gs"
      using w(2) by (auto simp: written_def)
    ultimately show ?thesis unfolding written_def by (intro exI [of _ "fs @ gs"]) simp
  qed
  show "written s (s\<lparr>ss_sent := ss_sent s @ [f], ss_writes := ss_writes s - 1\<rparr>)"
    if "encode_frame (ox_frame ox) f = Inr bs" for f bs s
    using that by (simp add: written_def encode_frame_def and_then_eq_Inr_iff)
qed (simp_all add: written_same track_def untrack_def)

lemma identify_txns: "(txn sha json)\<^sup>*\<^sup>* st (fst (identify now fresh fresh' cf theirs st))"
proof -
  have pin: "(txn sha json)\<^sup>*\<^sup>* s (fst (pin_peer now i l h s))" for s i l h
    by (rule r_into_rtranclp) (rule txn_pin)
  have serve: "(txn sha json)\<^sup>*\<^sup>* st (fst (case pin_peer now fresh l h st of
      (st1, Inl PeerMismatch) \<Rightarrow> or_return st1 (fallback_label l theirs) (\<lambda>l'. pin_peer now fresh' l' h st1)
    | r \<Rightarrow> r))" for l h
  proof -
    obtain s1 r where p: "pin_peer now fresh l h st = (s1, r)" by (cases "pin_peer now fresh l h st")
    have one: "(txn sha json)\<^sup>*\<^sup>* st s1" using pin [of st fresh l h] p by simp
    have "(txn sha json)\<^sup>*\<^sup>* st (fst (or_return s1 (fallback_label l theirs) (\<lambda>l'. pin_peer now fresh' l' h s1)))"
      by (rule or_return_inv [where I = "\<lambda>s. (txn sha json)\<^sup>*\<^sup>* st s"]) (simp_all add: one rtranclp_trans [OF one pin])
    then show ?thesis using one by (simp add: p split: sum.split error_code.split)
  qed
  show ?thesis
  proof (cases "cf_role cf")
    case Dial
    then show ?thesis by (simp add: identify_def pin split: option.split)
  next
    case Serve
    show ?thesis
      unfolding identify_def Serve role.case
      by (intro or_return_inv [where I = "\<lambda>s. (txn sha json)\<^sup>*\<^sup>* st s"])
        (auto split: option.split intro!: or_return_inv [where I = "\<lambda>s. (txn sha json)\<^sup>*\<^sup>* st s"] serve)
  qed
qed



end
