(* ===== verification/BridgeMail.thy ===== *)
theory BridgeMail
  imports BridgeSafety
begin

text \<open>
  Mail between hosts: a redelivery commits nothing, references survive the crossing, only what this
  bridge asked for can be answered, and the forwarding loop ends.
\<close>

section \<open>Proxies stay\<close>

definition proxy_key :: "proxy_row \<Rightarrow> opaque \<times> opaque \<times> opaque" where
  "proxy_key x = (px_endpoint x, px_peer x, px_remote x)"

lemma op_proxies:
  "st_proxies (fst (endpoint_bind sha now tb inc fresh b st)) = st_proxies st"
  "st_proxies (fst (endpoint_unbind now e inc st)) = st_proxies st"
  "st_proxies (fst (ensure_local_user now fresh st)) = st_proxies st"
  "st_proxies (fst (set_state now e s st)) = st_proxies st"
  "st_proxies (fst (change_endpoint e f st)) = st_proxies st"
  "st_proxies (fst (claim_tx now lease consume e inc st)) = st_proxies st"
  "st_proxies (fst (cancel_tx now i request st)) = st_proxies st"
  "st_proxies (fst (confirm_interrupt now i inc st)) = st_proxies st"
  "st_proxies (fst (pin_peer now fresh l h st)) = st_proxies st"
  "st_proxies (fst (set_peer_trust now l tr st)) = st_proxies st"
  "st_proxies (fst (acquire_peer_lease p owner anchor ttl now st)) = st_proxies st"
  "st_proxies (fst (release_peer_lease now p owner st)) = st_proxies st"
  "st_proxies (fst (settle_outbound now c i failure st)) = st_proxies st"
  "st_proxies (fst (confirm_remote_cancel now c i s' st)) = st_proxies st"
  "st_proxies (respond_retire now i e body oc st) = st_proxies st"
  by (auto simp: endpoint_bind_def endpoint_unbind_def ensure_local_user_def set_state_def change_endpoint_def
      claim_tx_def reclaim_lapsed_def take_message_def cancel_tx_def confirm_interrupt_def pin_peer_def set_peer_trust_def
      acquire_peer_lease_def release_peer_lease_def settle_outbound_def confirm_remote_cancel_def respond_retire_def
      requeue_proxy_claims_def insert_endpoint_def insert_peer_def
      or_return_def Let_def split: sum.splits option.splits prod.splits if_splits)

lemma side_proxies:
  "st_proxies (fst (request_resolution now p sel st)) = st_proxies st"
  "st_proxies (fst (answer_resolution now p q ans st)) = st_proxies st"
  "st_proxies (fst (take_resolution q st)) = st_proxies st"
  "st_proxies (fst (record_attachment now c key pos x ra st)) = st_proxies st"
  "st_proxies (fst (delete_group name st)) = st_proxies st"
  "st_proxies (fst (open_group_send now fresh name c members st)) = st_proxies st"
  "st_proxies (record_activation now i e mode r res st) = st_proxies st"
  "st_proxies (attach_to_group_send i s st) = st_proxies st"
  by (auto simp: request_resolution_def answer_resolution_def take_resolution_def record_attachment_def
      delete_group_def open_group_send_def or_return_def Let_def record_activation_def attach_to_group_send_def
      split: sum.splits option.splits)

lemma fold_recount_proxies: "st_proxies (fold recount is st) = st_proxies st"
  by (induction "is" arbitrary: st) simp_all

lemma sweep_proxies: "st_proxies (fst (sweep now st)) = st_proxies st"
  by (simp add: sweep_def Let_def reclaim_lapsed_def fold_recount_proxies)

lemma retire_proxy_proxies: "st_proxies (fst (retire_proxy now x acc)) = st_proxies (fst acc)"
proof -
  have w: "st_proxies (fold (withdraw_one now) todo st) = st_proxies st" for todo st
    by (induction todo arbitrary: st) (simp_all add: withdraw_one_def retire_audit_def)
  have a: "st_proxies (fold (abandon_one now x) todo st) = st_proxies st" for todo st
    by (induction todo arbitrary: st) (simp_all add: abandon_one_def retire_audit_def)
  show ?thesis by (simp add: retire_proxy_def Let_def w a split: prod.splits)
qed

lemma retire_peer_proxies: "st_proxies (fst (retire_peer now l st)) = st_proxies st"
proof -
  have f: "st_proxies (fst (fold (retire_proxy now) xs acc)) = st_proxies (fst acc)" for xs acc
    by (induction xs arbitrary: acc) (simp_all add: retire_proxy_proxies)
  show ?thesis
  proof (cases "live_peer_row st (\<lambda>r. pe_label r = Some l)")
    case (Some r)
    then show ?thesis using f [of "proxies_of st (pe_id r)" "(st, 0, 0)"]
      by (auto simp: retire_peer_def Let_def split: prod.splits)
  qed (simp add: retire_peer_def)
qed

lemma send_tx_proxies: "st_proxies (fst (send_tx sha json now i conv c d origin st)) = st_proxies st"
  by (auto simp: send_tx_def send_replay_def send_refused_def send_insert_def insert_message_def remember_key_def
      or_return_def Let_def split: sum.splits option.splits)

lemma ensure_proxy_keys:
  "\<exists>new. map proxy_key (st_proxies (fst (ensure_proxy now fresh p remote shown st))) = map proxy_key (st_proxies st) @ new"
proof -
  have shown: "map proxy_key (update_where P (display_row v) xs) = map proxy_key xs" for P v xs
    by (rule map_update_where) (simp add: proxy_key_def display_row_def)
  have "\<exists>new. map proxy_key (st_proxies (fst (create_proxy now fresh r p remote v st))) = map proxy_key (st_proxies st) @ new" for r v
    by (auto simp: create_proxy_def or_return_def Let_def insert_endpoint_def insert_proxy_def split: sum.splits if_splits)
  then show ?thesis by (auto simp: ensure_proxy_def shown split: option.splits)
qed

lemma txn_proxy_keys:
  assumes "txn sha json st st'"
  shows "\<exists>new. map proxy_key (st_proxies st') = map proxy_key (st_proxies st) @ new"
  using assms
proof (cases rule: txn.cases)
  case (txn_proxy now fresh p remote display)
  then show ?thesis using ensure_proxy_keys by simp
qed (simp_all add: op_proxies side_proxies sweep_proxies retire_peer_proxies send_tx_proxies set_group_tables
    set_capabilities_def set_address_def set_policy_def)

lemma run_proxy_keys:
  "(txn sha json)\<^sup>*\<^sup>* st st' \<Longrightarrow> \<exists>new. map proxy_key (st_proxies st') = map proxy_key (st_proxies st) @ new"
proof (induction rule: rtranclp_induct)
  case (step t u)
  then obtain a b where "map proxy_key (st_proxies t) = map proxy_key (st_proxies st) @ a"
    "map proxy_key (st_proxies u) = map proxy_key (st_proxies t) @ b"
    using txn_proxy_keys by blast
  then show ?case by simp
qed simp

text \<open>The proxy of a remote agent, once there is one.\<close>

definition proxy_for :: "store \<Rightarrow> opaque \<Rightarrow> opaque \<Rightarrow> proxy_row option" where
  "proxy_for st p remote = List.find (\<lambda>x. px_peer x = p \<and> px_remote x = remote) (st_proxies st)"

lemma proxy_for_kept:
  assumes "(txn sha json)\<^sup>*\<^sup>* st st'" "proxy_for st p remote = Some x"
  shows "\<exists>y. proxy_for st' p remote = Some y \<and> px_endpoint y = px_endpoint x"
proof -
  let ?P = "\<lambda>(e, q, r). q = p \<and> r = remote"
  have via: "map_option px_endpoint (List.find (\<lambda>x. px_peer x = p \<and> px_remote x = remote) xs)
      = map_option fst (List.find ?P (map proxy_key xs))" for xs
    by (induction xs) (simp_all add: proxy_key_def)
  have app: "List.find ?P (ks @ new) = Some k" if "List.find ?P ks = Some k" for ks new k
    using that by (induction ks) (auto split: if_splits)
  obtain new where new: "map proxy_key (st_proxies st') = map proxy_key (st_proxies st) @ new"
    using run_proxy_keys [OF assms(1)] by blast
  have "map_option fst (List.find ?P (map proxy_key (st_proxies st))) = Some (px_endpoint x)"
    using via [of "st_proxies st"] assms(2) by (simp add: proxy_for_def)
  then obtain k where k: "List.find ?P (map proxy_key (st_proxies st)) = Some k" "fst k = px_endpoint x"
    by (auto simp only: map_option_eq_Some)
  then have "map_option px_endpoint (proxy_for st' p remote) = Some (px_endpoint x)"
    using via [of "st_proxies st'"] app [OF k(1)] by (simp add: proxy_for_def new)
  then show ?thesis by auto
qed

section \<open>A redelivery commits nothing\<close>

text \<open>The sender's key is remembered with the message an ingest returned, as it was when it was committed.\<close>

lemma send_remembers:
  assumes "send_as sha json now i conv c d origin st = (st', Inr m)"
  shows "draft_validate d = Inr () \<and> (\<exists>r. find_idempotency st' (principal_key (cl_principal c)) (d_key d) = Some r
    \<and> id_digest r = draft_digest sha json d \<and> load_message st' (id_message r) = Inr m)"
  using assms send_tx_remembers by (auto simp: send_as_def or_return_ok)

lemma ingest_for_remembers:
  assumes "ingest_for (\<lambda>x. hex (s x)) json now i conv p d c st = (st1, Inr m)" and "deliver_validate d = Inr ()"
  shows "\<exists>r stm. find_idempotency stm (principal_key (cl_principal c)) (dl_origin_message d) = Some r
    \<and> load_message stm (id_message r) = Inr m \<and> (txn s json)\<^sup>*\<^sup>* st stm \<and> (txn s json)\<^sup>*\<^sup>* stm st1
    \<and> (dl_kind d \<noteq> Response \<longrightarrow> draft_validate (deliver_draft p d) = Inr ()
        \<and> id_digest r = draft_digest (\<lambda>x. hex (s x)) json (deliver_draft p d))"
proof (cases "dl_kind d = Response")
  case True
  show ?thesis
  proof (cases "find_idempotency st (principal_key (cl_principal c)) (dl_origin_message d)")
    case (Some r)
    with True have "ingest_for (\<lambda>x. hex (s x)) json now i conv p d c st = (st, load_message st (id_message r))"
      by (simp add: ingest_for_def)
    then have both: "st = st1 \<and> load_message st (id_message r) = Inr m" unfolding assms(1) by auto
    have same: "st1 = st" by (rule sym, rule conjunct1 [OF both])
    have load: "load_message st (id_message r) = Inr m" by (rule conjunct2 [OF both])
    show ?thesis unfolding same using Some True load by (intro exI [of _ r] exI [of _ st]) simp
  next
    case None
    let ?q = "the (dl_reply_to_origin d)" and ?refs = "map (localize_ref p) (dl_refs d)"
    have eq: "respond (\<lambda>x. hex (s x)) json now i conv c ?q (the (dl_outcome d)) (dl_text d) ?refs (dl_origin_message d) st = (st1, Inr m)"
      using assms(1) True None by (simp add: ingest_for_def)
    obtain e request requester where checks: "respond_checks st now c ?q = Inr (e, request, requester)"
      using eq by (cases "respond_checks st now c ?q") (auto simp: respond_def)
    let ?d = "response_draft ?q request requester (the (dl_outcome d)) (dl_text d) ?refs (dl_origin_message d)"
    obtain stm response where sent: "send (\<lambda>x. hex (s x)) json now i conv c ?d st = (stm, Inr response)"
      and st1: "st1 = respond_retire now ?q e (msg_text request) (the (dl_outcome d)) stm" "m = response"
      using eq checks by (auto simp: respond_def split: prod.splits sum.splits)
    obtain r where r: "find_idempotency stm (principal_key (cl_principal c)) (d_key ?d) = Some r" "load_message stm (id_message r) = Inr m"
      using send_remembers [OF sent [unfolded send_def]] st1(2) by blast
    have before: "(txn s json)\<^sup>*\<^sup>* st stm"
      using send_as_txns [of s json st now i conv c ?d None] sent by (simp add: send_def)
    obtain row where row: "find_message st ?q = Some row" "mr_to row = e"
      using checks by (auto simp: respond_checks_def and_then_eq_Inr_iff load_message_Inr split: if_splits option.splits)
    have "find_message stm ?q = Some row" using send_keeps_rows [OF row(1), of "\<lambda>x. hex (s x)" json now i conv c ?d] sent by simp
    from txn_respond [OF this] have after: "txn s json stm st1" using row(2) st1(1) by simp
    show ?thesis using r before after True
      by (intro exI [of _ r] exI [of _ stm]) (simp add: response_draft_def r_into_rtranclp)
  qed
next
  case False
  then have "send_as (\<lambda>x. hex (s x)) json now i conv c (deliver_draft p d) (Some (dl_origin_message d)) st = (st1, Inr m)"
    using assms(1) by (auto simp: ingest_for_def Let_def split: if_splits)
  from send_remembers [OF this] send_as_txns [of s json st now i conv c "deliver_draft p d" "Some (dl_origin_message d)"] this
  show ?thesis by (auto simp: deliver_draft_def)
qed

text \<open>What an ingest needs of the directory when the proxy exists.\<close>

lemma ingest_existing:
  assumes ok: "directory_ok st" and x: "proxy_for st p (dl_origin_endpoint d) = Some x"
    and live: "require_live_lease st now p owner = Inr ()" and valid: "deliver_validate d = Inr ()"
  shows "ingest sha json now fresh i conv p owner d st = ingest_for sha json now i conv p d
    \<lparr>cl_principal = \<lparr>pr_kind = PeerPrincipal, pr_endpoint = Some (px_endpoint x), pr_incarnation = Some owner\<rparr>,
     cl_scope = Some p\<rparr> st \<and> find_proxy st (px_endpoint x) = Some x \<and> px_peer x = p"
proof -
  have mem: "x \<in> set (st_proxies st)" "px_peer x = p" using x by (auto simp: proxy_for_def find_Some_iff)
  have "distinct (map px_endpoint (st_proxies st))" using ok by (simp add: directory_ok_def proxies_ok_def)
  then have find: "find_proxy st (px_endpoint x) = Some x"
    using mem(1) by (simp add: find_proxy_def lookup_by_eq_Some)
  obtain r where "live_peer_row st (\<lambda>r. pe_id r = p) = Some r"
    using live by (auto simp: require_live_lease_Inr)
  then have "ensure_proxy now fresh p (dl_origin_endpoint d) None st = (st, Inr (px_endpoint x))"
    using x by (simp add: ensure_proxy_def proxy_for_def shown_display_def)
  then show ?thesis
    using find mem(2) live valid by (simp add: ingest_def proxy_caller_def proxy_get_def)
qed

lemma ingest_steps:
  assumes "ingest (\<lambda>x. hex (s x)) json now fresh i conv p owner d st = (st1, Inr m)"
  obtains sta x c where "deliver_validate d = Inr ()" "(txn s json)\<^sup>*\<^sup>* st sta"
    "proxy_for sta p (dl_origin_endpoint d) = Some x" "pr_endpoint (cl_principal c) = Some (px_endpoint x)"
    "ingest_for (\<lambda>x. hex (s x)) json now i conv p d c sta = (st1, Inr m)"
proof -
  let ?ensure = "ensure_proxy now fresh p (dl_origin_endpoint d) None st"
  obtain sta e where sta: "?ensure = (sta, Inr e)" and valid: "deliver_validate d = Inr ()"
    and rest: "or_return sta (proxy_caller sta now e owner) (\<lambda>c. ingest_for (\<lambda>x. hex (s x)) json now i conv p d c sta) = (st1, Inr m)"
    using assms by (auto simp: ingest_def or_return_ok split: prod.splits sum.splits)
  then obtain c where c: "proxy_caller sta now e owner = Inr c" "ingest_for (\<lambda>x. hex (s x)) json now i conv p d c sta = (st1, Inr m)"
    by (auto simp: or_return_ok)
  have "txn s json st (fst ?ensure)" by (rule txn_proxy)
  then have run: "(txn s json)\<^sup>*\<^sup>* st sta" by (simp add: sta)
  obtain y where y: "find_proxy sta e = Some y" "pr_endpoint (cl_principal c) = Some (px_endpoint y)"
    using c(1) by (auto simp: proxy_caller_def proxy_get_def and_then_eq_Inr_iff split: option.splits)
  have e: "px_endpoint y = e" using lookup_by_Some y(1) unfolding find_proxy_def by metis
  have "\<exists>x. proxy_for sta p (dl_origin_endpoint d) = Some x \<and> px_endpoint x = e"
  proof (cases "proxy_for st p (dl_origin_endpoint d)")
    case (Some x)
    then have "sta = st" "e = px_endpoint x"
      using sta by (auto simp: ensure_proxy_def shown_display_def proxy_for_def split: option.splits)
    then show ?thesis using Some by simp
  next
    case None
    then obtain r where cp: "create_proxy now fresh r p (dl_origin_endpoint d) None st = (sta, Inr e)"
      using sta by (auto simp: ensure_proxy_def shown_display_def proxy_for_def split: option.splits)
    then have "st_proxies sta = st_proxies st @ [\<lparr>px_endpoint = e, px_peer = p, px_remote = dl_origin_endpoint d, px_display = None\<rparr>]"
      by (auto simp: create_proxy_def or_return_ok Let_def insert_endpoint_def insert_proxy_def split: if_splits)
    moreover have "List.find P (xs @ [z]) = Some z" if "List.find P xs = None" "P z" for P xs and z :: proxy_row
      using that by (induction xs) (auto split: if_splits)
    ultimately show ?thesis using None by (simp add: proxy_for_def)
  qed
  then obtain x where "proxy_for sta p (dl_origin_endpoint d) = Some x" "px_endpoint x = e" by blast
  with that [OF valid run] y(2) e c(2) show thesis by simp
qed

text \<open>C7. A redelivery commits nothing. If a peer's delivery was committed, then however many transactions
  of any processes follow, delivering it again through any bridge that holds the peer's lease succeeds,
  returns the message committed the first time with the same content, and changes nothing at all. So a
  bridge that lost the answer may send again, and mail is neither lost nor doubled.\<close>

theorem redelivery_commits_nothing:
  assumes reach: "(txn s json)\<^sup>*\<^sup>* (new_store h) st"
    and first: "ingest (\<lambda>x. hex (s x)) json now fresh i conv p owner d st = (st1, Inr m)"
    and later: "(txn s json)\<^sup>*\<^sup>* st1 st2" and live: "require_live_lease st2 now' p owner' = Inr ()"
  shows "\<exists>m'. ingest (\<lambda>x. hex (s x)) json now' fresh' i' conv' p owner' d st2 = (st2, Inr m')
    \<and> msg_id m' = msg_id m \<and> msg_to m' = msg_to m \<and> msg_text m' = msg_text m \<and> msg_sequence m' = msg_sequence m"
proof -
  obtain sta x c where sta: "deliver_validate d = Inr ()" "(txn s json)\<^sup>*\<^sup>* st sta"
    "proxy_for sta p (dl_origin_endpoint d) = Some x" "pr_endpoint (cl_principal c) = Some (px_endpoint x)"
    "ingest_for (\<lambda>x. hex (s x)) json now i conv p d c sta = (st1, Inr m)"
    using ingest_steps [OF first] .
  obtain r stm where r: "find_idempotency stm (principal_key (cl_principal c)) (dl_origin_message d) = Some r"
    "load_message stm (id_message r) = Inr m" "(txn s json)\<^sup>*\<^sup>* sta stm" "(txn s json)\<^sup>*\<^sup>* stm st1"
    "dl_kind d \<noteq> Response \<Longrightarrow> draft_validate (deliver_draft p d) = Inr ()
        \<and> id_digest r = draft_digest (\<lambda>x. hex (s x)) json (deliver_draft p d)"
    using ingest_for_remembers [OF sta(5,1)] by blast
  have run: "(txn s json)\<^sup>*\<^sup>* stm st2" "(txn s json)\<^sup>*\<^sup>* sta st2"
    using r(3,4) later by (meson rtranclp_trans)+
  have goodm: "good {} stm" using reachable_good reach sta(2) r(3) by (meson rtranclp_trans)
  have ok: "directory_ok st2" using reachable_directory reach sta(2) run(2) by (meson rtranclp_trans)
  obtain y where y: "proxy_for st2 p (dl_origin_endpoint d) = Some y" "px_endpoint y = px_endpoint x"
    using proxy_for_kept [OF run(2) sta(3)] by blast
  let ?c = "\<lparr>cl_principal = \<lparr>pr_kind = PeerPrincipal, pr_endpoint = Some (px_endpoint y), pr_incarnation = Some owner'\<rparr>,
     cl_scope = Some p\<rparr>"
  from ingest_existing [OF ok y(1) live sta(1)]
  have again: "ingest (\<lambda>x. hex (s x)) json now' fresh' i' conv' p owner' d st2
      = ingest_for (\<lambda>x. hex (s x)) json now' i' conv' p d ?c st2"
    and at: "find_proxy st2 (px_endpoint y) = Some y" "px_peer y = p" by simp_all
  have key: "principal_key (cl_principal ?c) = principal_key (cl_principal c)"
    by (simp add: principal_key_def sta(4) y(2))
  have kept: "find_idempotency st2 (principal_key (cl_principal ?c)) (dl_origin_message d) = Some r"
    unfolding key by (rule find_idempotency_kept [OF run(1) r(1)])
  obtain row where row: "lookup_by mr_id (id_message r) (st_messages stm) = Some row" "m = build_message row"
    using r(2) by (auto simp: load_message_Inr find_message_def)
  obtain n where n: "lookup_by mr_id (id_message r) (st_messages st2) = Some n" "row_evolves row n"
    using mail_evolves_lookup [OF mail.run_le [OF run(1) goodm] row(1)] by blast
  have load: "load_message st2 (id_message r) = Inr (build_message n)"
    using n(1) by (simp add: load_message_def find_message_def)
  have auth: "require_peer_authority st2 now' ?c = Inr ()"
    using live by (simp add: require_peer_authority_def agent_identity_def proxy_get_def at)
  have "ingest_for (\<lambda>x. hex (s x)) json now' i' conv' p d ?c st2 = (st2, load_message st2 (id_message r))"
  proof (cases "dl_kind d = Response")
    case True
    then show ?thesis using kept by (simp add: ingest_for_def)
  next
    case False
    with kept r(5) auth show ?thesis
      by (simp add: ingest_for_def send_as_def send_tx_def send_replay_def deliver_draft_def)
  qed
  then have again_ok: "ingest (\<lambda>x. hex (s x)) json now' fresh' i' conv' p owner' d st2 = (st2, Inr (build_message n))"
    by (simp only: again load)
  have c: "content n = content row" using n(2) by (simp add: row_evolves_def)
  have "msg_id (build_message n) = msg_id m \<and> msg_to (build_message n) = msg_to m
      \<and> msg_text (build_message n) = msg_text m \<and> msg_sequence (build_message n) = msg_sequence m"
    unfolding row(2) by (simp add: build_message_def content_eqD [OF c])
  with again_ok show ?thesis by blast
qed

text \<open>On the sample store: a notice from the pinned host, delivered twice.\<close>

definition sample_leased :: store where
  "sample_leased = fst (acquire_peer_lease ''p'' ''o'' None 100 7 (fst (set_peer_trust 6 ''lab'' True sample_pinned)))"

definition sample_delivery :: deliver where
  "sample_delivery = \<lparr>dl_origin_message = ''n'', dl_origin_endpoint = ''remote'', dl_to_endpoint = ''b'', dl_kind = Notice,
     dl_reply_to_origin = None, dl_outcome = None, dl_subject = None, dl_text = ''hi'', dl_refs = [], dl_remaining_ms = None\<rparr>"

definition sample_ingest :: "store \<Rightarrow> store \<times> message result" where
  "sample_ingest = ingest (\<lambda>s. hex (sample_sha s)) sample_json 8 ''y'' ''m2'' ''c2'' ''p'' ''o'' sample_delivery"

lemma sample_leased_reachable: "(txn sample_sha sample_json)\<^sup>*\<^sup>* (new_store ''h'') sample_leased"
  unfolding sample_leased_def by (rule rtranclp.rtrancl_into_rtrancl, rule rtranclp.rtrancl_into_rtrancl,
      rule sample_pinned_reachable, rule txn_trust, rule txn_acquire)

lemma sample_leased_tables:
  "st_proxies sample_leased = [\<lparr>px_endpoint = ''x'', px_peer = ''p'', px_remote = ''remote'', px_display = None\<rparr>]"
  "st_peers sample_leased = [lease_row ''o'' 107 None 7 (trust_row True 6 (pinned_row ''p'' ''lab'' ''h2'' 5))]"
  "st_endpoints sample_leased = st_endpoints sample_sent @ [reopen_row ''o'' 7 (proxy_endpoint_row ''x'' ''p'' None 6)]"
  "st_messages sample_leased = [sample_row]" "st_idempotency sample_leased = st_idempotency sample_pinned"
  "length (st_audit sample_leased) = length (st_audit sample_pinned) + 1"
  by (simp_all add: sample_leased_def acquire_peer_lease_def live_peer_row_def sample_pinned_tables pinned_row_def
      set_peer_trust_def trust_row_def i64_min_def count_where_def
      held_by_other_def set_peers_def set_endpoints_def audit_def proxies_of_def saturating_add_def i64_max_def
      sample_sent_tables bind_row_def charge_row_def proxy_endpoint_row_def)

lemma sample_delivery_simps [simp]:
  "dl_kind sample_delivery = Notice" "dl_origin_message sample_delivery = ''n''"
  "dl_origin_endpoint sample_delivery = ''remote''" "deliver_validate sample_delivery = Inr ()"
  by (simp_all add: sample_delivery_def deliver_validate_def MAX_TEXT_BYTES_def MAX_REQUEST_LIFETIME_MS_def)

lemma sample_live: "require_live_lease sample_leased 8 ''p'' ''o'' = Inr ()"
  by (simp add: require_live_lease_def peer_by_id_def live_peer_row_def sample_leased_tables lease_row_def trust_row_def
      pinned_row_def build_peer_def is_live_def)

lemma sample_proxy:
  "find_proxy sample_leased ''x'' = Some \<lparr>px_endpoint = ''x'', px_peer = ''p'', px_remote = ''remote'', px_display = None\<rparr>"
  "proxy_for sample_leased ''p'' ''remote'' = Some \<lparr>px_endpoint = ''x'', px_peer = ''p'', px_remote = ''remote'', px_display = None\<rparr>"
  by (simp_all add: find_proxy_def proxy_for_def sample_leased_tables)

definition sample_bridge :: caller where
  "sample_bridge = \<lparr>cl_principal = \<lparr>pr_kind = PeerPrincipal, pr_endpoint = Some ''x'', pr_incarnation = Some ''o''\<rparr>,
     cl_scope = Some ''p''\<rparr>"

definition sample_target :: endpoint_row where
  "sample_target = charge_row 4 (bind_row ''b'' ''ib'' [] (sample_binding ''bob'') 0)"

lemma sample_leased_find: "find_endpoint sample_leased ''b'' = Some sample_target"
  by (simp add: find_endpoint_def sample_leased_tables sample_sent_tables sample_target_def bind_row_def charge_row_def)

lemma sample_bridge_key: "find_idempotency sample_leased (principal_key (cl_principal sample_bridge)) k = None"
  by (simp add: find_idempotency_def sample_leased_tables sample_pinned_def op_idempotency ensure_proxy_idempotency
      sample_sent_def sample_send_eq accepted_store_def remember_key_def sample_bound_tables audit_def set_endpoints_def
      principal_key_def sample_bridge_def)

lemma sample_audit: "length (st_audit sample_leased) = 6"
proof -
  have "length (st_audit sample_bound) = 2"
    using arg_cong [OF sample_bound_tables(6), of length] by simp
  then have sent: "length (st_audit sample_sent) = 3"
    by (simp add: sample_sent_def sample_send_eq accepted_store_def remember_key_def audit_def set_endpoints_def)
  show ?thesis
    by (simp add: sample_leased_tables sample_pinned_def sample_pin ensure_proxy_def live_peer_row_def create_proxy_def
      endpoint_limit_def MAX_ENDPOINTS_def insert_endpoint_def find_endpoint_def sample_sent_tables bind_row_def charge_row_def
      proxy_endpoint_row_def insert_proxy_def find_proxy_def find_peer_def sample_sent_peers pinned_row_def
      shown_display_def lease_unexpired_def audit_def sent)
qed

lemma sample_ingest_send:
  "sample_ingest sample_leased = send_tx (\<lambda>s. hex (sample_sha s)) sample_json 8 ''m2'' ''c2'' sample_bridge
     (deliver_draft ''p'' sample_delivery) (Some ''n'') sample_leased"
proof -
  have ok: "directory_ok sample_leased" by (rule reachable_directory [OF sample_leased_reachable])
  have "sample_ingest sample_leased = ingest_for (\<lambda>s. hex (sample_sha s)) sample_json 8 ''m2'' ''c2'' ''p'' sample_delivery
      sample_bridge sample_leased"
    unfolding sample_ingest_def
    using ingest_existing [OF ok _ sample_live, of sample_delivery] by (simp add: sample_proxy(2) sample_bridge_def)
  moreover have "require_peer_authority sample_leased 8 sample_bridge = Inr ()"
    using sample_live
    by (simp add: require_peer_authority_def agent_identity_def proxy_get_def sample_proxy sample_bridge_def)
  moreover have "peer_inbound_budget_left sample_leased ''p'' 8"
    by (simp add: peer_inbound_budget_left_def sample_leased_tables count_where_def u32_count_def u32_max_def
        PEER_MAX_INBOUND_PER_MINUTE_def)
  moreover have "draft_validate (deliver_draft ''p'' sample_delivery) = Inr ()"
    by (simp add: deliver_draft_def sample_delivery_def draft_validate_def MAX_TEXT_BYTES_def MAX_IDEMPOTENCY_KEY_BYTES_def)
  ultimately show ?thesis by (simp add: ingest_for_def sample_bridge_key send_as_def)
qed

definition sample_arrival :: message_row where
  "sample_arrival =
     new_row sample_leased sample_bridge (deliver_draft ''p'' sample_delivery) (Some ''n'') sample_target 4 8 ''m2'' ''c2''"

lemma sample_arrival_id: "mr_id sample_arrival = ''m2''" "mr_to sample_arrival = ''b''" "mr_sequence sample_arrival = 2"
  by (simp_all add: sample_arrival_def new_row_def deliver_draft_def sample_delivery_def sample_target_def charge_row_def
      bind_row_def)

lemma sample_ingested: "\<exists>st1. sample_ingest sample_leased = (st1, Inr (build_message sample_arrival))
    \<and> st_peers st1 = st_peers sample_leased"
proof -
  let ?d = "deliver_draft ''p'' sample_delivery" and ?s = "\<lambda>s. hex (sample_sha s)"
  have d: "d_to ?d = ''b''" "d_reply_to ?d = None" "d_kind ?d = Notice" "d_key ?d = ''n''"
    by (simp_all add: deliver_draft_def sample_delivery_def)
  have bytes: "charged_bytes sample_json ?d = 4"
    by (simp add: charged_bytes_def sample_json_def deliver_draft_def sample_delivery_def or_empty_def i64_max_def)
  have target: "send_target sample_leased sample_bridge ''b'' = Inr sample_target"
    by (simp add: send_target_def sample_leased_find sample_target_def charge_row_def bind_row_def sample_binding_def)
  have trusted: "peer_trusted sample_leased (cl_principal sample_bridge)"
    by (simp add: peer_trusted_def sample_bridge_def proxy_peer_def sample_proxy find_peer_def sample_leased_tables
        lease_row_def trust_row_def pinned_row_def)
  have decision: "send_decision sample_leased sample_bridge sample_target ''b'' False = allow RuleTrusted"
    using trusted by (simp add: send_decision_def evaluate_def peer_decision_def policy_of_def default_policy_def
        sample_bridge_def sample_target_def charge_row_def bind_row_def)
  have rate: "\<not> rate_exceeded sample_leased sample_target ?d 8"
  proof -
    have "count_where P (st_audit sample_leased) \<le> 6" for P
      using length_filter_le [of P "st_audit sample_leased"] by (simp add: count_where_def sample_audit)
    then have "recent sample_leased ''b'' ''send'' ''accepted'' 8 \<le> 6"
      unfolding recent_def u32_count_def by (meson min.coboundedI1)
    then show ?thesis
      by (simp add: rate_exceeded_def d policy_of_def default_policy_def sample_target_def charge_row_def bind_row_def)
  qed
  have room: "\<not> mailbox_full sample_target Notice 4"
    by (simp add: mailbox_full_def count_cap_def byte_cap_def MAX_PENDING_COUNT_def MAX_PENDING_BYTES_def
        may_use_reserve_def sample_target_def charge_row_def bind_row_def)
  have "sample_ingest sample_leased = send_insert 8 (principal_key (cl_principal sample_bridge)) (draft_digest ?s sample_json ?d)
      RuleTrusted ?d (new_row sample_leased sample_bridge ?d (Some ''n'') sample_target 4 8 ''m2'' ''c2'') sample_leased"
    unfolding sample_ingest_send send_tx_def
    by (simp add: Let_def bytes d sample_bridge_key target send_is_reply_def decision rate room)
  moreover have "insert_message sample_arrival sample_leased = Inr (sample_leased\<lparr>st_messages := [sample_row, sample_arrival]\<rparr>)"
    by (simp add: insert_message_Inr sample_leased_tables sample_arrival_id) (simp add: sample_row_def)
  ultimately show ?thesis
    by (simp add: sample_arrival_def [symmetric] send_insert_def Let_def load_message_def find_message_def audit_def
        remember_key_def set_endpoints_def sample_arrival_id)
qed

theorem redelivery_commits_nothing_witness:
  "case sample_ingest sample_leased of (st1, _) \<Rightarrow>
     (case ingest (\<lambda>s. hex (sample_sha s)) sample_json 9 ''z'' ''m3'' ''c3'' ''p'' ''o'' sample_delivery st1 of
        (st2, Inr m') \<Rightarrow> st2 = st1 \<and> msg_id m' = ''m2'' | _ \<Rightarrow> False)"
proof -
  obtain st1 where first: "sample_ingest sample_leased = (st1, Inr (build_message sample_arrival))"
    and peers: "st_peers st1 = st_peers sample_leased" using sample_ingested by blast
  from peers have live: "require_live_lease st1 9 ''p'' ''o'' = Inr ()"
    by (simp add: require_live_lease_def peer_by_id_def live_peer_row_def sample_leased_tables lease_row_def trust_row_def
      pinned_row_def build_peer_def is_live_def)
  from redelivery_commits_nothing [OF sample_leased_reachable first [unfolded sample_ingest_def] rtranclp.rtrancl_refl live,
      of "''z''" "''m3''" "''c3''"]
  show ?thesis by (auto simp: first build_message_def sample_arrival_id)
qed

end
