(* ===== verification/BridgeForward.thy ===== *)
theory BridgeForward
  imports BridgeMail
begin

text \<open>
  What a bridge sends and what it believes: references survive the crossing, only an answer to its own
  delivery settles mail, and the forwarding loop ends with nothing left that could be forwarded.
\<close>

section \<open>References\<close>

text \<open>C24. File references survive the crossing. A reference written for one peer, read there as that
  peer's store records it for this host, and written back, means the same file to both: a file of this
  host comes back as a file of this host and a file of the peer as a file of the peer, nothing on the
  wire names a host, and the only reference that cannot be written is a file of some third host.\<close>

theorem refs_round_trip:
  "case outbound_ref p r of
     Inr w \<Rightarrow> (\<exists>w'. outbound_ref q (localize_ref q w) = Inr w' \<and> localize_ref p w' = r)
       \<and> (case wr_ref w of File f \<Rightarrow> file_host f = None | _ \<Rightarrow> True)
   | Inl e \<Rightarrow> e = InvalidRequest \<and> (\<exists>f h. r = File f \<and> file_host f = Some h \<and> h \<noteq> p)"
  by (auto simp: outbound_ref_def localize_ref_def split: reference.splits option.splits ref_host.splits)

section \<open>Settlements\<close>

definition answer_frame :: "opaque \<Rightarrow> wire_error option \<Rightarrow> frame" where
  "answer_frame i answer = (case answer of None \<Rightarrow> FAccepted i | Some e \<Rightarrow> FRefused i e)"

definition held_for :: "opaque \<Rightarrow> opaque \<Rightarrow> opaque \<Rightarrow> message_row \<Rightarrow> bool" where
  "held_for i x owner m \<longleftrightarrow> mr_id m = i \<and> mr_to m = x \<and> mr_state m = Claimed \<and> mr_claim_owner m = Some owner"

lemma settle_outbound_messages:
  assumes "agent_identity c = Inr (x, owner)"
  shows "st_messages (fst (settle_outbound now c i failure st)) = st_messages st
    \<or> st_messages (fst (settle_outbound now c i failure st))
        = update_where (held_for i x owner) (settled_row failure) (st_messages st)"
  by (auto simp: settle_outbound_def assms or_return_def Let_def held_for_def [abs_def] audit_def recount_def
      set_messages_def set_endpoints_def split: sum.splits)

lemma on_settled_store:
  assumes flight: "map_of (ss_flight s) i = Some x"
  shows "\<exists>st. fst (on_settled t i failure s) = (untrack i s)\<lparr>ss_store := st\<rparr>
    \<and> (st_messages st = st_messages (ss_store s)
       \<or> st_messages st = update_where (held_for i x (ss_owner s)) (settled_row failure) (st_messages (ss_store s)))"
proof (cases "proxy_caller (ss_store s) (tk_now t) x (ss_owner s)")
  case (Inl e)
  have "fst (on_settled t i failure s) = (untrack i s)\<lparr>ss_store := ss_store s\<rparr>"
    using flight Inl by (simp add: on_settled_def chain_def untrack_def)
  then show ?thesis by blast
next
  case (Inr c)
  then obtain y where y: "proxy_get (ss_store s) x = Inr y" "c = \<lparr>cl_principal = \<lparr>pr_kind = PeerPrincipal,
      pr_endpoint = Some (px_endpoint y), pr_incarnation = Some (ss_owner s)\<rparr>, cl_scope = Some (px_peer y)\<rparr>"
    by (auto simp: proxy_caller_def and_then_eq_Inr_iff)
  have "px_endpoint y = x"
    using y(1) by (auto simp: proxy_get_def find_proxy_def split: option.splits dest: lookup_by_Some)
  then have id: "agent_identity c = Inr (x, ss_owner s)" by (simp add: agent_identity_Inr y(2))
  have step: "(case failure of None \<Rightarrow> forwarded (tk_now t) c i | Some e \<Rightarrow> forward_failed (tk_now t) c i e)
      = settle_outbound (tk_now t) c i failure"
    by (auto simp: forwarded_def [abs_def] forward_failed_def [abs_def] split: option.splits)
  have fields: "ss_store (untrack i s) = ss_store s" "ss_owner (untrack i s) = ss_owner s"
    by (simp_all add: untrack_def)
  have "fst (on_settled t i failure s)
      = (untrack i s)\<lparr>ss_store := fst (settle_outbound (tk_now t) c i failure (ss_store s))\<rparr>"
    using flight Inr fields
    by (simp add: on_settled_def Let_def chain_def step with_store_def split: prod.splits sum.splits)
  then show ?thesis using settle_outbound_messages [OF id] by blast
qed

text \<open>C10. Only what this bridge sent can be settled, and only once. An \<open>Accepted\<close> or \<open>Refused\<close> the peer
  sends for a message that is not in flight changes nothing. For one in flight it is forgotten as in
  flight, nothing is written back, and the only rows of the mailboxes that change are the claim this
  bridge's lease holds on that message at the proxy it left through, which becomes settled as the
  answer says: a peer cannot settle mail of another proxy, another bridge or another message.\<close>

theorem settlement_is_solicited:
  "case handle ox t (answer_frame i answer) s of (s', _) \<Rightarrow>
     ss_sent s' = ss_sent s \<and> i \<notin> fst ` set (ss_flight s')
     \<and> (case map_of (ss_flight s) i of
          None \<Rightarrow> s' = s
        | Some x \<Rightarrow>
            st_messages (ss_store s') = st_messages (ss_store s)
            \<or> st_messages (ss_store s')
                = update_where (held_for i x (ss_owner s)) (settled_row (map_option we_code answer)) (st_messages (ss_store s)))"
proof -
  have frame: "handle ox t (answer_frame i answer) s = on_settled t i (map_option we_code answer) s"
    by (simp add: answer_frame_def split: option.splits)
  show ?thesis
  proof (cases "map_of (ss_flight s) i")
    case None
    then have out: "i \<notin> fst ` set (ss_flight s)" by (simp only: map_of_eq_None_iff not_False_eq_True)
    have "on_settled t i (map_option we_code answer) s = (s, Inr ())" by (simp add: on_settled_def None)
    then show ?thesis unfolding frame using out None by simp
  next
    case (Some x)
    from on_settled_store [OF Some, of t "map_option we_code answer"] obtain st where
      st: "fst (on_settled t i (map_option we_code answer) s) = (untrack i s)\<lparr>ss_store := st\<rparr>"
      "st_messages st = st_messages (ss_store s) \<or> st_messages st
         = update_where (held_for i x (ss_owner s)) (settled_row (map_option we_code answer)) (st_messages (ss_store s))"
      by blast
    show ?thesis unfolding frame case_prod_unfold st(1) using st(2) Some by (auto simp: untrack_def)
  qed
qed

section \<open>The forwarding loop ends\<close>

text \<open>Mail that a claim at this moment could take: queued, or claimed under a lease that has run out.\<close>

definition claimable :: "int \<Rightarrow> message_row \<Rightarrow> bool" where
  "claimable now m \<longleftrightarrow> mr_state m = Queued \<or> lapsed now m"

definition due :: "int \<Rightarrow> store \<Rightarrow> nat" where
  "due now st = count_where (claimable now) (st_messages st)"

lemma count_update_le:
  assumes "\<And>r. P r \<Longrightarrow> Q (f r) \<Longrightarrow> Q r"
  shows "count_where Q (update_where P f rows) \<le> count_where Q rows"
  using assms by (induction rows) (auto simp: count_where_def update_where_def)

lemma count_update_less:
  assumes "\<And>r. P r \<Longrightarrow> \<not> Q (f r)" "r \<in> set rows" "P r" "Q r"
  shows "count_where Q (update_where P f rows) < count_where Q rows"
  using assms(2)
proof (induction rows)
  case (Cons a rows)
  have le: "count_where Q (update_where P f rows) \<le> count_where Q rows"
    by (rule count_update_le) (simp add: assms(1))
  show ?case
  proof (cases "a = r")
    case True
    then show ?thesis using le assms by (simp add: count_where_def update_where_def)
  next
    case False
    then show ?thesis using Cons assms(1) by (auto simp: count_where_def update_where_def)
  qed
qed simp

lemma saturating_later: "now < i64_max \<Longrightarrow> lease \<ge> 1 \<Longrightarrow> saturating_add now lease > now"
  by (auto simp: saturating_add_def i64_max_def i64_min_def max_def min_def)

lemma due_reclaim: "due now (reclaim_lapsed now st) \<le> due now st"
  unfolding due_def reclaim_lapsed_def set_messages_def
  by (simp, rule count_update_le) (simp add: claimable_def)

lemma due_settle:
  "due now (fst (settle_outbound at c i failure st)) \<le> due now st"
proof (cases "agent_identity c")
  case (Inr id)
  obtain x owner where "id = (x, owner)" by (cases id)
  from settle_outbound_messages [OF Inr [unfolded this], of at i failure st] show ?thesis
    unfolding due_def by (auto intro!: count_update_le simp: claimable_def lapsed_def settled_row_def split: if_splits)
qed (simp add: settle_outbound_def)

lemma first_visible_mem: "first_visible st is = Inr (Some (i, k, r)) \<Longrightarrow> i \<in> set is"
  by (induction "is") (auto simp: and_then_eq_Inr_iff split: if_splits)

lemma due_claim:
  assumes "now < i64_max" "lease \<ge> 1" "claim_tx now lease False e inc st = (st', Inr (Some m))"
  shows "due now st' < due now st"
proof -
  let ?st = "reclaim_lapsed now st"
  obtain c where c: "first_visible ?st (claim_candidates now e ?st) = Inr (Some c)"
    using assms(3) by (auto simp: claim_tx_def or_return_ok Let_def split: option.splits)
  obtain i k r where ikr: "c = (i, k, r)" by (cases c)
  note found = c [unfolded ikr]
  have st': "st' = take_message now lease False e inc (i, k, r) ?st"
    using assms(3) by (simp add: claim_tx_def found Let_def or_return_def split: sum.splits)
  obtain row where row: "row \<in> set (st_messages ?st)" "mr_id row = i" "mr_state row = Queued"
    using first_visible_mem [OF found] by (auto simp: claim_candidates_def)
  have "\<not> claimable now (claimed_row inc (saturating_add now lease) q)" for q
    using saturating_later [OF assms(1,2)] by (simp add: claimable_def lapsed_def claimed_row_def)
  then have "count_where (claimable now) (update_where (\<lambda>m. mr_id m = i) (claimed_row inc (saturating_add now lease))
      (st_messages ?st)) < count_where (claimable now) (st_messages ?st)"
    by (rule count_update_less [of _ _ _ row]) (use row in \<open>simp_all add: claimable_def\<close>)
  then have "due now st' < due now ?st"
    by (simp add: due_def st' take_message_def Let_def audit_def set_messages_def)
  then show ?thesis using due_reclaim [of now st] by simp
qed

lemma claim_outbound_Inr:
  assumes "claim_outbound now c st = (st', Inr found)"
  shows "\<exists>lease e inc. lease \<ge> 1 \<and> agent_identity c = Inr (e, inc) \<and> claim_tx now lease False e inc st = (st', Inr found)"
proof -
  obtain e inc where id: "agent_identity c = Inr (e, inc)"
    and tx: "claim_tx now (max DEFAULT_CLAIM_LEASE_MS 1) False e inc st = (st', Inr found)"
    using assms by (auto simp: claim_outbound_def claim_as_def or_return_ok split: if_splits)
  then show ?thesis by (meson max.cobounded2)
qed

lemma claim_none:
  assumes "claim_tx now lease consume e inc st = (st', Inr None)"
  shows "st' = reclaim_lapsed now st
    \<and> first_visible (reclaim_lapsed now st) (claim_candidates now e (reclaim_lapsed now st)) = Inr None"
proof -
  obtain found where found: "first_visible (reclaim_lapsed now st) (claim_candidates now e (reclaim_lapsed now st)) = Inr found"
    using assms by (auto simp: claim_tx_def or_return_ok Let_def)
  then have "found = None" using assms by (auto simp: claim_tx_def or_return_def Let_def split: option.splits sum.splits)
  with found assms show ?thesis by (simp add: claim_tx_def or_return_def)
qed

lemma reclaim_again: "reclaim_lapsed now (reclaim_lapsed now st) = reclaim_lapsed now st"
  by (auto simp: reclaim_lapsed_def set_messages_def update_where_def lapsed_def release_claim_def)

lemma forward_round_Cons:
  assumes "forward_round ox now (x # xs) p s = (s', Inr b)" and room: "\<not> MAX_IN_FLIGHT \<le> length (ss_flight s)"
  obtains c st where "proxy_caller (ss_store s) now (px_endpoint x) (ss_owner s) = Inr c"
      "claim_outbound now c (ss_store s) = (st, Inr None)" "forward_round ox now xs p (s\<lparr>ss_store := st\<rparr>) = (s', Inr b)"
  | c st m s2 where "claim_outbound now c (ss_store s) = (st, Inr (Some m))"
      "ss_store s2 = st \<or> (\<exists>e. ss_store s2 = fst (settle_outbound now c (msg_id m) (Some e) st))"
      "forward_round ox now xs True s2 = (s', Inr b)"
proof (cases "proxy_caller (ss_store s) now (px_endpoint x) (ss_owner s)")
  case caller: (Inr c)
  obtain st r where claimed: "claim_outbound now c (ss_store s) = (st, r)" by fastforce
  then obtain found where r: "r = Inr found"
    using assms caller by (cases r) (auto simp: chain_def with_store_def)
  show thesis
  proof (cases found)
    case None
    then show thesis using assms caller claimed r that(1) [OF caller] by (simp add: chain_def with_store_def)
  next
    case (Some m)
    let ?s = "s\<lparr>ss_store := st\<rparr>"
    have rest: "(case outbound st x m now of
            Inr d \<Rightarrow> chain (send_frame ox (FDeliver d) ?s) (\<lambda>s _. forward_round ox now xs True (track (msg_id m) (px_endpoint x) s))
          | Inl e \<Rightarrow> if fatal e then (?s, Inl e)
              else chain (with_store (forward_failed now c (msg_id m) e) ?s) (\<lambda>s _. forward_round ox now xs True s)) = (s', Inr b)"
      using assms caller claimed r by (simp add: chain_def with_store_def Some)
    show thesis
    proof (cases "outbound st x m now")
      case (Inr d)
      obtain s2 q where sent: "send_frame ox (FDeliver d) ?s = (s2, q)" by fastforce
      then have "ss_store (track (msg_id m) (px_endpoint x) s2) = st"
        by (auto simp: send_frame_def track_def split: sum.splits if_splits)
      with rest sent claimed r Inr Some show thesis
        by (cases q) (auto simp: chain_def intro!: that(2))
    next
      case (Inl e)
      then have "\<not> fatal e" using rest by auto
      obtain st2 q where failed: "settle_outbound now c (msg_id m) (Some e) st = (st2, q)" by fastforce
      from rest Inl \<open>\<not> fatal e\<close> failed have "forward_round ox now xs True (s\<lparr>ss_store := st2\<rparr>) = (s', Inr b)"
        by (cases q) (auto simp: chain_def with_store_def forward_failed_def)
      with that(2) [of c st m "s\<lparr>ss_store := st2\<rparr>"] claimed r Some failed show thesis by (metis fst_conv session.select_convs(1) session.update_convs(1) session.surjective)
    qed
  qed
qed (use assms in \<open>simp add: chain_def\<close>)

text \<open>A round that gets anything forward takes mail that was due; nothing else adds to it.\<close>

lemma forward_round_due:
  assumes "now < i64_max"
  shows "forward_round ox now xs p s = (s', Inr b) \<Longrightarrow>
    due now (ss_store s') \<le> due now (ss_store s) \<and> (b \<and> \<not> p \<longrightarrow> due now (ss_store s') < due now (ss_store s))"
proof (induction xs arbitrary: p s)
  case (Cons x xs)
  show ?case
  proof (cases "MAX_IN_FLIGHT \<le> length (ss_flight s)")
    case False
    from Cons.prems False show ?thesis
    proof (cases rule: forward_round_Cons)
      case (1 c st)
      obtain lease e inc where "claim_tx now lease False e inc (ss_store s) = (st, Inr None)"
        using claim_outbound_Inr [OF 1(2)] by blast
      then have "due now st \<le> due now (ss_store s)" using claim_none due_reclaim by metis
      with Cons.IH [OF 1(3)] show ?thesis by (auto intro: order_trans less_le_trans)
    next
      case (2 c st m s2)
      obtain lease e inc where "lease \<ge> 1" "claim_tx now lease False e inc (ss_store s) = (st, Inr (Some m))"
        using claim_outbound_Inr [OF 2(1)] by blast
      from due_claim [OF assms this] have less: "due now st < due now (ss_store s)" .
      have "due now (ss_store s2) \<le> due now st" using 2(2) by (auto simp: due_settle)
      with less Cons.IH [OF 2(3)] show ?thesis by simp
    qed
  qed (use Cons.prems in simp)
qed simp

lemma forward_rounds_end:
  assumes "now < i64_max"
  shows "due now (ss_store s) < n \<Longrightarrow> forward_rounds ox now xs n s \<noteq> None"
proof (induction n arbitrary: s)
  case (Suc n)
  show ?case
  proof (cases "forward_round ox now xs False s")
    case (Pair s1 r)
    show ?thesis
    proof (cases "r = Inr True")
      case True
      have "due now (ss_store s1) < due now (ss_store s)"
        using forward_round_due [OF assms, of ox xs False s s1 True] Pair True by simp
      then have "forward_rounds ox now xs n s1 \<noteq> None" using Suc by simp
      then show ?thesis by (simp add: Pair True)
    next
      case False
      then show ?thesis using Pair by (auto split: sum.splits if_splits)
    qed
  qed
qed simp

text \<open>When a round finds nothing, nothing visible is queued at any proxy.\<close>

definition drained :: "int \<Rightarrow> store \<Rightarrow> proxy_row list \<Rightarrow> bool" where
  "drained now st xs \<longleftrightarrow>
     list_all (\<lambda>x. first_visible st (claim_candidates now (px_endpoint x) st) = Inr None) xs"

lemma progress_stays: "forward_round ox now xs True s = (s', Inr b) \<Longrightarrow> b"
proof (induction xs arbitrary: s)
  case (Cons x xs)
  show ?case
  proof (cases "MAX_IN_FLIGHT \<le> length (ss_flight s)")
    case False
    from Cons.prems False show ?thesis by (cases rule: forward_round_Cons) (blast intro: Cons.IH)+
  qed (use Cons.prems in simp)
qed simp

lemma proxy_caller_identity: "proxy_caller st now x owner = Inr c \<Longrightarrow> agent_identity c = Inr (x, owner)"
  by (auto simp: proxy_caller_def proxy_get_def find_proxy_def agent_identity_Inr and_then_eq_Inr_iff
      split: option.splits dest: lookup_by_Some)

lemma forward_round_drained:
  "forward_round ox now xs p s = (s', Inr False) \<Longrightarrow> \<not> MAX_IN_FLIGHT \<le> length (ss_flight s) \<Longrightarrow>
   xs = [] \<and> s' = s \<or> ss_store s' = reclaim_lapsed now (ss_store s) \<and> drained now (ss_store s') xs"
proof (induction xs arbitrary: p s)
  case (Cons x xs)
  from Cons.prems show ?case
  proof (cases rule: forward_round_Cons)
    case (1 c st)
    obtain lease e inc where "agent_identity c = Inr (e, inc)" "claim_tx now lease False e inc (ss_store s) = (st, Inr None)"
      using claim_outbound_Inr [OF 1(2)] by blast
    with proxy_caller_identity [OF 1(1)] have "claim_tx now lease False (px_endpoint x) inc (ss_store s) = (st, Inr None)"
      by simp
    from claim_none [OF this] have
      here: "st = reclaim_lapsed now (ss_store s)" "first_visible st (claim_candidates now (px_endpoint x) st) = Inr None"
      by simp_all
    have "ss_store s' = st" "drained now (ss_store s') xs"
      using Cons.IH [OF 1(3)] Cons.prems(2) by (auto simp: here(1) reclaim_again drained_def)
    with here show ?thesis unfolding drained_def by simp
  next
    case (2 c st m s2)
    then show ?thesis using progress_stays by blast
  qed
qed simp

lemma forward_rounds_drained:
  "forward_rounds ox now xs n s = Some (s', Inr ()) \<Longrightarrow>
   MAX_IN_FLIGHT \<le> length (ss_flight s') \<or> drained now (ss_store s') xs"
proof (induction n arbitrary: s)
  case (Suc n)
  show ?case
  proof (cases "MAX_IN_FLIGHT \<le> length (ss_flight s)")
    case False
    obtain s1 r where round: "forward_round ox now xs False s = (s1, r)" by fastforce
    show ?thesis
    proof (cases "r = Inr True")
      case True
      then show ?thesis using Suc False round by simp
    next
      case stop: False
      then have "r = Inr False" "s1 = s'" using Suc.prems False round by (auto split: sum.splits if_splits)
      then show ?thesis using forward_round_drained [of ox now xs False s s'] False round
        by (auto simp: drained_def)
    qed
  qed (use Suc.prems in auto)
qed simp

text \<open>C8. Forwarding ends, and leaves nothing it could have sent. At every time short of the end of the
  clock, the loop over a peer's proxies stops, whatever the store holds: no more rounds are needed than
  there are messages, which is the fuel. When it stops without an error, either as many deliveries are
  in flight as the bridge allows, or no proxy of the peer has a message left that is queued, unexpired
  and visible to it.\<close>

theorem forwarding_drains:
  assumes "now < i64_max"
  shows "case forward_outbound ox now s of
      None \<Rightarrow> False
    | Some (s', Inr _) \<Rightarrow> MAX_IN_FLIGHT \<le> length (ss_flight s') \<or> drained now (ss_store s') (list_proxies (ss_store s) (ss_peer s))
    | Some (_, Inl _) \<Rightarrow> True"
proof -
  have "due now (ss_store s) < forward_fuel s" by (simp add: due_def count_where_def forward_fuel_def le_imp_less_Suc)
  from forward_rounds_end [OF assms this] obtain s' r where
    eq: "forward_outbound ox now s = Some (s', r)" unfolding forward_outbound_def by fast
  then show ?thesis using forward_rounds_drained unfolding forward_outbound_def by (cases r) auto
qed

definition sample_session :: session where
  "sample_session = \<lparr>ss_store = sample_leased, ss_peer = ''p'', ss_owner = ''o'', ss_sent = [], ss_writes = 3,
     ss_flight = [], ss_cancels = {}, ss_asked = {}\<rparr>"

definition sample_outside :: outside where
  "sample_outside = \<lparr>ox_sha = sample_sha, ox_refs = sample_json, ox_hello = (\<lambda>_. []), ox_frame = (\<lambda>_. []), ox_say = (\<lambda>_. [])\<rparr>"

theorem forwarding_drains_witness:
  "case forward_outbound sample_outside 8 sample_session of
     None \<Rightarrow> False
   | Some (s', Inr _) \<Rightarrow> MAX_IN_FLIGHT \<le> length (ss_flight s')
       \<or> drained 8 (ss_store s') [\<lparr>px_endpoint = ''x'', px_peer = ''p'', px_remote = ''remote'', px_display = None\<rparr>]
   | Some (_, Inl _) \<Rightarrow> True"
proof -
  have one: "list_proxies (ss_store sample_session) (ss_peer sample_session)
      = [\<lparr>px_endpoint = ''x'', px_peer = ''p'', px_remote = ''remote'', px_display = None\<rparr>]"
    by (simp add: sample_session_def list_proxies_def sample_leased_tables find_endpoint_def sample_sent_tables
        bind_row_def charge_row_def reopen_row_def proxy_endpoint_row_def)
  have "(8 :: int) < i64_max" by (simp add: i64_max_def)
  from forwarding_drains [OF this, of sample_session sample_outside] show ?thesis unfolding one .
qed

end
