(* ===== verification/ProviderAdapter.thy ===== *)
theory ProviderAdapter
  imports MeshCapability MeshWire MeshTime
begin

text \<open>
  Provider adapters (\<open>vvagent/src/adapter.rs\<close>): which capabilities an agent program has, by the version
  it reports, and how a turn is started in it. Outside are the programs and servers themselves: what
  they report when probed, how a control command ends, what a server answers.
\<close>

section \<open>Versions\<close>

type_synonym version = "nat \<times> nat \<times> nat"

text \<open>
  The inner loop of \<open>Version::parse\<close>, from the first digit of a run: the parts read, and the rest.
  Numbers saturate at the largest \<open>u32\<close>.
\<close>

definition add_digit :: "nat \<Rightarrow> char \<Rightarrow> nat" where
  "add_digit n c = min u32_max (min u32_max (n * 10) + digit_val c)"

fun scan_parts :: "nat list \<Rightarrow> nat \<Rightarrow> nat \<Rightarrow> string \<Rightarrow> nat list \<times> string" where
  "scan_parts parts current digits [] = (if digits > 0 then parts @ [current] else parts, [])"
| "scan_parts parts current digits (c # cs) =
     (if is_ascii_digit c then scan_parts parts (add_digit current c) (digits + 1) cs
      else if c = CHR ''.'' \<and> digits > 0 \<and> cs \<noteq> [] \<and> is_ascii_digit (hd cs)
      then scan_parts (parts @ [current]) 0 0 cs
      else (if digits > 0 then parts @ [current] else parts, c # cs))"

lemma scan_parts_rest: "length (snd (scan_parts parts current digits s)) \<le> length s"
  by (induction parts current digits s rule: scan_parts.induct) auto

lemma scan_parts_shrinks: "is_ascii_digit c \<Longrightarrow> length (snd (scan_parts parts current digits (c # cs))) < Suc (length cs)"
  by (simp add: scan_parts_rest le_imp_less_Suc)

function version_parse :: "string \<Rightarrow> version option" where
  "version_parse s =
     (case s of
        [] \<Rightarrow> None
      | c # cs \<Rightarrow>
          if \<not> is_ascii_digit c then version_parse cs
          else (case scan_parts [] 0 0 s of (parts, rest) \<Rightarrow>
                  if length parts \<ge> 2
                  then Some (parts ! 0, parts ! 1, if length parts > 2 then parts ! 2 else 0)
                  else version_parse rest))"
  by pat_completeness auto
termination
  by (relation "measure length") (auto dest: scan_parts_shrinks simp: less_Suc_eq_le scan_parts_rest, metis scan_parts_rest snd_conv)

declare version_parse.simps [simp del]

definition version_str :: "version \<Rightarrow> string" where
  "version_str v = (case v of (a, b, c) \<Rightarrow> dec a @ ''.'' @ dec b @ ''.'' @ dec c)"

text \<open>The derived order: by the first number, then the second, then the third.\<close>

definition version_less :: "version \<Rightarrow> version \<Rightarrow> bool" where
  "version_less v w =
     (case v of (a, b, c) \<Rightarrow> case w of (a', b', c') \<Rightarrow> a < a' \<or> a = a' \<and> (b < b' \<or> b = b' \<and> c < c'))"

text \<open>\<open>truncate\<close> marks a cut with an ellipsis; \<open>format!\<close> writes backquotes and dashes in UTF-8.\<close>

definition shorten :: "string \<Rightarrow> nat \<Rightarrow> string" where
  "shorten s limit =
     (if length s \<le> limit then s else take (boundary_below s limit) s @ [CHR 0xE2, CHR 0x80, CHR 0xA6])"

definition gate_version :: "string \<Rightarrow> version \<Rightarrow> capabilities \<Rightarrow> capabilities" where
  "gate_version provider floor c =
     (case cap_version c of
        None \<Rightarrow> withdraw_actuating (provider @ '' is not installed or did not report a version'') c
      | Some reported \<Rightarrow>
          (case version_parse reported of
             None \<Rightarrow> withdraw_actuating (''cannot read a version from `'' @ shorten reported 60 @ ''`; '' @ provider
                       @ '' is tested from '' @ version_str floor) c
           | Some found \<Rightarrow>
               if version_less found floor
               then withdraw_actuating (provider @ '' '' @ version_str found @ '' is below the tested floor ''
                      @ version_str floor) c
               else c))"

section \<open>The providers\<close>

datatype provider = Codex | Claude | OpenCode | Hermes | Fake

definition for_provider :: "string \<Rightarrow> provider option" where
  "for_provider s =
     (if s = ''codex'' then Some Codex
      else if s = ''claude'' then Some Claude
      else if s = ''opencode'' then Some OpenCode
      else if s = ''hermes'' then Some Hermes
      else if s = ''fake'' then Some Fake
      else None)"

fun provider_str :: "provider \<Rightarrow> string" where
  "provider_str Codex = ''codex''"
| "provider_str Claude = ''claude''"
| "provider_str OpenCode = ''opencode''"
| "provider_str Hermes = ''hermes''"
| "provider_str Fake = ''fake''"

fun floor_of :: "provider \<Rightarrow> version" where
  "floor_of Codex = (0, 151, 0)"
| "floor_of Claude = (2, 1, 259)"
| "floor_of OpenCode = (0, 1, 0)"
| "floor_of Hermes = (0, 19, 1)"
| "floor_of Fake = (0, 0, 0)"

datatype activation = Started | Declined string | Unavailable string

fun activation_str :: "activation \<Rightarrow> string" where
  "activation_str Started = ''started''"
| "activation_str (Declined r) = ''declined''"
| "activation_str (Unavailable r) = ''unavailable''"

fun activation_detail :: "activation \<Rightarrow> string option" where
  "activation_detail Started = None"
| "activation_detail (Declined r) = Some r"
| "activation_detail (Unavailable r) = Some r"

text \<open>
  What a control command came to: it could not be started, or asked about; it ended, with its status
  and what it wrote to standard error; its output could not be read; or it outlived the deadline.
\<close>

datatype control_end = NotSpawned string | Unwatched string | Ended bool string | OutputLost | Overran

record world =
  wd_version :: "provider \<Rightarrow> string option"
  wd_codex :: string
  wd_server :: "string option"
  wd_answers :: "string \<Rightarrow> bool"
  wd_post :: "string \<Rightarrow> string \<Rightarrow> string \<Rightarrow> string + nat"
  wd_abort :: "string \<Rightarrow> string \<Rightarrow> bool"
  wd_fake_program :: "string option"
  wd_fake_granted :: "capability list"
  wd_control :: "string \<Rightarrow> string list \<Rightarrow> control_end"

text \<open>The first of \<open>str::lines\<close>: up to the first line feed, less a carriage return before it.\<close>

definition first_line :: "string \<Rightarrow> string option" where
  "first_line s =
     (if s = [] then None
      else let l = takeWhile (\<lambda>c. c \<noteq> CHR 0x0A) s
           in Some (if l \<noteq> s \<and> l \<noteq> [] \<and> last l = CHR 0x0D then butlast l else l))"

definition run_control :: "world \<Rightarrow> string \<Rightarrow> string list \<Rightarrow> activation result" where
  "run_control w program args =
     (case wd_control w program args of
        NotSpawned why \<Rightarrow> Inr (Unavailable (program @ '': '' @ why))
      | Unwatched why \<Rightarrow> Inr (Unavailable (program @ '': '' @ why))
      | Ended success err \<Rightarrow>
          Inr (if success then Started
               else Declined (shorten (trim (case first_line err of Some l \<Rightarrow> l | None \<Rightarrow> ''no detail'')) 200))
      | OutputLost \<Rightarrow> Inl IoError
      | Overran \<Rightarrow> Inr (Unavailable (program @ '' did not answer within 20s'')))"

definition carries_payload_in_argv :: "provider \<Rightarrow> bool" where
  "carries_payload_in_argv p \<longleftrightarrow> p \<noteq> OpenCode"

section \<open>Capabilities\<close>

fun granted_of :: "world \<Rightarrow> provider \<Rightarrow> capability list" where
  "granted_of w Codex = [StructuredPull, ExternalTurnStart]"
| "granted_of w Claude = [StructuredPull]"
| "granted_of w OpenCode = [StructuredPull, ExternalTurnStart, ExternalInterrupt]"
| "granted_of w Hermes = [StructuredPull]"
| "granted_of w Fake = wd_fake_granted w"

definition declared :: "world \<Rightarrow> provider \<Rightarrow> string option \<Rightarrow> capabilities" where
  "declared w p native =
     \<lparr>cap_provider = Some (provider_str p), cap_version = (if p = Fake then Some ''9.9.9'' else wd_version w p),
      cap_native_session = native, cap_granted = granted_of w p, cap_notes = []\<rparr>"

definition codex_capabilities :: "world \<Rightarrow> string option \<Rightarrow> capabilities" where
  "codex_capabilities w native =
     (let c = gate_version (provider_str Codex) (floor_of Codex) (declared w Codex native);
          c' = (if native = None
                then withdraw_actuating ''no Codex thread to queue into; give --native-session a thread id or name'' c
                else c)
      in add_note (''Codex interruption and final-answer capture require an exact request-to-turn binding; ''
           @ ''neither is established by the queue adapter'') c')"

definition claude_capabilities :: "world \<Rightarrow> string option \<Rightarrow> capabilities" where
  "claude_capabilities w native =
     add_note (''no supported way to start a turn in a running Claude Code session; mail waits for its next turn'')
       (gate_version (provider_str Claude) (floor_of Claude) (declared w Claude native))"

definition opencode_capabilities :: "world \<Rightarrow> string option \<Rightarrow> capabilities" where
  "opencode_capabilities w native =
     (let c = gate_version (provider_str OpenCode) (floor_of OpenCode) (declared w OpenCode native)
      in (case wd_server w of
            None \<Rightarrow> withdraw_actuating ''no OpenCode server; set OPENCODE_SERVER to a running `opencode serve` origin'' c
          | Some server \<Rightarrow>
              if native = None
              then withdraw_actuating ''no OpenCode session id to prompt; give --native-session'' c
              else if \<not> wd_answers w server
              then withdraw_actuating (''the OpenCode server at '' @ server @ '' did not answer'') c
              else c))"

definition hermes_capabilities :: "world \<Rightarrow> string option \<Rightarrow> capabilities" where
  "hermes_capabilities w native =
     add_note (''starting a turn in a running Hermes TUI is unproven; its shell hooks are consent-gated ''
         @ ''and the mesh does not bypass that'')
       (gate_version (provider_str Hermes) (floor_of Hermes) (declared w Hermes native))"

definition fake_capabilities :: "world \<Rightarrow> string option \<Rightarrow> capabilities" where
  "fake_capabilities w native =
     (if native = None
      then withdraw_actuating ''the fake provider was given no session'' (declared w Fake native)
      else declared w Fake native)"

fun adapter_capabilities :: "world \<Rightarrow> provider \<Rightarrow> string option \<Rightarrow> capabilities" where
  "adapter_capabilities w Codex = codex_capabilities w"
| "adapter_capabilities w Claude = claude_capabilities w"
| "adapter_capabilities w OpenCode = opencode_capabilities w"
| "adapter_capabilities w Hermes = hermes_capabilities w"
| "adapter_capabilities w Fake = fake_capabilities w"

section \<open>Starting and stopping a turn\<close>

definition codex_activate :: "world \<Rightarrow> string \<Rightarrow> string \<Rightarrow> activation result" where
  "codex_activate w native t =
     and_then (run_control w (wd_codex w) [''queue'', ''--thread'', native, ''--message'', t]) (\<lambda>r.
       Inr (if r = Started then Started
            else Unavailable ((case activation_detail r of Some d \<Rightarrow> d | None \<Rightarrow> ''Codex activation failed'')
                   @ ''; set up the local Codex daemon explicitly with `codex app-server daemon bootstrap`, ''
                   @ ''then verify the thread is loaded; the mesh never starts the daemon'')))"

definition claude_activate :: "world \<Rightarrow> string \<Rightarrow> string \<Rightarrow> activation result" where
  "claude_activate w native t = Inr (Unavailable ''Claude Code exposes no supported external turn-start'')"

definition opencode_activate :: "world \<Rightarrow> string \<Rightarrow> string \<Rightarrow> activation result" where
  "opencode_activate w native t =
     (case wd_server w of
        None \<Rightarrow> Inr (Unavailable ''OPENCODE_SERVER is unset'')
      | Some server \<Rightarrow>
          (case wd_post w server (''/session/'' @ native @ ''/prompt_async'') t of
             Inr status \<Rightarrow>
               Inr (if 200 \<le> status \<and> status < 300 then Started else Declined (''HTTP '' @ dec status))
           | Inl err \<Rightarrow> Inr (Unavailable (shorten err 200))))"

definition hermes_activate :: "world \<Rightarrow> string \<Rightarrow> string \<Rightarrow> activation result" where
  "hermes_activate w native t = Inr (Unavailable ''Hermes external turn-start is not established'')"

definition fake_activate :: "world \<Rightarrow> string \<Rightarrow> string \<Rightarrow> activation result" where
  "fake_activate w native t =
     (case wd_fake_program w of
        None \<Rightarrow> Inr (Unavailable ''AGENT_MESH_FAKE_ACTIVATE is unset'')
      | Some program \<Rightarrow> run_control w program [native, t])"

fun adapter_activate :: "world \<Rightarrow> provider \<Rightarrow> string \<Rightarrow> string \<Rightarrow> activation result" where
  "adapter_activate w Codex = codex_activate w"
| "adapter_activate w Claude = claude_activate w"
| "adapter_activate w OpenCode = opencode_activate w"
| "adapter_activate w Hermes = hermes_activate w"
| "adapter_activate w Fake = fake_activate w"

datatype interruption = Confirmed | Unconfirmed

definition session_name_ok :: "string \<Rightarrow> bool" where
  "session_name_ok s \<longleftrightarrow>
     s \<noteq> [] \<and> list_all (\<lambda>c. is_ascii_alphabetic c \<or> is_ascii_digit c \<or> c = CHR ''_'' \<or> c = CHR ''-'') s"

definition opencode_interrupt :: "world \<Rightarrow> string \<Rightarrow> interruption" where
  "opencode_interrupt w native =
     (if \<not> has (opencode_capabilities w (Some native)) ExternalInterrupt \<or> \<not> session_name_ok native
      then Unconfirmed
      else (case wd_server w of
              None \<Rightarrow> Unconfirmed
            | Some server \<Rightarrow>
                if wd_abort w server (''/session/'' @ native @ ''/abort'') then Confirmed else Unconfirmed))"

text \<open>The other providers have the trait's own \<open>interrupt\<close>.\<close>

definition adapter_interrupt :: "world \<Rightarrow> provider \<Rightarrow> string \<Rightarrow> interruption" where
  "adapter_interrupt w p native = (if p = OpenCode then opencode_interrupt w native else Unconfirmed)"

lemmas capabilities_defs = codex_capabilities_def claude_capabilities_def opencode_capabilities_def
  hermes_capabilities_def fake_capabilities_def

lemmas activate_defs = codex_activate_def claude_activate_def opencode_activate_def hermes_activate_def fake_activate_def

end
