(* ===== verification/LayoutReconcile.thy ===== *)
theory LayoutReconcile
  imports StoreDirectory ProviderAdapter
begin

text \<open>
  Keeping endpoint addresses in step with a runtime's layout (\<open>vvagent/src/reconcile.rs\<close>). Outside are
  the layout command and the JSON reader; a parsed document is a value of the type below.
\<close>

section \<open>Documents\<close>

text \<open>\<open>serde_json::Value\<close>. \<open>JNegative n\<close> is the number \<open>-(n + 1)\<close>; one with a fraction is \<open>JOther\<close>.
  The keys of an object are distinct.\<close>

datatype json =
    JNull | JBool bool | JUnsigned nat | JNegative nat | JOther | JString string | JArray "json list"
  | JObject "(string \<times> json) list"

text \<open>Indexing by a key is \<open>JNull\<close> when there is none.\<close>

definition member_of :: "json \<Rightarrow> string \<Rightarrow> json" where
  "member_of v k =
     (case v of JObject ms \<Rightarrow> (case map_of ms k of Some x \<Rightarrow> x | None \<Rightarrow> JNull) | _ \<Rightarrow> JNull)"

definition elements_of :: "json \<Rightarrow> json list" where
  "elements_of v = (case v of JArray xs \<Rightarrow> xs | _ \<Rightarrow> [])"

definition index_of :: "json \<Rightarrow> string \<Rightarrow> u32 option" where
  "index_of v k =
     (case member_of v k of
        JUnsigned n \<Rightarrow> if n \<le> u32_max \<and> n > 0 then Some (of_nat n) else None
      | _ \<Rightarrow> None)"

section \<open>Placements\<close>

record placement =
  pl_anchor :: segment
  pl_address :: address

definition optional_segment :: "level \<Rightarrow> u32 option \<Rightarrow> segment list" where
  "optional_segment l i = (case i of Some n \<Rightarrow> [\<lparr>seg_level = l, seg_index = n\<rparr>] | None \<Rightarrow> [])"

definition window_placement :: "u32 option \<Rightarrow> u32 option \<Rightarrow> json \<Rightarrow> placement option" where
  "window_placement space tab pane =
     Option.bind (index_of pane ''window_id'') (\<lambda>w.
       let anchor = \<lparr>seg_level = Window, seg_index = w\<rparr>
       in (case address_new (optional_segment Space space @ optional_segment Tab tab @ [anchor]) of
             Inr a \<Rightarrow> Some \<lparr>pl_anchor = anchor, pl_address = a\<rparr> | Inl _ \<Rightarrow> None))"

definition frame_placement :: "u32 option \<Rightarrow> json \<Rightarrow> placement option" where
  "frame_placement tab_id pane =
     Option.bind tab_id (\<lambda>f. Option.bind (index_of pane ''pane_id'') (\<lambda>p.
       let anchor = \<lparr>seg_level = Pane, seg_index = p\<rparr>
       in (case address_new [\<lparr>seg_level = Frame, seg_index = f\<rparr>, anchor] of
             Inr a \<Rightarrow> Some \<lparr>pl_anchor = anchor, pl_address = a\<rparr> | Inl _ \<Rightarrow> None)))"

definition pane_placements :: "u32 option \<Rightarrow> u32 option \<Rightarrow> u32 option \<Rightarrow> json \<Rightarrow> placement list" where
  "pane_placements space tab tab_id pane =
     (case window_placement space tab pane of
        Some p \<Rightarrow> [p]
      | None \<Rightarrow> (case frame_placement tab_id pane of Some p \<Rightarrow> [p] | None \<Rightarrow> []))"

definition groups_of :: "json \<Rightarrow> (u32 option \<times> u32 option \<times> json) list" where
  "groups_of space =
     (let tabs = elements_of (member_of space ''tabs'')
      in if tabs = [] then [(None, None, space)]
         else map (\<lambda>t. (index_of t ''tab_index'', index_of t ''tab_id'', t)) tabs)"

definition spaces_of :: "json \<Rightarrow> (u32 option \<times> json) list" where
  "spaces_of layout =
     (let ws = elements_of (member_of layout ''workspaces'')
      in if ws = [] then [(None, layout)] else map (\<lambda>w. (index_of w ''workspace_index'', w)) ws)"

definition placements :: "json \<Rightarrow> placement list" where
  "placements layout =
     concat (map (\<lambda>(space, ws).
       concat (map (\<lambda>(tab, tab_id, g).
         concat (map (pane_placements space tab tab_id) (elements_of (member_of g ''panes''))))
         (groups_of ws)))
       (spaces_of layout))"

section \<open>One pass\<close>

record reconciled =
  rc_seen :: nat
  rc_moved :: "(opaque \<times> string \<times> string) list"

text \<open>The endpoints of the instance that the anchor finds.\<close>

definition anchored :: "opaque \<Rightarrow> address \<Rightarrow> endpoint list \<Rightarrow> endpoint list" where
  "anchored scope anchor es =
     filter (\<lambda>e. (case loc_address (ep_locator e) of Some a \<Rightarrow> satisfies a anchor | None \<Rightarrow> False))
       (filter (\<lambda>e. loc_instance_id (ep_locator e) = scope) es)"

fun place_all ::
  "int \<Rightarrow> opaque \<Rightarrow> endpoint list \<Rightarrow> placement list \<Rightarrow> reconciled \<Rightarrow> store \<Rightarrow> store \<times> reconciled result" where
  "place_all now scope es [] acc st = (st, Inr acc)"
| "place_all now scope es (p # ps) acc st =
     or_return st (address_new [pl_anchor p]) (\<lambda>anchor.
       (case anchored scope anchor es of
          [e] \<Rightarrow>
            (if loc_address (ep_locator e) = Some (pl_address p) then place_all now scope es ps acc st
             else (case set_address now (ep_id e) (Some (pl_address p)) st of
                     (st1, Inl err) \<Rightarrow> (st1, Inl err)
                   | (st1, Inr _) \<Rightarrow>
                       place_all now scope es ps
                         (acc\<lparr>rc_moved := rc_moved acc @ [(ep_id e,
                            (case loc_address (ep_locator e) of Some a \<Rightarrow> address_str a | None \<Rightarrow> []),
                            address_str (pl_address p))]\<rparr>) st1))
        | _ \<Rightarrow> place_all now scope es ps acc st))"

text \<open>How the layout command ended, and what \<open>capture\<close> makes of it; \<open>read\<close> is the JSON reader.\<close>

datatype layout_end = LayoutNotRun | LayoutOverran | LayoutEnded bool string

definition capture :: "(string \<Rightarrow> json option) \<Rightarrow> layout_end \<Rightarrow> json result" where
  "capture read end =
     (case end of
        LayoutEnded True out \<Rightarrow> (case read out of Some v \<Rightarrow> Inr v | None \<Rightarrow> Inl InvalidRequest)
      | _ \<Rightarrow> Inl IoError)"

definition reconcile_run ::
  "int \<Rightarrow> opaque \<Rightarrow> json result \<Rightarrow> store \<Rightarrow> store \<times> reconciled result" where
  "reconcile_run now scope captured st =
     or_return st captured (\<lambda>layout.
     or_return st (list_endpoints st) (\<lambda>es.
       place_all now scope es (placements layout) \<lparr>rc_seen = length (placements layout), rc_moved = []\<rparr> st))"

section \<open>Only addresses move\<close>

text \<open>The row of an endpoint without its position.\<close>

definition unplaced :: "endpoint_row \<Rightarrow> endpoint_row" where
  "unplaced r = r\<lparr>er_address := None, er_updated_at := 0\<rparr>"

lemma placement_ok:
  assumes "p \<in> set (placements layout)"
  shows "wf_address (pl_address p) \<and> satisfies (pl_address p) [pl_anchor p]"
proof -
  have w: "wf_address (pl_address p) \<and> satisfies (pl_address p) [pl_anchor p]"
    if "window_placement space tab pane = Some p" for space tab pane
    using that
    by (auto simp: window_placement_def Let_def address_new_Inr_iff optional_segment_def satisfies_def address_get_def
        split: sum.splits option.splits bind_splits)
  have f: "wf_address (pl_address p) \<and> satisfies (pl_address p) [pl_anchor p]"
    if "frame_placement tab_id pane = Some p" for tab_id pane
    using that
    by (auto simp: frame_placement_def Let_def address_new_Inr_iff satisfies_def address_get_def
        split: sum.splits bind_splits)
  show ?thesis using assms w f by (fastforce simp: placements_def pane_placements_def split: option.splits)
qed

text \<open>What may become of a row: its position is that of a placement whose anchor found it.\<close>

definition moved_by :: "opaque \<Rightarrow> placement list \<Rightarrow> endpoint_row \<Rightarrow> endpoint_row \<Rightarrow> bool" where
  "moved_by scope ps a b \<longleftrightarrow> unplaced b = unplaced a \<and> (b = a \<or>
     (er_instance a = scope \<and> er_kind a \<noteq> PeerRuntime
      \<and> (\<exists>p \<in> set ps. \<exists>old. read_address (er_address a) = Inr (Some old) \<and> satisfies old [pl_anchor p]
           \<and> er_address b = Some (address_str (pl_address p)) \<and> satisfies (pl_address p) [pl_anchor p]
           \<and> read_address (er_address b) = Inr (Some (pl_address p)))))"

lemma unplaced_kept: "unplaced (address_row a now r) = unplaced r"
  by (simp add: unplaced_def address_row_def)

lemma unplaced_id: "unplaced b = unplaced a \<Longrightarrow> er_id b = er_id a"
  by (auto simp: unplaced_def dest: arg_cong [where f = er_id])

lemma collect_mem: "collect rs = Inr xs \<Longrightarrow> x \<in> set xs \<Longrightarrow> Inr x \<in> set rs"
  by (induction rs arbitrary: xs) (auto simp: and_then_eq_Inr_iff)

lemma place_all_moves:
  assumes rows: "\<forall>e \<in> set es. \<exists>r \<in> set (st_endpoints st0). er_kind r \<noteq> PeerRuntime \<and> build_endpoint r = Inr e"
    and keys: "distinct (map er_id (st_endpoints st0))"
    and good: "\<forall>p \<in> set all. wf_address (pl_address p) \<and> satisfies (pl_address p) [pl_anchor p]"
  shows "set ps \<subseteq> set all \<Longrightarrow> st = st0\<lparr>st_endpoints := rs\<rparr> \<Longrightarrow> list_all2 (moved_by scope all) (st_endpoints st0) rs \<Longrightarrow>
    \<exists>rs'. fst (place_all now scope es ps acc st) = st0\<lparr>st_endpoints := rs'\<rparr> \<and> list_all2 (moved_by scope all) (st_endpoints st0) rs'"
proof (induction ps arbitrary: acc st rs)
  case (Cons p ps)
  show ?case
  proof (cases "address_new [pl_anchor p]")
    case (Inr anchor)
    then have anchor: "anchor = [pl_anchor p]" by (simp add: address_new_Inr_iff)
    have skip: ?thesis if "place_all now scope es (p # ps) acc st = place_all now scope es ps acc st"
      using that Cons by simp
    show ?thesis
    proof (cases "\<exists>e. anchored scope anchor es = [e] \<and> loc_address (ep_locator e) \<noteq> Some (pl_address p)")
      case False
      then have "place_all now scope es (p # ps) acc st = place_all now scope es ps acc st"
        by (auto simp: Inr split: list.splits)
      then show ?thesis by (rule skip)
    next
      case True
      then obtain e where e: "anchored scope anchor es = [e]" "loc_address (ep_locator e) \<noteq> Some (pl_address p)" by blast
      then have "e \<in> set (anchored scope anchor es)" by simp
      then obtain old where in_scope: "e \<in> set es" "loc_instance_id (ep_locator e) = scope"
        "loc_address (ep_locator e) = Some old" "satisfies old anchor"
        by (auto simp: anchored_def split: option.splits)
      obtain r where r: "r \<in> set (st_endpoints st0)" "er_kind r \<noteq> PeerRuntime" "build_endpoint r = Inr e"
        using rows in_scope(1) by blast
      then have built: "er_id r = ep_id e" "er_instance r = scope" "read_address (er_address r) = Inr (Some old)"
        using in_scope by (auto simp: build_endpoint_def and_then_eq_Inr_iff)
      let ?f = "address_row (Some (pl_address p)) now"
      have p: "wf_address (pl_address p)" "satisfies (pl_address p) [pl_anchor p]" "p \<in> set all"
        using good Cons.prems(1) by auto
      have "pl_address p \<noteq> []" using p(2) by (auto simp: satisfies_def address_get_def)
      then have reads: "read_address (Some (address_str (pl_address p))) = Inr (Some (pl_address p))"
        using p(1) by (simp add: read_address_def address_codec.reader_render)
      have moves: "moved_by scope all a (if er_id b = ep_id e then ?f b else b)"
        if "a \<in> set (st_endpoints st0)" "moved_by scope all a b" for a b
      proof (cases "er_id b = ep_id e")
        case True
        have kept: "unplaced b = unplaced a" using that(2) by (simp add: moved_by_def)
        then have "er_id a = er_id r" using True unplaced_id built(1) by metis
        then have "a = r" using that(1) r(1) keys by (auto simp: distinct_map inj_on_def)
        then show ?thesis using True kept built r(2) in_scope(4) p reads unfolding moved_by_def anchor
          by (auto simp: unplaced_kept) (auto simp: address_row_def)
      qed (use that(2) in simp)
      have moved: "list_all2 (moved_by scope all) (st_endpoints st0) (update_where (\<lambda>r. er_id r = ep_id e) ?f rs)"
        using Cons.prems(3) moves unfolding update_where_def list_all2_map2
        by (auto simp: list_all2_conv_all_nth)
      show ?thesis
      proof (cases "set_address now (ep_id e) (Some (pl_address p)) st")
        case (Pair st1 res)
        then have st1: "st1 = st \<and> is_ok res = False \<or> st1 = st0\<lparr>st_endpoints := update_where (\<lambda>r. er_id r = ep_id e) ?f rs\<rparr> \<and> res = Inr ()"
          using Cons.prems(2) by (auto simp: set_address_def change_endpoint_def set_endpoints_def is_ok_def split: if_splits)
        then show ?thesis
        proof (cases res)
          case (Inl err)
          then show ?thesis using st1 Cons.prems Inr e Pair by (auto simp: is_ok_def)
        next
          case ok: (Inr u)
          then have "st1 = st0\<lparr>st_endpoints := update_where (\<lambda>r. er_id r = ep_id e) ?f rs\<rparr>" using st1 by (auto simp: is_ok_def)
          from Cons.IH [OF _ this moved] Cons.prems(1) show ?thesis
            using Inr e Pair ok by auto
        qed
      qed
    qed
  qed (use Cons.prems in auto)
qed auto

text \<open>C20. Following a layout only moves addresses. Whatever the runtime reports, a pass changes nothing in
  the store but the position of endpoints (and when they were updated): no mail, claim, binding, token
  or identity. An endpoint whose position changed belongs to the runtime instance asked, is no proxy,
  was found by an anchor that its old position had, and its new position has that anchor again, so it
  can be found next time, and is stored in a form that reads back. This holds when the pass stops on an
  error half way as well.\<close>

theorem reconcile_only_moves:
  assumes "(txn s json)\<^sup>*\<^sup>* (new_store h) st"
  shows "\<exists>rs. fst (reconcile_run now scope captured st) = st\<lparr>st_endpoints := rs\<rparr>
    \<and> list_all2 (moved_by scope (case captured of Inr layout \<Rightarrow> placements layout | Inl _ \<Rightarrow> [])) (st_endpoints st) rs"
proof -
  have keys: "distinct (map er_id (st_endpoints st))" using reachable_directory [OF assms] by (simp add: directory_ok_def proxies_ok_def)
  have same: "list_all2 (moved_by scope ps) (st_endpoints st) (st_endpoints st)" for ps
    by (simp add: list_all2_conv_all_nth moved_by_def)
  show ?thesis
  proof (cases captured)
    case layout: (Inr layout)
    show ?thesis
    proof (cases "list_endpoints st")
      case (Inr es)
      have "\<exists>r \<in> set (st_endpoints st). er_kind r \<noteq> PeerRuntime \<and> build_endpoint r = Inr e" if "e \<in> set es" for e
        using collect_mem [OF Inr [unfolded list_endpoints_def] that] by force
      then have rows: "\<forall>e \<in> set es. \<exists>r \<in> set (st_endpoints st). er_kind r \<noteq> PeerRuntime \<and> build_endpoint r = Inr e" by blast
      have good: "\<forall>p \<in> set (placements layout). wf_address (pl_address p) \<and> satisfies (pl_address p) [pl_anchor p]"
        using placement_ok by blast
      from place_all_moves [OF rows keys good subset_refl _ same] show ?thesis
        by (simp add: reconcile_run_def layout Inr)
    next
      case (Inl e)
      have "fst (reconcile_run now scope captured st) = st\<lparr>st_endpoints := st_endpoints st\<rparr>"
        by (simp add: reconcile_run_def layout Inl)
      with same show ?thesis by blast
    qed
  next
    case (Inl e)
    have "fst (reconcile_run now scope captured st) = st\<lparr>st_endpoints := st_endpoints st\<rparr>"
      by (simp add: reconcile_run_def Inl)
    with same show ?thesis by blast
  qed
qed

definition sample_layout :: json where
  "sample_layout = JObject [(''workspaces'', JArray [JObject [(''workspace_index'', JUnsigned 2),
     (''tabs'', JArray [JObject [(''tab_index'', JUnsigned 3), (''panes'', JArray [JObject [(''window_id'', JUnsigned 7)]])]])]])]"

theorem reconcile_only_moves_witness:
  "map address_str (map pl_address (placements sample_layout)) = [''s2t3w7'']
   \<and> map unplaced (st_endpoints (fst (reconcile_run 9 ''r'' (Inr sample_layout) sample_bound))) = map unplaced (st_endpoints sample_bound)"
proof
  show "map address_str (map pl_address (placements sample_layout)) = [''s2t3w7'']"
    by (simp add: sample_layout_def placements_def spaces_of_def groups_of_def member_of_def elements_of_def index_of_def
        u32_max_def pane_placements_def window_placement_def Let_def optional_segment_def address_new_def less_eq_level_def
        address_str_def segment_str_def dec.simps char_of_def bit_0)
  from reconcile_only_moves [OF sample_bound_reachable, of 9 "''r''" "Inr sample_layout"] obtain rs where
    rs: "fst (reconcile_run 9 ''r'' (Inr sample_layout) sample_bound) = sample_bound\<lparr>st_endpoints := rs\<rparr>"
    "list_all2 (moved_by ''r'' (placements sample_layout)) (st_endpoints sample_bound) rs" by auto
  have "list_all2 (\<lambda>a b. unplaced a = unplaced b) (st_endpoints sample_bound) rs"
    by (rule list_all2_mono [OF rs(2)]) (simp add: moved_by_def)
  then have "map unplaced (st_endpoints sample_bound) = map unplaced rs"
    by (induction rule: list_all2_induct) simp_all
  then show "map unplaced (st_endpoints (fst (reconcile_run 9 ''r'' (Inr sample_layout) sample_bound))) = map unplaced (st_endpoints sample_bound)"
    by (simp add: rs(1))
qed

end
