(* ===== verification/ProviderSafety.thy ===== *)
theory ProviderSafety
  imports ProviderAdapter
begin

text \<open>
  What adapters guarantee: a version is read back from whatever announces it, and an agent is only ever
  woken through a surface that was established.
\<close>

section \<open>Reading versions\<close>

lemma scan_digits:
  assumes "list_all is_ascii_digit ds"
  shows "scan_parts parts (min u32_max n) k (ds @ s)
    = scan_parts parts (min u32_max (foldl (\<lambda>a c. 10 * a + digit_val c) n ds)) (k + length ds) s"
  using assms
proof (induction ds arbitrary: n k)
  case (Cons c ds)
  have "add_digit (min u32_max n) c = min u32_max (10 * n + digit_val c)"
    by (auto simp: add_digit_def min_def)
  then show ?case using Cons by simp
qed simp

lemma scan_number:
  assumes "n \<le> u32_max"
  shows "scan_parts parts 0 0 (dec n @ s) = scan_parts parts n (length (dec n)) s"
proof -
  have "list_all is_ascii_digit (dec n)" using dec_digits by (simp add: list_all_iff)
  from scan_digits [OF this, of parts 0 0 s] show ?thesis
    using assms digits_val_dec [of n] by (simp add: digits_val_def)
qed

lemma dot_no_digit: "\<not> is_ascii_digit (CHR ''.'')"
  by (simp add: byte_class_defs)

lemma scan_dot:
  assumes "n \<le> u32_max"
  shows "scan_parts parts m (length (dec k)) (CHR ''.'' # dec n @ s) = scan_parts (parts @ [m]) n (length (dec n)) s"
proof -
  have "is_ascii_digit (hd (dec n @ s))" using dec_digits [of n] by (cases "dec n") auto
  then show ?thesis using scan_number [OF assms, of "parts @ [m]" s] dot_no_digit by simp
qed

definition ends_version :: "string \<Rightarrow> bool" where
  "ends_version s \<longleftrightarrow> (case s of [] \<Rightarrow> True
     | c # cs \<Rightarrow> \<not> is_ascii_digit c \<and> (c = CHR ''.'' \<longrightarrow> cs = [] \<or> \<not> is_ascii_digit (hd cs)))"

lemma scan_stop: "ends_version s \<Longrightarrow> scan_parts parts m (length (dec k)) s = (parts @ [m], s)"
  by (cases s) (auto simp: ends_version_def)

text \<open>C40. A version is read out of whatever announces it. If the text before it has no digit and the text
  after it does not continue it, the version found is the three numbers printed, exactly, for all
  32-bit numbers; and a text without a digit has no version.\<close>

theorem version_round_trip:
  assumes "list_all (\<lambda>c. \<not> is_ascii_digit c) before" and "ends_version after"
    and "a \<le> u32_max" "b \<le> u32_max" "c \<le> u32_max"
  shows "version_parse (before @ version_str (a, b, c) @ after) = Some (a, b, c) \<and> version_parse before = None"
proof
  have skip: "version_parse (p @ s) = version_parse s" if "list_all (\<lambda>c. \<not> is_ascii_digit c) p" for p s
    using that by (induction p) (simp_all add: version_parse.simps)
  have "scan_parts [] 0 0 (version_str (a, b, c) @ after) = ([a, b, c], after)"
  proof -
    have "scan_parts [] 0 0 (dec a @ ''.'' @ dec b @ ''.'' @ dec c @ after) = ([a, b, c], after)"
      by (simp only: scan_number [OF assms(3)] scan_dot [OF assms(4)] scan_dot [OF assms(5)] scan_stop [OF assms(2)]
          append.simps)
    then show ?thesis by (simp add: version_str_def)
  qed
  moreover have "is_ascii_digit (hd (version_str (a, b, c) @ after))" "version_str (a, b, c) @ after \<noteq> []"
    using dec_digits [of a] by (auto simp: version_str_def hd_append)
  ultimately have "version_parse (version_str (a, b, c) @ after) = Some (a, b, c)"
    by (cases "version_str (a, b, c) @ after") (simp_all add: version_parse.simps)
  then show "version_parse (before @ version_str (a, b, c) @ after) = Some (a, b, c)"
    by (simp add: skip [OF assms(1)])
  show "version_parse before = None"
    using skip [OF assms(1), of "[]"] by (simp add: version_parse.simps [of "[]"])
qed

theorem version_round_trip_witness:
  "version_parse (''Hermes Agent v'' @ version_str (0, 19, 1) @ '' (2026.7.30)'') = Some (0, 19, 1)"
proof -
  have "list_all (\<lambda>c. \<not> is_ascii_digit c) ''Hermes Agent v''" "ends_version '' (2026.7.30)''"
    by (simp_all add: ends_version_def byte_class_defs)
  from version_round_trip [OF this, of 0 19 1] show ?thesis by (simp add: u32_max_def)
qed

section \<open>Waking\<close>

lemma withdrawn: "\<not> has (withdraw_actuating why c) ExternalTurnStart" "\<not> has (withdraw_actuating why c) ExternalInterrupt"
  by (auto simp: has_def withdraw_actuating_def Let_def ACTUATING_def)

lemma has_note [simp]: "has (add_note n c) = has c"
  by (auto simp: has_def)

lemma activates_iff: "activates (delivery_mode c) \<longleftrightarrow> has c ExternalTurnStart"
  by (simp add: activates_def delivery_mode_def)

lemma gated:
  assumes "has (gate_version p floor c) k" "k \<in> {ExternalTurnStart, ExternalInterrupt}"
  shows "has c k \<and> (\<exists>r v. cap_version c = Some r \<and> version_parse r = Some v \<and> \<not> version_less v floor)"
  using assms withdrawn by (auto simp: gate_version_def split: option.splits if_splits)

lemma declared_simps [simp]:
  "has (declared w p native) k \<longleftrightarrow> k \<in> set (granted_of w p)"
  "cap_version (declared w p native) = (if p = Fake then Some ''9.9.9'' else wd_version w p)"
  by (simp_all add: declared_def has_def)

text \<open>C17. An agent can only be woken, or interrupted, through a surface that was established. If the
  capabilities an adapter declares let a message start a turn, or stop one, then there is a session to
  do it in, the program is one with a known surface (never Claude Code or Hermes), it reported a
  version that can be read and is at least the tested floor, and a server that is needed answered.\<close>

theorem control_is_established:
  assumes "activates (delivery_mode (adapter_capabilities w p native))
    \<or> has (adapter_capabilities w p native) ExternalInterrupt \<and> p \<noteq> Fake"
  shows "native \<noteq> None \<and> p \<noteq> Claude \<and> p \<noteq> Hermes
    \<and> (p = Fake \<or> (\<exists>r v. wd_version w p = Some r \<and> version_parse r = Some v \<and> \<not> version_less v (floor_of p)))
    \<and> (p = OpenCode \<longrightarrow> (\<exists>s. wd_server w = Some s \<and> wd_answers w s))"
proof -
  obtain k where k: "k \<in> {ExternalTurnStart, ExternalInterrupt}" "has (adapter_capabilities w p native) k"
    using assms by (auto simp: activates_iff)
  from k(1) have gone: "\<not> has (withdraw_actuating why c) k" for why c using withdrawn by auto
  show ?thesis
  proof (cases p)
    case Codex
    with k gone have "native \<noteq> None" "has (gate_version (provider_str Codex) (floor_of Codex) (declared w Codex native)) k"
      by (auto simp: capabilities_defs Let_def split: if_splits)
    from this(1) gated [OF this(2) k(1)] show ?thesis by (simp add: Codex del: floor_of.simps)
  next
    case OpenCode
    with k gone obtain s where "wd_server w = Some s" "native \<noteq> None" "wd_answers w s"
      "has (gate_version (provider_str OpenCode) (floor_of OpenCode) (declared w OpenCode native)) k"
      by (auto simp: capabilities_defs Let_def split: if_splits option.splits)
    with gated [OF this(4) k(1)] show ?thesis by (simp add: OpenCode del: floor_of.simps)
  next
    case Fake
    with k gone show ?thesis by (auto simp: capabilities_defs split: if_splits)
  qed (use k in \<open>auto simp: capabilities_defs dest: gated\<close>)
qed

definition sample_world :: world where
  "sample_world = \<lparr>wd_version = (\<lambda>p. Some ''codex-cli 0.151.0''), wd_codex = ''codex'', wd_server = None,
     wd_answers = (\<lambda>_. False), wd_post = (\<lambda>_ _ _. Inl []), wd_abort = (\<lambda>_ _. False), wd_fake_program = Some ''/bin/true'',
     wd_fake_granted = [StructuredPull, ExternalTurnStart], wd_control = (\<lambda>_ _. Ended True [])\<rparr>"

theorem control_is_established_witness:
  "\<exists>r v. wd_version sample_world Codex = Some r \<and> version_parse r = Some v \<and> \<not> version_less v (0, 151, 0)"
proof -
  have parse: "version_parse ''codex-cli 0.151.0'' = Some (0, 151, 0)"
    by (simp add: version_parse.simps byte_class_defs add_digit_def u32_max_def digit_val_def)
  have "activates (delivery_mode (adapter_capabilities sample_world Codex (Some ''t'')))"
    by (simp add: activates_iff capabilities_defs Let_def gate_version_def sample_world_def parse version_less_def)
  then show ?thesis using control_is_established [of sample_world Codex "Some ''t''"] by simp
qed

end
