(* ===== verification/Watcher.thy ===== *)
theory Watcher
  imports LayoutReconcile ProviderSafety
begin

text \<open>
  The watcher of one runtime instance (\<open>vvagent/src/watch.rs\<close>): it sweeps, follows the layout and wakes
  the recipients that may be woken, within their budgets. What it prints is left out. Every
  reading of the clock is its own: \<open>tick\<close> numbers them, three for a pass and three for each candidate.
\<close>

section \<open>Waking one recipient\<close>

definition sender_name :: "store \<Rightarrow> principal \<Rightarrow> string" where
  "sender_name st p =
     (case Option.bind (pr_endpoint p) (\<lambda>i. ok (endpoint_get st i)) of
        Some e \<Rightarrow> name_of st e
      | None \<Rightarrow> principal_kind_str (pr_kind p))"

definition wake :: "world \<Rightarrow> store \<Rightarrow> activatable \<Rightarrow> activation result" where
  "wake w st a =
     (case cap_provider (ac_capabilities a) of
        None \<Rightarrow> Inr (Unavailable ''no provider recorded'')
      | Some name \<Rightarrow>
          (case for_provider name of
             None \<Rightarrow> Inr (Unavailable (''no adapter for provider `'' @ name @ ''`''))
           | Some p \<Rightarrow>
               (case cap_native_session (ac_capabilities a) of
                  None \<Rightarrow> Inr (Unavailable ''no native session to start a turn in'')
                | Some native \<Rightarrow>
                    if ac_mode a = ActivateWithPayload \<and> carries_payload_in_argv p
                    then Inr (Unavailable (''this provider can only be woken through argv, which would expose the ''
                           @ ''message body; give it mailbox tools so a pointer is enough''))
                    else adapter_activate w p native
                           (activation_text (sender_name st (msg_from (ac_message a))) (msg_id (ac_message a)) (ac_mode a)
                              (msg_subject (ac_message a)) (Some (msg_text (ac_message a))) (msg_kind (ac_message a))))))"

section \<open>A pass\<close>

record pass =
  ps_considered :: nat
  ps_activated :: nat
  ps_refused :: nat
  ps_unavailable :: nat
  ps_rate_limited :: nat

definition no_pass :: pass where
  "no_pass = \<lparr>ps_considered = 0, ps_activated = 0, ps_refused = 0, ps_unavailable = 0, ps_rate_limited = 0\<rparr>"

definition recorded :: "int \<Rightarrow> activatable \<Rightarrow> string \<Rightarrow> store \<Rightarrow> store" where
  "recorded now a label = record_activation now (msg_id (ac_message a)) (ac_endpoint a) (ac_mode a)
     (dec_rule (ac_decision a)) label"

definition has_budget :: "store \<Rightarrow> activatable \<Rightarrow> int \<Rightarrow> int \<Rightarrow> bool" where
  "has_budget st a now later \<longleftrightarrow>
     activation_budget_left st (ac_endpoint a) now \<and> peer_activation_budget_left st (msg_from (ac_message a)) later"

definition outcome_label :: "activation result \<Rightarrow> string" where
  "outcome_label r = (case r of Inr o' \<Rightarrow> activation_str o' | Inl e \<Rightarrow> ''error'')"

definition consider_one :: "world \<Rightarrow> (nat \<Rightarrow> int) \<Rightarrow> activatable \<Rightarrow> store \<times> pass \<Rightarrow> store \<times> pass" where
  "consider_one w tick a sp =
     (case sp of (st, p0) \<Rightarrow>
        let p = p0\<lparr>ps_considered := ps_considered p0 + 1\<rparr>
        in if \<not> dec_allowed (ac_decision a)
           then (recorded (tick 2) a ''policy_refused'' st, p\<lparr>ps_refused := ps_refused p + 1\<rparr>)
           else if \<not> has_budget st a (tick 0) (tick 1)
           then (recorded (tick 2) a ''rate_limited'' st, p\<lparr>ps_rate_limited := ps_rate_limited p + 1\<rparr>)
           else let r = wake w st a
                in (recorded (tick 2) a (outcome_label r) st,
                    if r = Inr Started then p\<lparr>ps_activated := ps_activated p + 1\<rparr>
                    else p\<lparr>ps_unavailable := ps_unavailable p + 1\<rparr>))"

record watch_options =
  wo_scope :: opaque
  wo_backoff :: int
  wo_attempts :: int
  wo_layout :: "json result option"

text \<open>
  \<open>wo_layout\<close> is what the layout command gave, when there is one. A failing sweep or layout is no error.
  The addresses one layout moves share a reading of the clock.
\<close>

definition one_pass :: "world \<Rightarrow> watch_options \<Rightarrow> (nat \<Rightarrow> int) \<Rightarrow> store \<Rightarrow> store \<times> pass result" where
  "one_pass w wo tick st =
     (let st1 = fst (sweep (tick 0) st);
          st2 = (case wo_layout wo of
                   Some captured \<Rightarrow> fst (reconcile_run (tick 1) (wo_scope wo) captured st1) | None \<Rightarrow> st1)
      in or_return st2 (activatable st2 (wo_scope wo) (tick 2) (wo_backoff wo) (wo_attempts wo)) (\<lambda>as.
           (case fold (\<lambda>(k, a). consider_one w (\<lambda>j. tick (3 + 3 * k + j)) a) (enumerate 0 as) (st2, no_pass) of
              (st3, p) \<Rightarrow> (st3, Inr p))))"

definition add_pass :: "pass \<Rightarrow> pass \<Rightarrow> pass" where
  "add_pass t p = \<lparr>ps_considered = ps_considered t + ps_considered p, ps_activated = ps_activated t + ps_activated p,
     ps_refused = ps_refused t + ps_refused p, ps_unavailable = ps_unavailable t + ps_unavailable p,
     ps_rate_limited = ps_rate_limited t + ps_rate_limited p\<rparr>"

text \<open>
  What a turn of the loop meets: whether the parent is gone before and after the pass, what the layout
  command gives, and the clock. \<open>None\<close> is a watcher still running after these turns.
\<close>

record watch_turn =
  wt_gone :: bool
  wt_layout :: "json result option"
  wt_tick :: "nat \<Rightarrow> int"
  wt_gone_after :: bool

fun watch_run ::
  "world \<Rightarrow> watch_options \<Rightarrow> bool \<Rightarrow> watch_turn list \<Rightarrow> pass \<Rightarrow> store \<Rightarrow> store \<times> pass result option" where
  "watch_run w wo once [] acc st = (st, None)"
| "watch_run w wo once (t # ts) acc st =
     (if wt_gone t then (st, Some (Inr acc))
      else (case one_pass w (wo\<lparr>wo_layout := wt_layout t\<rparr>) (wt_tick t) st of
              (st1, Inl e) \<Rightarrow> (st1, Some (Inl e))
            | (st1, Inr p) \<Rightarrow>
                if once \<or> wt_gone_after t then (st1, Some (Inr (add_pass acc p)))
                else watch_run w wo once ts (add_pass acc p) st1))"

section \<open>The body never rides in argv\<close>

text \<open>C16. The body of a message never reaches a command line. Whatever the world outside, if the
  recipient's program can only be woken through argv, what the watcher does and what comes of it are
  the same for every body the message might have: it is either a pointer that does not depend on the
  body or a refusal.\<close>

theorem body_never_in_argv:
  assumes "cap_provider (ac_capabilities a) = Some name" and "for_provider name = Some p" and "carries_payload_in_argv p"
    and "activates (ac_mode a)"
  shows "wake w st (a\<lparr>ac_message := (ac_message a)\<lparr>msg_text := other\<rparr>\<rparr>) = wake w st a"
proof (cases "cap_native_session (ac_capabilities a)")
  case (Some native)
  have "ac_mode a = ActivateAndPull \<or> ac_mode a = ActivateWithPayload" using assms(4) by (auto simp: activates_def)
  then show ?thesis using assms(1-3) by (elim disjE) (simp_all add: wake_def Some activation_text_def)
qed (use assms in \<open>simp add: wake_def\<close>)

definition sample_activatable :: activatable where
  "sample_activatable = \<lparr>ac_message = build_message sample_row, ac_endpoint = ''b'',
     ac_capabilities = \<lparr>cap_provider = Some ''codex'', cap_version = Some ''codex-cli 0.151.0'',
        cap_native_session = Some ''t'', cap_granted = [ExternalTurnStart], cap_notes = []\<rparr>,
     ac_mode = ActivateWithPayload, ac_decision = allow RuleAnyone\<rparr>"

theorem body_never_in_argv_witness:
  "wake sample_world sample_bound
     (sample_activatable\<lparr>ac_message := (ac_message sample_activatable)\<lparr>msg_text := ''; rm''\<rparr>\<rparr>)
   = wake sample_world sample_bound sample_activatable"
  by (rule body_never_in_argv [of _ "''codex''" Codex])
    (simp_all add: sample_activatable_def for_provider_def activates_def carries_payload_in_argv_def)

end
