(* ===== verification/WatcherSafety.thy ===== *)
theory WatcherSafety
  imports Watcher
begin

text \<open>
  What a watcher does to the store: transactions only, no mail touched but the count of attempts, and
  turns within the budgets.
\<close>

section \<open>A watcher only makes transactions\<close>

lemma place_all_txns: "(txn sha json)\<^sup>*\<^sup>* st (fst (place_all now scope es ps acc st))"
proof (induction ps arbitrary: acc st)
  case (Cons p ps)
  have step: "(txn sha json)\<^sup>*\<^sup>* st (fst (place_all now scope es ps acc' (fst (set_address now e a st))))" for acc' e a
    by (rule converse_rtranclp_into_rtranclp [OF txn_set_address Cons.IH])
  have stop: "(txn sha json)\<^sup>*\<^sup>* st (fst (set_address now e a st))" for e a
    by (rule r_into_rtranclp) (rule txn_set_address)
  show ?case
    using Cons.IH step stop by (auto simp: or_return_def split: sum.splits list.splits prod.splits) (metis fst_conv)+
qed simp

lemma reconcile_txns: "(txn sha json)\<^sup>*\<^sup>* st (fst (reconcile_run now scope captured st))"
  by (auto simp: reconcile_run_def or_return_def place_all_txns split: sum.splits)

lemma consider_txns: "(txn sha json)\<^sup>*\<^sup>* st (fst (consider_one w tick a (st, p)))"
proof -
  have "\<exists>label. fst (consider_one w tick a (st, p)) = recorded (tick 2) a label st"
    by (auto simp: consider_one_def Let_def)
  then obtain label where label: "fst (consider_one w tick a (st, p)) = recorded (tick 2) a label st" by blast
  have "txn sha json st (recorded (tick 2) a label st)" unfolding recorded_def by (rule txn_activation)
  then show ?thesis unfolding label by (rule r_into_rtranclp)
qed

lemma fold_consider_txns: "(txn sha json)\<^sup>*\<^sup>* (fst sp) (fst (fold (\<lambda>(k, a). consider_one w (\<lambda>j. tick (3 + 3 * k + j)) a) xs sp))"
proof (induction xs arbitrary: sp)
  case (Cons x xs)
  obtain k a where x: "x = (k, a)" by (cases x)
  have "(txn sha json)\<^sup>*\<^sup>* (fst sp) (fst (consider_one w (\<lambda>j. tick (3 + 3 * k + j)) a sp))"
    using consider_txns [of sha json "fst sp" w "\<lambda>j. tick (3 + 3 * k + j)" a "snd sp"] by simp
  then show ?case using rtranclp_trans [OF _ Cons.IH] by (simp add: x)
qed simp

definition followed :: "watch_options \<Rightarrow> (nat \<Rightarrow> int) \<Rightarrow> store \<Rightarrow> store" where
  "followed wo tick st = (case wo_layout wo of
     Some captured \<Rightarrow> fst (reconcile_run (tick 1) (wo_scope wo) captured (fst (sweep (tick 0) st)))
   | None \<Rightarrow> fst (sweep (tick 0) st))"

lemma one_pass_eq:
  "one_pass w wo tick st =
     or_return (followed wo tick st) (activatable (followed wo tick st) (wo_scope wo) (tick 2) (wo_backoff wo) (wo_attempts wo)) (\<lambda>as.
       (case fold (\<lambda>(k, a). consider_one w (\<lambda>j. tick (3 + 3 * k + j)) a) (enumerate 0 as) (followed wo tick st, no_pass) of
          (st3, p) \<Rightarrow> (st3, Inr p)))"
  by (simp add: one_pass_def followed_def Let_def cong: option.case_cong)

lemma followed_txns: "(txn sha json)\<^sup>*\<^sup>* st (followed wo tick st)"
proof -
  have "(txn sha json)\<^sup>*\<^sup>* st (fst (sweep (tick 0) st))" by (rule r_into_rtranclp) (rule txn_sweep)
  then show ?thesis using rtranclp_trans [OF _ reconcile_txns] by (auto simp: followed_def split: option.splits)
qed

lemma one_pass_txns: "(txn sha json)\<^sup>*\<^sup>* st (fst (one_pass w wo tick st))"
proof (cases "activatable (followed wo tick st) (wo_scope wo) (tick 2) (wo_backoff wo) (wo_attempts wo)")
  case (Inr as)
  have "(txn sha json)\<^sup>*\<^sup>* (followed wo tick st) (fst (one_pass w wo tick st))"
    using fold_consider_txns [of sha json "(followed wo tick st, no_pass)" w tick "enumerate 0 as"]
    by (simp add: one_pass_eq Inr case_prod_unfold)
  with followed_txns show ?thesis by (rule rtranclp_trans)
qed (simp add: one_pass_eq followed_txns)

lemma watch_run_txns:
  "(txn sha json)\<^sup>*\<^sup>* st (fst (watch_run w wo once turns acc st))"
proof (induction turns arbitrary: acc st)
  case (Cons t ts)
  let ?pass = "one_pass w (wo\<lparr>wo_layout := wt_layout t\<rparr>) (wt_tick t) st"
  have one: "(txn sha json)\<^sup>*\<^sup>* st (fst ?pass)" by (rule one_pass_txns)
  have "(txn sha json)\<^sup>*\<^sup>* st (fst (watch_run w wo once ts acc' (fst ?pass)))" for acc'
    by (rule rtranclp_trans [OF one Cons.IH])
  with one show ?case by (auto split: prod.split sum.split)
qed simp


section \<open>Turns stay within the budget\<close>

lemma recent_audit:
  "recent (st\<lparr>st_audit := st_audit st @ [a]\<rparr>) e operation res now
     \<le> recent st e operation res now + (if au_endpoint a = Some e \<and> au_operation a = operation \<and> au_result a = res then 1 else 0)"
  by (auto simp: recent_def u32_count_def count_where_def)

lemma recent_window: "now \<le> later \<Longrightarrow> recent st e operation res later \<le> recent st e operation res now"
proof -
  assume "now \<le> later"
  then have "count_where (\<lambda>a. au_endpoint a = Some e \<and> au_operation a = operation \<and> au_result a = res \<and> au_at a > later - 60000) xs
      \<le> count_where (\<lambda>a. au_endpoint a = Some e \<and> au_operation a = operation \<and> au_result a = res \<and> au_at a > now - 60000) xs" for xs
    by (induction xs) (auto simp: count_where_def)
  from this [of "st_audit st"] show ?thesis unfolding recent_def u32_count_def by (rule min.mono) simp
qed

lemma recorded_tables:
  "st_endpoints (recorded now a label st) = st_endpoints st"
  "st_messages (recorded now a label st) = update_where (\<lambda>m. mr_id m = msg_id (ac_message a)) (attempted_row now) (st_messages st)"
  by (simp_all add: recorded_def record_activation_def audit_def set_messages_def)

definition attempts_of :: "store \<Rightarrow> opaque \<Rightarrow> int" where
  "attempts_of st i = (case find_message st i of Some m \<Rightarrow> mr_activations m | None \<Rightarrow> 0)"

text \<open>The steps before the query touch neither policies, nor the audit trail, nor the counts of attempts.\<close>

definition calm_policies :: "store \<Rightarrow> store \<Rightarrow> bool" where
  "calm_policies st st' \<longleftrightarrow> (\<forall>e. policy_get st' e = policy_get st e) \<and> st_audit st' = st_audit st
     \<and> (\<forall>i. attempts_of st' i = attempts_of st i)"

lemma calm_policies_refl: "calm_policies st st"
  by (simp add: calm_policies_def)

lemma calm_policies_trans: "calm_policies a b \<Longrightarrow> calm_policies b c \<Longrightarrow> calm_policies a c"
  by (simp add: calm_policies_def)

lemma calm_set_endpoints:
  assumes "\<And>r. er_id (f r) = er_id r" "\<And>r. er_policy (f r) = er_policy r"
  shows "calm_policies st (set_endpoints P f st)"
proof -
  have look: "map_option er_policy (lookup_by er_id e (update_where P f rows)) = map_option er_policy (lookup_by er_id e rows)" for e rows
    by (induction rows) (auto simp: assms)
  have "policy_get (set_endpoints P f st) e = policy_get st e" for e
    using look [of e "st_endpoints st"]
    by (auto simp: policy_get_def policy_of_def find_endpoint_def set_endpoints_def split: option.splits)
  then show ?thesis by (simp add: calm_policies_def set_endpoints_def attempts_of_def find_message_def)
qed

lemma calm_set_messages:
  assumes "\<And>m. mr_id (f m) = mr_id m" "\<And>m. mr_activations (f m) = mr_activations m"
  shows "calm_policies st (set_messages P f st)"
proof -
  have "map_option mr_activations (lookup_by mr_id i (update_where P f rows)) = map_option mr_activations (lookup_by mr_id i rows)"
    for i rows by (induction rows) (auto simp: assms)
  from this [of _ "st_messages st"] have "attempts_of (set_messages P f st) i = attempts_of st i" for i
    by (auto simp: attempts_of_def find_message_def set_messages_def split: option.splits) (metis option.map_disc_iff option.sel option.map_sel option.simps(3))+
  then show ?thesis by (simp add: calm_policies_def set_messages_def policy_get_def find_endpoint_def)
qed

lemma calm_recounts: "calm_policies st (fold recount is st)"
proof (induction "is" arbitrary: st)
  case (Cons i "is")
  have "calm_policies st (recount i st)" unfolding recount_def by (rule calm_set_endpoints) (simp_all add: set_counts_def)
  with Cons.IH show ?case by (simp add: calm_policies_trans)
qed (simp add: calm_policies_refl)

lemma calm_sweep: "calm_policies st (fst (sweep now st))"
proof -
  let ?a = "reclaim_lapsed now st"
  let ?b = "set_messages (past_deadline now) (state_only Expired) ?a"
  have "calm_policies st ?b" unfolding reclaim_lapsed_def
    by (rule calm_policies_trans [OF calm_set_messages calm_set_messages]) (simp_all add: release_claim_def state_only_def)
  then show ?thesis using calm_policies_trans [OF _ calm_recounts] by (auto simp: sweep_def Let_def)
qed

lemma calm_place_all: "calm_policies st (fst (place_all now scope es ps acc st))"
proof (induction ps arbitrary: acc st)
  case (Cons p ps)
  have one: "calm_policies st (fst (set_address now e a st))" for e a
    unfolding set_address_def change_endpoint_def
    by (auto simp: calm_policies_refl intro!: calm_set_endpoints) (simp_all add: address_row_def)
  have more: "calm_policies st (fst (place_all now scope es ps acc' (fst (set_address now e a st))))" for acc' e a
    by (rule calm_policies_trans [OF one Cons.IH])
  show ?case
    using Cons.IH one more calm_policies_refl
    by (auto simp: or_return_def split: sum.splits list.splits prod.splits) (metis fst_conv)+
qed (simp add: calm_policies_refl)

lemma calm_reconcile: "calm_policies st (fst (reconcile_run now scope captured st))"
  by (auto simp: reconcile_run_def or_return_def calm_place_all calm_policies_refl split: sum.splits)

lemma calm_followed: "calm_policies st (followed wo tick st)"
proof (cases "wo_layout wo")
  case (Some captured)
  show ?thesis
    using calm_policies_trans [OF calm_sweep calm_reconcile, of st "tick 1" "wo_scope wo" captured "tick 0"] by (simp add: followed_def Some)
qed (simp add: followed_def calm_sweep)


text \<open>One candidate: a turn is started only within the budget at that moment, and one attempt is counted.\<close>

lemma started_label: "outcome_label r = ''started'' \<longleftrightarrow> r = Inr Started"
proof (cases r)
  case (Inr o')
  then show ?thesis by (cases o') (auto simp: outcome_label_def)
qed (simp add: outcome_label_def)

lemma recorded_policy: "policy_get (recorded now a label st) e = policy_get st e"
  by (simp add: policy_get_def find_endpoint_def recorded_tables)

lemma recent_set_messages: "recent (set_messages P f st) e operation res now = recent st e operation res now"
  by (simp add: recent_def set_messages_def)

lemma recent_recorded:
  "recent (recorded at a label st) e ''activate'' ''started'' now
     \<le> recent st e ''activate'' ''started'' now + (if ac_endpoint a = e \<and> label = ''started'' then 1 else 0)"
  unfolding recorded_def record_activation_def audit_def
  by (rule order_trans [OF recent_audit]) (simp add: recent_set_messages)

lemma attempts_recorded:
  "attempts_of (recorded now a label st) i \<le> attempts_of st i + (if i = msg_id (ac_message a) then 1 else 0)"
proof -
  have "lookup_by mr_id i (st_messages (recorded now a label st)) =
      map_option (\<lambda>m. if mr_id m = msg_id (ac_message a) then attempted_row now m else m) (lookup_by mr_id i (st_messages st))"
    unfolding recorded_tables(2) by (rule attempted_update.lookup_after)
  then show ?thesis
    by (auto simp: attempts_of_def find_message_def attempted_row_def dest: lookup_by_Some split: option.splits)
qed

definition budget_kept :: "int \<Rightarrow> store \<Rightarrow> store \<Rightarrow> bool" where
  "budget_kept horizon st st' \<longleftrightarrow> (\<forall>e. policy_get st' e = policy_get st e
     \<and> recent st' e ''activate'' ''started'' horizon
        \<le> max (pol_max_auto_turns (policy_get st e)) (recent st e ''activate'' ''started'' horizon))"

lemma budget_kept_refl: "budget_kept horizon st st"
  by (simp add: budget_kept_def)

lemma budget_kept_trans: "budget_kept horizon a b \<Longrightarrow> budget_kept horizon b c \<Longrightarrow> budget_kept horizon a c"
  unfolding budget_kept_def
proof
  fix e
  let ?r = "\<lambda>st. recent st e ''activate'' ''started'' horizon" and ?p = "\<lambda>st. policy_get st e"
  assume "\<forall>e. policy_get b e = policy_get a e \<and> recent b e ''activate'' ''started'' horizon
        \<le> max (pol_max_auto_turns (policy_get a e)) (recent a e ''activate'' ''started'' horizon)"
    and "\<forall>e. policy_get c e = policy_get b e \<and> recent c e ''activate'' ''started'' horizon
        \<le> max (pol_max_auto_turns (policy_get b e)) (recent b e ''activate'' ''started'' horizon)"
  then have "?p b = ?p a" "?r b \<le> max (pol_max_auto_turns (?p a)) (?r a)"
    "?p c = ?p b" "?r c \<le> max (pol_max_auto_turns (?p b)) (?r b)" by blast+
  then show "?p c = ?p a \<and> ?r c \<le> max (pol_max_auto_turns (?p a)) (?r a)" by simp
qed

lemma calm_budget: "calm_policies st st' \<Longrightarrow> budget_kept horizon st st'"
  by (simp add: calm_policies_def budget_kept_def recent_def)

lemma consider_budget:
  assumes "tick 0 \<le> horizon"
  shows "budget_kept horizon st (fst (consider_one w tick a (st, p)))"
proof -
  have plain: "budget_kept horizon st (recorded (tick 2) a label st)" if "label \<noteq> ''started''" for label
    unfolding budget_kept_def
  proof (intro allI conjI)
    fix e
    have "recent (recorded (tick 2) a label st) e ''activate'' ''started'' horizon \<le> recent st e ''activate'' ''started'' horizon"
      using recent_recorded [of "tick 2" a label st e horizon] that by simp
    then show "recent (recorded (tick 2) a label st) e ''activate'' ''started'' horizon
        \<le> max (pol_max_auto_turns (policy_get st e)) (recent st e ''activate'' ''started'' horizon)"
      by (rule max.coboundedI2)
  qed (rule recorded_policy)
  have paid: "budget_kept horizon st (recorded (tick 2) a label st)" if budget: "has_budget st a (tick 0) (tick 1)" for label
    unfolding budget_kept_def
  proof (intro allI conjI)
    fix e
    show "recent (recorded (tick 2) a label st) e ''activate'' ''started'' horizon
        \<le> max (pol_max_auto_turns (policy_get st e)) (recent st e ''activate'' ''started'' horizon)"
    proof (cases "ac_endpoint a = e")
      case True
      have "recent st e ''activate'' ''started'' horizon < pol_max_auto_turns (policy_get st e)"
        using recent_window [OF assms, of st e "''activate''" "''started''"] budget
        by (simp add: has_budget_def activation_budget_left_def True)
      then show ?thesis using recent_recorded [of "tick 2" a label st e horizon] by (simp split: if_splits)
    qed (use recent_recorded [of "tick 2" a label st e horizon] in simp)
  qed (rule recorded_policy)
  show ?thesis using plain paid by (simp add: consider_one_def Let_def)
qed

lemma fold_budget:
  assumes "\<And>k. tick k \<le> horizon"
  shows "budget_kept horizon (fst sp) (fst (fold (\<lambda>(k, a). consider_one w (\<lambda>j. tick (3 + 3 * k + j)) a) xs sp))"
proof (induction xs arbitrary: sp)
  case (Cons x xs)
  obtain k a where x: "x = (k, a)" by (cases x)
  have "budget_kept horizon (fst sp) (fst (consider_one w (\<lambda>j. tick (3 + 3 * k + j)) a sp))"
    using consider_budget [of "\<lambda>j. tick (3 + 3 * k + j)", OF assms, of "fst sp" w a "snd sp"] by simp
  then show ?case using budget_kept_trans [OF _ Cons.IH] by (simp add: x)
qed (simp add: budget_kept_refl)

lemma one_pass_budget:
  assumes "\<And>k. tick k \<le> horizon"
  shows "budget_kept horizon st (fst (one_pass w wo tick st))"
proof (cases "activatable (followed wo tick st) (wo_scope wo) (tick 2) (wo_backoff wo) (wo_attempts wo)")
  case (Inr as)
  have "budget_kept horizon (followed wo tick st) (fst (one_pass w wo tick st))"
    using fold_budget [where sp = "(followed wo tick st, no_pass)" and w = w and xs = "enumerate 0 as", OF assms]
    by (simp add: one_pass_eq Inr case_prod_unfold)
  with calm_budget [OF calm_followed] show ?thesis by (rule budget_kept_trans)
qed (simp add: one_pass_eq calm_budget [OF calm_followed])



definition sample_options :: watch_options where
  "sample_options = \<lparr>wo_scope = ''r'', wo_backoff = 30000, wo_attempts = 3, wo_layout = None\<rparr>"

definition sample_turn :: "int \<Rightarrow> watch_turn" where
  "sample_turn now = \<lparr>wt_gone = False, wt_layout = None, wt_tick = (\<lambda>_. now), wt_gone_after = False\<rparr>"


section \<open>Attempts stay within the option\<close>

lemma activatable_ids:
  assumes "activatable_of st scope rs = Inr as" and "distinct (map mr_id rs)"
  shows "distinct (map (\<lambda>a. msg_id (ac_message a)) as) \<and> set (map (\<lambda>a. msg_id (ac_message a)) as) \<subseteq> mr_id ` set rs"
  using assms
proof (induction rs arbitrary: as)
  case (Cons r rs)
  from Cons.prems(1) obtain m where m: "load_message st (mr_id r) = Inr m"
    by (auto simp: and_then_eq_Inr_iff)
  then have id: "msg_id m = mr_id r"
    by (auto simp: load_message_def find_message_def dest: lookup_by_Some split: option.splits)
  from Cons.prems(1) m obtain rest where rest: "activatable_of st scope rs = Inr rest"
    and as: "as = rest \<or> (\<exists>a. as = a # rest \<and> ac_message a = m)"
    by (fastforce simp: and_then_eq_Inr_iff Let_def split: if_splits)
  from Cons.prems(2) have "distinct (map mr_id rs)" "mr_id r \<notin> mr_id ` set rs" by simp_all
  with Cons.IH [OF rest] show ?case using as id by (elim disjE exE conjE) (simp; blast)+
qed simp

lemma activatable_fresh:
  assumes "activatable st scope now backoff attempts = Inr as" and "distinct (map mr_id (st_messages st))"
  shows "distinct (map (\<lambda>a. msg_id (ac_message a)) as) \<and> (\<forall>a \<in> set as. attempts_of st (msg_id (ac_message a)) < attempts)"
proof -
  let ?rows = "activation_rows st scope now backoff attempts"
  have rows: "distinct (map mr_id ?rows)"
    using assms(2) by (auto simp: activation_rows_def distinct_map inj_on_def)
  have low: "attempts_of st (mr_id m) < attempts" if "m \<in> set ?rows" for m
  proof -
    have "m \<in> set (st_messages st)" "mr_activations m < attempts" using that by (auto simp: activation_rows_def)
    then show ?thesis using lookup_by_eq_Some [OF assms(2), of "mr_id m" m] by (simp add: attempts_of_def find_message_def)
  qed
  from activatable_ids [OF assms(1) [unfolded activatable_def] rows] low show ?thesis by auto
qed

lemma fold_attempts:
  "attempts_of (fst (fold (\<lambda>(k, a). consider_one w (\<lambda>j. tick (3 + 3 * k + j)) a) xs sp)) i
     \<le> attempts_of (fst sp) i + int (count_where (\<lambda>a. msg_id (ac_message a) = i) (map snd xs))"
proof (induction xs arbitrary: sp)
  case (Cons x xs)
  obtain k a where x: "x = (k, a)" by (cases x)
  have "\<exists>label. fst (consider_one w (\<lambda>j. tick (3 + 3 * k + j)) a sp) = recorded (tick (5 + 3 * k)) a label (fst sp)"
    by (auto simp: consider_one_def Let_def split: prod.split)
  then have "attempts_of (fst (consider_one w (\<lambda>j. tick (3 + 3 * k + j)) a sp)) i
      \<le> attempts_of (fst sp) i + (if i = msg_id (ac_message a) then 1 else 0)"
    using attempts_recorded by metis
  with Cons.IH [of "consider_one w (\<lambda>j. tick (3 + 3 * k + j)) a sp"] show ?case by (auto simp: x count_where_def)
qed (simp add: count_where_def)

lemma count_distinct: "distinct (map f xs) \<Longrightarrow> count_where (\<lambda>x. f x = i) xs = (if i \<in> f ` set xs then 1 else 0)"
  by (induction xs) (auto simp: count_where_def filter_empty_conv)

lemma one_pass_attempts:
  assumes "distinct (map mr_id (st_messages (followed wo tick st)))"
  shows "attempts_of (fst (one_pass w wo tick st)) i \<le> max (wo_attempts wo) (attempts_of st i)
    \<and> attempts_of (fst (one_pass w wo tick st)) i \<le> attempts_of st i + 1"
proof (cases "activatable (followed wo tick st) (wo_scope wo) (tick 2) (wo_backoff wo) (wo_attempts wo)")
  case (Inr as)
  let ?f = "\<lambda>a. msg_id (ac_message a)"
  have same: "attempts_of (followed wo tick st) i = attempts_of st i"
    using calm_followed by (simp add: calm_policies_def)
  have fresh: "distinct (map ?f as)" "\<forall>a \<in> set as. attempts_of (followed wo tick st) (?f a) < wo_attempts wo"
    using activatable_fresh [OF Inr assms] by blast+
  have "attempts_of (fst (one_pass w wo tick st)) i \<le> attempts_of st i + (if i \<in> ?f ` set as then 1 else 0)"
    using fold_attempts [of w tick "enumerate 0 as" "(followed wo tick st, no_pass)" i] count_distinct [OF fresh(1), of i]
    by (simp add: one_pass_eq Inr case_prod_unfold same split: if_splits)
  then show ?thesis using fresh(2) same by (auto split: if_splits)
qed (use calm_followed in \<open>simp add: one_pass_eq calm_policies_def\<close>)




end
