(* ===== verification/RemoteNaming.thy ===== *)
theory RemoteNaming
  imports StoreDirectory
begin

text \<open>
  Naming agents on peer hosts (\<open>vvagent/src/remote.rs\<close>): the proxy a remote selector stands for. A
  question a peer has to answer goes through the store; other processes, among them the bridge that
  answers, change the store between two polls.
\<close>

section \<open>Peers\<close>

definition known :: "store \<Rightarrow> peer_label \<Rightarrow> peer result" where
  "known st l =
     (case peer_by_label st l of
        Inl e \<Rightarrow> Inl (if e = NotFound then AgentNotFound else e)
      | Inr p \<Rightarrow> Inr p)"

definition live_anchor :: "int \<Rightarrow> peer \<Rightarrow> lease_anchor option" where
  "live_anchor now p =
     (case peer_lease p of Some l \<Rightarrow> if is_live now l then ls_anchor l else None | None \<Rightarrow> None)"

text \<open>The instance a caller inside a window of Vivido or Vivida sits in.\<close>

definition own_instance :: "store \<Rightarrow> caller \<Rightarrow> (runtime_kind \<times> string option) option" where
  "own_instance st c =
     (case Option.bind (pr_endpoint (cl_principal c)) (\<lambda>i. ok (endpoint_get st i)) of
        Some e \<Rightarrow>
          if loc_kind (ep_locator e) = Vivido \<or> loc_kind (ep_locator e) = Vivida
          then Some (loc_kind (ep_locator e), loc_instance_name (ep_locator e)) else None
      | None \<Rightarrow> None)"

definition anchored_at :: "lease_anchor \<Rightarrow> runtime_kind \<times> string option \<Rightarrow> bool" where
  "anchored_at a here \<longleftrightarrow> an_runtime a = fst here \<and> snd here = Some (an_instance a)"

definition through_window :: "int \<Rightarrow> store \<Rightarrow> u32 \<Rightarrow> caller \<Rightarrow> peer list result" where
  "through_window now st w c =
     and_then (list_peers st) (\<lambda>ps.
       Inr (filter (\<lambda>p.
         (case live_anchor now p of
            None \<Rightarrow> False
          | Some a \<Rightarrow> an_window a = unat w
              \<and> (case own_instance st c of None \<Rightarrow> True | Some here \<Rightarrow> anchored_at a here))) ps))"

section \<open>Asking\<close>

definition retyped :: "peer_label \<Rightarrow> string \<Rightarrow> string" where
  "retyped l name =
     (case strip_prefix ''agent://local/'' name of
        Some i \<Rightarrow> ''agent://'' @ l @ ''/'' @ i
      | None \<Rightarrow> ''@'' @ l @ '':'' @ name)"

definition retypeable :: "mesh_error \<Rightarrow> peer_label \<Rightarrow> resolve_error" where
  "retypeable e l = (me_code e, take MAX_AMBIGUOUS_CANDIDATES (map (retyped l) (me_candidates e)))"

text \<open>A poll: what the others did to the store since the last one, and the milliseconds since the question
  when the answer was not there. \<open>None\<close> is a process still waiting after these polls.\<close>

record poll =
  po_others :: "store \<Rightarrow> store"
  po_elapsed :: int

fun await_answer ::
  "int \<Rightarrow> peer \<Rightarrow> poll list \<Rightarrow> store \<Rightarrow> store \<times> (resolve_error + opaque \<times> string option) option" where
  "await_answer i p [] st = (st, None)"
| "await_answer i p (q # qs) st =
     (case take_resolution i (po_others q st) of
        (st1, Inl e) \<Rightarrow> (st1, Some (Inl (e, [])))
      | (st1, Inr (Some (Inr found))) \<Rightarrow> (st1, Some (Inr found))
      | (st1, Inr (Some (Inl e))) \<Rightarrow> (st1, Some (Inl (retypeable e (peer_name p))))
      | (st1, Inr None) \<Rightarrow>
          if po_elapsed q \<ge> RESOLUTION_TIMEOUT_MS then (st1, Some (Inl (PeerUnreachable, [])))
          else await_answer i p qs st1)"

definition ask ::
  "int \<Rightarrow> peer \<Rightarrow> string \<Rightarrow> poll list \<Rightarrow> store \<Rightarrow> store \<times> (resolve_error + opaque \<times> string option) option" where
  "ask now p sel polls st =
     (case request_resolution now (peer_id p) sel st of
        (st1, Inl e) \<Rightarrow> (st1, Some (Inl (e, [])))
      | (st1, Inr i) \<Rightarrow> await_answer i p polls st1)"

section \<open>Resolving\<close>

text \<open>The readings of the clock, the polls, and the identifier generated for a new proxy.\<close>

record asking =
  ak_window_now :: int
  ak_now :: int
  ak_polls :: "poll list"
  ak_proxy_now :: int
  ak_fresh :: opaque

type_synonym named = "(resolve_error + endpoint option) option"

definition named_proxy :: "asking \<Rightarrow> peer \<Rightarrow> opaque \<Rightarrow> string option \<Rightarrow> store \<Rightarrow> store \<times> named" where
  "named_proxy k p i display st =
     (case ensure_proxy (ak_proxy_now k) (ak_fresh k) (peer_id p) i display st of
        (st1, Inl e) \<Rightarrow> (st1, Some (Inl (e, [])))
      | (st1, Inr x) \<Rightarrow>
          (st1, Some (case endpoint_get st1 x of Inl e \<Rightarrow> Inl (e, []) | Inr e \<Rightarrow> Inr (Some e))))"

definition asked_proxy :: "asking \<Rightarrow> peer \<Rightarrow> string \<Rightarrow> store \<Rightarrow> store \<times> named" where
  "asked_proxy k p sel st =
     (case ask (ak_now k) p sel (ak_polls k) st of
        (st1, None) \<Rightarrow> (st1, None)
      | (st1, Some (Inl e)) \<Rightarrow> (st1, Some (Inl e))
      | (st1, Some (Inr (i, display))) \<Rightarrow> named_proxy k p i display st1)"

definition remote_resolve :: "asking \<Rightarrow> caller \<Rightarrow> string \<Rightarrow> store \<Rightarrow> store \<times> named" where
  "remote_resolve k c s st =
     (case remote_parse s of
        Inl e \<Rightarrow> (st, Some (Inl (e, [])))
      | Inr None \<Rightarrow> (st, Some (Inr None))
      | Inr (Some (Exact l i)) \<Rightarrow>
          (case known st l of
             Inl e \<Rightarrow> (st, Some (Inl (e, [])))
           | Inr p \<Rightarrow> named_proxy k p i None st)
      | Inr (Some (Named l sel)) \<Rightarrow>
          (case known st l of
             Inl e \<Rightarrow> (st, Some (Inl (e, [])))
           | Inr p \<Rightarrow> asked_proxy k p sel st)
      | Inr (Some (Through w rest)) \<Rightarrow>
          (case through_window (ak_window_now k) st w c of
             Inl e \<Rightarrow> (st, Some (Inl (e, [])))
           | Inr [] \<Rightarrow> (st, Some (Inr None))
           | Inr [p] \<Rightarrow> asked_proxy k p (address_str rest) st
           | Inr ps \<Rightarrow>
               (st, Some (Inl (AgentAmbiguous, take MAX_AMBIGUOUS_CANDIDATES
                  (map (\<lambda>p. ''@'' @ peer_name p @ '':'' @ address_str rest) ps))))))"

section \<open>An answer or a deadline\<close>

text \<open>C19. Asking a peer ends. Whatever the other processes do, when every poll is at least 25 milliseconds
  after the one before, four hundred and one polls are enough for the answer, the peer's error or the
  deadline.\<close>

theorem asking_ends:
  assumes "list_all (\<lambda>(n, q). 25 * int n \<le> po_elapsed q) (enumerate 0 polls)" and "length polls \<ge> 401"
  shows "snd (ask now p sel polls st) \<noteq> None"
proof -
  have ended: "snd (await_answer i p qs st) \<noteq> None" if "q \<in> set qs" "po_elapsed q \<ge> RESOLUTION_TIMEOUT_MS" for i q qs st
    using that
  proof (induction qs arbitrary: st)
    case (Cons r rs)
    then show ?case by (auto split: prod.split sum.split option.split)
  qed simp
  have "(400, polls ! 400) \<in> set (enumerate 0 polls)"
    using assms(2) by (auto simp: in_set_enumerate_eq)
  with assms(1) have "25 * int 400 \<le> po_elapsed (polls ! 400)" by (auto simp: list_all_iff)
  moreover have "polls ! 400 \<in> set polls" using assms(2) by simp
  ultimately have "snd (await_answer i p polls st) \<noteq> None" for i st
    by (intro ended) (simp_all add: RESOLUTION_TIMEOUT_MS_def)
  then show ?thesis by (auto simp: ask_def split: prod.split sum.split)
qed

definition sample_peer :: peer where
  "sample_peer = \<lparr>peer_id = ''p'', peer_name = ''buildbox'', peer_host = ''x'', peer_is_trusted = False, peer_lease = None\<rparr>"

theorem asking_ends_witness:
  "snd (ask 0 sample_peer ''w1'' (map (\<lambda>n. \<lparr>po_others = id, po_elapsed = 25 * int n\<rparr>) [0..<401]) (new_store ''h'')) \<noteq> None"
proof (rule asking_ends)
  show "list_all (\<lambda>(n, q). 25 * int n \<le> po_elapsed q) (enumerate 0 (map (\<lambda>n. \<lparr>po_others = id, po_elapsed = 25 * int n\<rparr>) [0..<401]))"
    by (auto simp: list_all_iff in_set_enumerate_eq)
qed simp

section \<open>The proxy of the peer that was named\<close>

lemma ensure_proxy_gives:
  assumes "ensure_proxy now fresh p remote display st = (st1, Inr i)"
  shows "\<exists>x \<in> set (st_proxies st1). px_endpoint x = i \<and> px_peer x = p \<and> px_remote x = remote"
proof (cases "live_peer_row st (\<lambda>r. pe_id r = p)")
  case (Some r)
  show ?thesis
  proof (cases "List.find (\<lambda>x. px_peer x = p \<and> px_remote x = remote) (st_proxies st)")
    case None
    then show ?thesis using assms Some
      by (auto simp: ensure_proxy_def create_proxy_def or_return_def Let_def insert_proxy_def audit_def
          split: sum.splits if_splits)
  next
    case found: (Some x)
    then have x: "x \<in> set (st_proxies st)" "px_peer x = p" "px_remote x = remote"
      by (auto simp: find_Some_iff)
    from assms Some found have "i = px_endpoint x" by (simp add: ensure_proxy_def)
    have "(if px_endpoint x = px_endpoint x then display_row v x else x)
        \<in> set (update_where (\<lambda>y. px_endpoint y = px_endpoint x) (display_row v) (st_proxies st))" for v
      unfolding set_update_where by (rule imageI) (rule x(1))
    then have "display_row v x \<in> set (update_where (\<lambda>y. px_endpoint y = px_endpoint x) (display_row v) (st_proxies st))" for v
      by simp
    note shown = this
    show ?thesis
    proof (cases "shown_display display")
      case None
      with assms Some found x show ?thesis by (auto simp: ensure_proxy_def)
    next
      case v: (Some v)
      from shown [of v] have "display_row v x \<in> set (st_proxies st1)"
        using assms Some found v by (auto simp: ensure_proxy_def)
      with x \<open>i = px_endpoint x\<close> show ?thesis by (intro bexI [of _ "display_row v x"]) (simp_all add: display_row_def)
    qed
  qed
qed (use assms in \<open>simp add: ensure_proxy_def\<close>)

lemma ensure_proxy_resolutions: "st_resolutions (fst (ensure_proxy now fresh p remote display st)) = st_resolutions st"
  by (auto simp: ensure_proxy_def create_proxy_def or_return_def Let_def insert_proxy_def insert_endpoint_def audit_def
      split: sum.splits option.splits if_splits)

lemma endpoint_get_id: "endpoint_get st i = Inr e \<Longrightarrow> ep_id e = i"
  by (auto simp: endpoint_get_def find_endpoint_def build_endpoint_def and_then_eq_Inr_iff dest!: lookup_by_Some
      split: option.splits)

lemma named_proxy_gives:
  assumes "named_proxy k p i display st = (st1, Some (Inr (Some e)))"
  shows "\<exists>x \<in> set (st_proxies st1). px_endpoint x = ep_id e \<and> px_peer x = peer_id p \<and> px_remote x = i"
proof -
  from assms obtain j where "ensure_proxy (ak_proxy_now k) (ak_fresh k) (peer_id p) i display st = (st1, Inr j)"
    and "endpoint_get st1 j = Inr e"
    by (auto simp: named_proxy_def split: prod.splits sum.splits)
  with ensure_proxy_gives endpoint_get_id show ?thesis by metis
qed

lemma asked_proxy_gives:
  assumes "asked_proxy k p sel st = (st1, Some (Inr (Some e)))"
  shows "\<exists>x \<in> set (st_proxies st1). px_endpoint x = ep_id e \<and> px_peer x = peer_id p"
  using assms by (auto simp: asked_proxy_def split: prod.splits option.splits sum.splits dest!: named_proxy_gives)

text \<open>C18. A remote name leads to the peer it names. When it resolves, the endpoint is a proxy of exactly the
  peer the selector names (the one whose label it carries, or the only one whose live bridge sits in
  that window); an exact form gives the proxy of that very identifier, and asks no one, so it works
  with no connection.\<close>

theorem remote_names_its_peer:
  assumes "remote_resolve k c s st = (st1, Some (Inr (Some e)))"
  shows "\<exists>p x. x \<in> set (st_proxies st1) \<and> px_endpoint x = ep_id e \<and> px_peer x = peer_id p
    \<and> (case remote_parse s of
          Inr (Some (Exact l i)) \<Rightarrow> known st l = Inr p \<and> px_remote x = i \<and> st_resolutions st1 = st_resolutions st
        | Inr (Some (Named l sel)) \<Rightarrow> known st l = Inr p
        | Inr (Some (Through w rest)) \<Rightarrow> through_window (ak_window_now k) st w c = Inr [p]
        | _ \<Rightarrow> False)"
proof -
  from assms obtain r where r: "remote_parse s = Inr (Some r)"
    by (cases "remote_parse s") (auto simp: remote_resolve_def split: option.splits)
  show ?thesis
  proof (cases r)
    case (Exact l i)
    with assms r obtain p where p: "known st l = Inr p" "named_proxy k p i None st = (st1, Some (Inr (Some e)))"
      by (auto simp: remote_resolve_def split: sum.splits)
    moreover have "st_resolutions st1 = st_resolutions st"
      using p(2) ensure_proxy_resolutions by (auto simp: named_proxy_def split: prod.splits sum.splits) (metis fst_conv)+
    ultimately show ?thesis using named_proxy_gives [OF p(2)] r Exact by auto
  next
    case (Named l sel)
    with assms r obtain p where p: "known st l = Inr p" "asked_proxy k p sel st = (st1, Some (Inr (Some e)))"
      by (auto simp: remote_resolve_def split: sum.splits)
    then show ?thesis using asked_proxy_gives [OF p(2)] r Named by auto
  next
    case (Through w rest)
    with assms r obtain p where p: "through_window (ak_window_now k) st w c = Inr [p]"
      "asked_proxy k p (address_str rest) st = (st1, Some (Inr (Some e)))"
      by (auto simp: remote_resolve_def split: sum.splits list.splits)
    then show ?thesis using asked_proxy_gives [OF p(2)] r Through by auto
  qed
qed

definition sample_remote :: opaque where "sample_remote = replicate 32 (CHR ''0'')"

definition sample_asking :: asking where
  "sample_asking = \<lparr>ak_window_now = 6, ak_now = 6, ak_polls = [], ak_proxy_now = 6, ak_fresh = ''x''\<rparr>"

definition sample_known :: store where "sample_known = fst (pin_peer 5 ''p'' ''lab'' ''h2'' sample_sent)"

theorem remote_names_its_peer_witness:
  "\<exists>st1 e x. remote_resolve sample_asking (sample_agent ''a'' ''ia'') (''@lab:'' @ sample_remote) sample_known = (st1, Some (Inr (Some e)))
     \<and> x \<in> set (st_proxies st1) \<and> px_endpoint x = ep_id e \<and> px_remote x = sample_remote"
proof -
  have parse: "remote_parse (''@lab:'' @ sample_remote) = Inr (Some (Exact ''lab'' sample_remote))" by code_simp
  obtain e where "remote_resolve sample_asking (sample_agent ''a'' ''ia'') (''@lab:'' @ sample_remote) sample_known
      = (fst (ensure_proxy 6 ''x'' ''p'' sample_remote None sample_known), Some (Inr (Some e)))"
    unfolding remote_resolve_def parse
    by (simp add: known_def peer_by_label_def sample_known_def sample_pin named_proxy_def sample_asking_def ensure_proxy_def
        live_peer_row_def create_proxy_def endpoint_limit_def MAX_ENDPOINTS_def insert_endpoint_def find_endpoint_def
        sample_sent_tables bind_row_def charge_row_def proxy_endpoint_row_def insert_proxy_def find_proxy_def find_peer_def
        sample_sent_peers pinned_row_def shown_display_def lease_unexpired_def audit_def endpoint_get_def build_endpoint_def
        build_peer_def read_address_def)
  from this remote_names_its_peer [OF this] show ?thesis unfolding parse by auto
qed

section \<open>Candidates to retype\<close>



end
