(* ===== verification/FileAttach.thy ===== *)
theory FileAttach
  imports RemoteNaming LayoutReconcile MeshTime
begin

text \<open>
  Attachments (\<open>vvagent/src/attach.rs\<close>): files read and hashed once, references to them, and the copy
  that crosses to a peer's host through the window of its bridge. The file system and the drop client
  are the record \<open>outside_files\<close>: what each call answers. A file may change between two calls.
\<close>

section \<open>Reading a file\<close>

definition MAX_ATTACHMENTS :: nat where "MAX_ATTACHMENTS = 8"
definition DEFAULT_MAX_ATTACHMENT_BYTES :: nat where "DEFAULT_MAX_ATTACHMENT_BYTES = 1024 * 1024 * 1024"

record local_file =
  lf_path :: string
  lf_bytes :: nat
  lf_sha256 :: string

text \<open>How \<open>drop-file\<close> ended: never started, its standard error, or its output as JSON.\<close>

datatype drop_end = DropNotRun | DropFailed string | DropReplied "json option"

text \<open>
  The answers of the system: the absolute form of a path, whether it is a regular file and its length
  (without following a link), the chunks that reading it gives (\<open>None\<close>: it cannot be opened; a chunk
  that is \<open>None\<close> is a failing read), the drop client, and the environment.
\<close>

record outside_files =
  xf_absolute :: "string \<Rightarrow> string option"
  xf_kind :: "string \<Rightarrow> (bool \<times> nat) option"
  xf_chunks :: "string \<Rightarrow> string option list option"
  xf_drop :: "string \<Rightarrow> nat \<Rightarrow> drop_end"
  xf_client :: bool
  xf_env :: "(runtime_kind \<times> string option) option"

fun hash_chunks :: "(string \<Rightarrow> string) \<Rightarrow> nat \<Rightarrow> string option list \<Rightarrow> string \<Rightarrow> (nat \<times> string) result" where
  "hash_chunks sha limit [] seen = Inr (length seen, sha seen)"
| "hash_chunks sha limit (None # cs) seen = Inl IoError"
| "hash_chunks sha limit (Some c # cs) seen =
     (if c = [] then Inr (length seen, sha seen)
      else if length (seen @ c) > limit then Inl InvalidRequest
      else hash_chunks sha limit cs (seen @ c))"

definition hash_file :: "(string \<Rightarrow> string) \<Rightarrow> outside_files \<Rightarrow> string \<Rightarrow> nat \<Rightarrow> (nat \<times> string) result" where
  "hash_file sha x path limit =
     (case xf_chunks x path of None \<Rightarrow> Inl InvalidRequest | Some cs \<Rightarrow> hash_chunks sha limit cs [])"

definition read_file :: "(string \<Rightarrow> string) \<Rightarrow> outside_files \<Rightarrow> nat \<Rightarrow> string \<Rightarrow> local_file result" where
  "read_file sha x limit given =
     (case xf_absolute x given of
        None \<Rightarrow> Inl InvalidRequest
      | Some path \<Rightarrow>
          (case xf_kind x path of
             None \<Rightarrow> Inl InvalidRequest
           | Some (regular, len) \<Rightarrow>
               if \<not> regular then Inl InvalidRequest
               else if len > limit then Inl InvalidRequest
               else and_then (hash_file sha x path limit) (\<lambda>(bytes, digest).
                 if bytes \<noteq> len then Inl AttachmentMismatch
                 else Inr \<lparr>lf_path = path, lf_bytes = bytes, lf_sha256 = digest\<rparr>)))"

section \<open>References and copies\<close>

record attached =
  ad_refs :: "reference list"
  ad_copied :: "(string \<times> string) list"

definition nothing_attached :: attached where
  "nothing_attached = \<lparr>ad_refs = [], ad_copied = []\<rparr>"

definition attachment_ref :: "string \<Rightarrow> local_file \<Rightarrow> opaque option \<Rightarrow> reference" where
  "attachment_ref path f h =
     File \<lparr>file_path = path, file_sha256 = Some (lf_sha256 f), file_bytes = Some (lf_bytes f), file_host = h\<rparr>"

text \<open>The window the file crosses through; the caller must sit in its instance.\<close>

definition carrier :: "int \<Rightarrow> outside_files \<Rightarrow> peer \<Rightarrow> caller \<Rightarrow> store \<Rightarrow> lease_anchor result" where
  "carrier now x p c st =
     (case live_anchor now p of
        None \<Rightarrow> Inl FileDropUnavailable
      | Some a \<Rightarrow>
          let here = (case own_instance st c of Some h \<Rightarrow> Some h | None \<Rightarrow> xf_env x)
          in if (case here of Some h \<Rightarrow> anchored_at a h | None \<Rightarrow> False) then Inr a else Inl FileDropUnavailable)"

text \<open>\<open>split_once\<close> at a text.\<close>

fun split_at :: "string \<Rightarrow> string \<Rightarrow> (string \<times> string) option" where
  "split_at pat [] = (if pat = [] then Some ([], []) else None)"
| "split_at pat (c # cs) =
     (case strip_prefix pat (c # cs) of
        Some rest \<Rightarrow> Some ([], rest)
      | None \<Rightarrow> map_option (\<lambda>(a, b). (c # a, b)) (split_at pat cs))"

definition drop_detail :: "string \<Rightarrow> string" where
  "drop_detail stderr =
     trim (case split_at (''error: '' @ [CHR 0x22]) stderr of
             None \<Rightarrow> stderr
           | Some (_, rest) \<Rightarrow> (case rsplit_once (CHR 0x22) rest of None \<Rightarrow> rest | Some (inner, _) \<Rightarrow> inner))"

definition drop_error :: "string \<Rightarrow> error_code" where
  "drop_error stderr =
     (let detail = drop_detail stderr;
          code = (case split_once (CHR '':'') detail of None \<Rightarrow> detail | Some (c, _) \<Rightarrow> c)
      in if code = ''no_file_drop_binding'' then FileDropUnavailable
         else if code = ''busy'' then RateLimited else IoError)"

definition text_of :: "json \<Rightarrow> string option" where
  "text_of v = (case v of JString s \<Rightarrow> Some s | _ \<Rightarrow> None)"

definition path_ok :: "string \<Rightarrow> bool" where
  "path_ok p \<longleftrightarrow> length p \<le> MAX_PATH_BYTES \<and> looks_absolute_anywhere p \<and> \<not> has_control p"

text \<open>What the receiver said is checked against what was read here.\<close>

definition check_reply :: "peer \<Rightarrow> local_file \<Rightarrow> json \<Rightarrow> recorded_attachment result" where
  "check_reply p f reply =
     (if text_of (member_of reply ''result'') \<noteq> Some ''committed''
         \<and> text_of (member_of reply ''result'') \<noteq> Some ''already_committed'' then Inl IoError
      else (case text_of (member_of reply ''remote_path'') of
              None \<Rightarrow> Inl FileDropUnavailable
            | Some path \<Rightarrow>
                if \<not> path_ok path then Inl FileDropUnavailable
                else if member_of reply ''bytes'' \<noteq> JUnsigned (lf_bytes f)
                  \<or> text_of (member_of reply ''sha256'') \<noteq> Some (lf_sha256 f) then Inl AttachmentMismatch
                else Inr \<lparr>ra_peer = peer_id p, ra_sha256 = lf_sha256 f, ra_bytes = lf_bytes f, ra_remote_path = path\<rparr>))"

definition drop_file :: "outside_files \<Rightarrow> lease_anchor \<Rightarrow> peer \<Rightarrow> local_file \<Rightarrow> recorded_attachment result" where
  "drop_file x a p f =
     (if \<not> xf_client x \<and> an_runtime a \<noteq> Vivida \<and> an_runtime a \<noteq> Vivido then Inl FileDropUnavailable
      else (case xf_drop x (lf_path f) (an_window a) of
              DropNotRun \<Rightarrow> Inl FileDropUnavailable
            | DropFailed stderr \<Rightarrow> Inl (drop_error stderr)
            | DropReplied None \<Rightarrow> Inl IoError
            | DropReplied (Some reply) \<Rightarrow> check_reply p f reply))"

section \<open>Attaching\<close>

text \<open>An error carries the places \<open>Attached::explain\<close> tells, the copies made before it.\<close>

type_synonym attach_error = "error_code \<times> (string \<times> string) list"

definition reusable :: "peer \<Rightarrow> local_file \<Rightarrow> recorded_attachment \<Rightarrow> bool" where
  "reusable p f r \<longleftrightarrow> ra_peer r = peer_id p \<and> ra_sha256 r = lf_sha256 f \<and> ra_bytes r = lf_bytes f"

definition add_copy :: "peer \<Rightarrow> local_file \<Rightarrow> recorded_attachment \<Rightarrow> attached \<Rightarrow> attached" where
  "add_copy p f r acc = \<lparr>ad_refs = ad_refs acc @ [attachment_ref (ra_remote_path r) f (Some (peer_id p))],
     ad_copied = ad_copied acc @ [(peer_name p, ra_remote_path r)]\<rparr>"

text \<open>One file: the copy recorded under the key is reused when it is the same file on the same peer. A record that
  fails leaves \<open>attach\<close> by \<open>?\<close>, without the places.\<close>

definition explain :: "attached \<Rightarrow> error_code \<Rightarrow> attach_error" where
  "explain acc e = (e, ad_copied acc)"

definition recorded_copy :: "store \<Rightarrow> caller \<Rightarrow> string \<Rightarrow> nat \<Rightarrow> peer \<Rightarrow> local_file \<Rightarrow> recorded_attachment option" where
  "recorded_copy st c key pos p f =
     (case recorded_attachment_get st c key pos of
        Some r \<Rightarrow> if reusable p f r then Some r else None
      | None \<Rightarrow> None)"

definition copy_one ::
  "int \<Rightarrow> caller \<Rightarrow> string \<Rightarrow> outside_files \<Rightarrow> lease_anchor \<Rightarrow> peer \<Rightarrow> opaque \<Rightarrow> nat \<Rightarrow> local_file \<Rightarrow> attached
    \<Rightarrow> store \<Rightarrow> store \<times> (attach_error + recorded_attachment)" where
  "copy_one now c key x a p proxy pos f acc st =
     (case recorded_copy st c key pos p f of
        Some r \<Rightarrow> (st, Inr r)
      | None \<Rightarrow>
          (case drop_file x a p f of
             Inl e \<Rightarrow> (st, Inl (explain acc e))
           | Inr r \<Rightarrow>
               (case record_attachment now c key pos proxy r st of
                  (st1, Inl e) \<Rightarrow> (st1, Inl (e, []))
                | (st1, Inr _) \<Rightarrow> (st1, Inr r))))"

fun copy_all ::
  "(nat \<Rightarrow> int) \<Rightarrow> caller \<Rightarrow> string \<Rightarrow> outside_files \<Rightarrow> lease_anchor \<Rightarrow> peer \<Rightarrow> opaque \<Rightarrow> nat \<Rightarrow> local_file list \<Rightarrow> attached
    \<Rightarrow> store \<Rightarrow> store \<times> (attach_error + attached)" where
  "copy_all tick c key x a p proxy pos [] acc st = (st, Inr acc)"
| "copy_all tick c key x a p proxy pos (f # fs) acc st =
     (case copy_one (tick pos) c key x a p proxy pos f acc st of
        (st1, Inl e) \<Rightarrow> (st1, Inl e)
      | (st1, Inr r) \<Rightarrow> copy_all tick c key x a p proxy (pos + 1) fs (add_copy p f r acc) st1)"

definition attach_allowed :: "store \<Rightarrow> caller \<Rightarrow> bool" where
  "attach_allowed st c \<longleftrightarrow>
     (case pr_endpoint (cl_principal c) of
        Some e \<Rightarrow> pr_kind (cl_principal c) = Agent \<longrightarrow> pol_attach (policy_get st e)
      | None \<Rightarrow> True)"

text \<open>\<open>now\<close> is the reading of the clock for the lease, \<open>tick pos\<close> the one for the record of a position.\<close>

definition attach_files ::
  "(string \<Rightarrow> string) \<Rightarrow> outside_files \<Rightarrow> int \<Rightarrow> (nat \<Rightarrow> int) \<Rightarrow> caller \<Rightarrow> endpoint \<Rightarrow> string \<Rightarrow> string list \<Rightarrow> nat option
    \<Rightarrow> store \<Rightarrow> store \<times> (attach_error + attached)" where
  "attach_files sha x now tick c target key paths limit st =
     (if paths = [] then (st, Inr nothing_attached)
      else if length paths > MAX_ATTACHMENTS then (st, Inl (InvalidRequest, []))
      else if \<not> attach_allowed st c then (st, Inl (NotAuthorized, []))
      else (case collect (map (read_file sha x (case limit of Some n \<Rightarrow> n | None \<Rightarrow> DEFAULT_MAX_ATTACHMENT_BYTES)) paths) of
              Inl e \<Rightarrow> (st, Inl (e, []))
            | Inr fs \<Rightarrow>
                if loc_kind (ep_locator target) \<noteq> PeerRuntime
                then (st, Inr \<lparr>ad_refs = map (\<lambda>f. attachment_ref (lf_path f) f None) fs, ad_copied = []\<rparr>)
                else
                  (case and_then (proxy_get st (ep_id target)) (\<lambda>q.
                         and_then (peer_by_id st (px_peer q)) (\<lambda>p.
                         and_then (carrier now x p c st) (\<lambda>a. Inr (q, p, a)))) of
                     Inl e \<Rightarrow> (st, Inl (e, []))
                   | Inr (q, p, a) \<Rightarrow> copy_all tick c key x a p (px_endpoint q) 0 fs nothing_attached st)))"

section \<open>Checking references\<close>

record verdict =
  vd_path :: string
  vd_bytes :: "nat option"
  vd_sha256 :: string
  vd_verified :: "bool option"
  vd_reason :: "string option"

definition verify_one :: "(string \<Rightarrow> string) \<Rightarrow> outside_files \<Rightarrow> nat \<Rightarrow> string \<Rightarrow> string \<Rightarrow> nat option \<Rightarrow> verdict" where
  "verify_one sha x limit path digest bytes =
     (let verdict = (\<lambda>v r. \<lparr>vd_path = path, vd_bytes = bytes, vd_sha256 = digest, vd_verified = v, vd_reason = r\<rparr>)
      in case xf_kind x path of
           None \<Rightarrow> verdict (Some False) (Some ''missing'')
         | Some (regular, len) \<Rightarrow>
             if \<not> regular then verdict (Some False) (Some ''not a regular file'')
             else if (case bytes of Some n \<Rightarrow> n \<noteq> len | None \<Rightarrow> False) then verdict (Some False) (Some ''length differs'')
             else if len > limit
             then verdict None (Some ''too large to verify inline; run `vvagent ref verify`'')
             else (case hash_file sha x path limit of
                     Inr (_, actual) \<Rightarrow>
                       if actual = digest then verdict (Some True) None
                       else verdict (Some False) (Some ''sha256 differs'')
                   | Inl _ \<Rightarrow> verdict (Some False) (Some ''unreadable'')))"

definition verify :: "(string \<Rightarrow> string) \<Rightarrow> outside_files \<Rightarrow> nat \<Rightarrow> reference list \<Rightarrow> verdict list" where
  "verify sha x limit refs =
     concat (map (\<lambda>r. (case r of
         File f \<Rightarrow>
           (case (file_sha256 f, file_host f) of
              (Some digest, None) \<Rightarrow> [verify_one sha x limit (file_path f) digest (file_bytes f)]
            | _ \<Rightarrow> [])
       | _ \<Rightarrow> [])) refs)"

definition MAX_INLINE_VERIFY_BYTES :: nat where "MAX_INLINE_VERIFY_BYTES = 256 * 1024 * 1024"

definition verify_inline :: "(string \<Rightarrow> string) \<Rightarrow> outside_files \<Rightarrow> reference list \<Rightarrow> verdict list" where
  "verify_inline sha x = verify sha x MAX_INLINE_VERIFY_BYTES"

section \<open>What was attached is what is found\<close>

lemma hash_chunks_bytes: "hash_chunks sha n cs seen = Inr (b, d) \<Longrightarrow> length seen \<le> b"
  by (induction sha n cs seen rule: hash_chunks.induct) (auto split: if_splits)

lemma hash_chunks_limit: "hash_chunks sha m cs seen = Inr (b, d) \<Longrightarrow> b \<le> n \<Longrightarrow> hash_chunks sha n cs seen = Inr (b, d)"
proof (induction sha m cs seen rule: hash_chunks.induct)
  case (3 sha m ch cs seen)
  then show ?case by (auto split: if_splits dest: hash_chunks_bytes)
qed auto

lemma read_file_facts:
  assumes "read_file sha x m given = Inr f"
  shows "xf_kind x (lf_path f) = Some (True, lf_bytes f)"
    and "lf_bytes f \<le> n \<Longrightarrow> hash_file sha x (lf_path f) n = Inr (lf_bytes f, lf_sha256 f)"
  using assms
  by (auto simp: read_file_def hash_file_def and_then_eq_Inr_iff split: option.splits if_splits)
    (erule hash_chunks_limit, assumption)

lemma collect_Inr: "collect rs = Inr xs \<longleftrightarrow> rs = map Inr xs"
  by (induction rs arbitrary: xs) (auto simp: and_then_eq_Inr_iff Cons_eq_map_conv)

text \<open>C23. What was attached is what a check finds. A file attached for a recipient on this host, and not
  changed since, is verified: the check of every reference made says it is what it was, unless it is
  over the limit, where the check says it did not look; and attaching changes nothing of the store.\<close>

theorem attached_verifies:
  assumes "attach_files sha x now tick c target key paths limit st = (st1, Inr a)"
    and "loc_kind (ep_locator target) \<noteq> PeerRuntime"
  shows "st1 = st \<and> length (verify sha x n (ad_refs a)) = length paths
    \<and> list_all (\<lambda>v. vd_verified v = (if the (vd_bytes v) \<le> n then Some True else None)) (verify sha x n (ad_refs a))"
proof (cases "paths = []")
  case False
  let ?read = "read_file sha x (case limit of Some n \<Rightarrow> n | None \<Rightarrow> DEFAULT_MAX_ATTACHMENT_BYTES)"
  from assms False obtain fs where fs: "map ?read paths = map Inr fs"
    and st: "st1 = st" and refs: "ad_refs a = map (\<lambda>f. attachment_ref (lf_path f) f None) fs"
    by (auto simp: attach_files_def collect_Inr split: if_splits sum.splits)
  have one: "verify_one sha x n (lf_path f) (lf_sha256 f) (Some (lf_bytes f)) =
      \<lparr>vd_path = lf_path f, vd_bytes = Some (lf_bytes f), vd_sha256 = lf_sha256 f,
       vd_verified = (if lf_bytes f \<le> n then Some True else None),
       vd_reason = (if lf_bytes f \<le> n then None else Some ''too large to verify inline; run `vvagent ref verify`'')\<rparr>"
    if "?read given = Inr f" for given f
    using read_file_facts [OF that] by (simp add: verify_one_def)
  have all: "\<exists>given. ?read given = Inr f" if f: "f \<in> set fs" for f
  proof -
    have "Inr f \<in> set (map ?read paths)" unfolding fs using f by simp
    then show ?thesis by (metis (no_types, lifting) in_set_conv_nth length_map nth_map)
  qed
  have "verify sha x n (ad_refs a) = map (\<lambda>f. verify_one sha x n (lf_path f) (lf_sha256 f) (Some (lf_bytes f))) fs"
    unfolding refs by (induction fs) (simp_all add: verify_def attachment_ref_def)
  moreover have "length paths = length fs" using arg_cong [OF fs, of length] by simp
  ultimately show ?thesis using st all one by (fastforce simp: list_all_iff)
qed (use assms in \<open>auto simp: attach_files_def nothing_attached_def verify_def\<close>)

section \<open>Copies are checked\<close>

definition attachments_frame :: "store \<Rightarrow> store \<Rightarrow> bool" where
  "attachments_frame st st1 \<longleftrightarrow> (\<exists>rows trail. st1 = st\<lparr>st_attachments := rows, st_audit := trail\<rparr>)"

lemma attachments_frame_refl: "attachments_frame st st"
  unfolding attachments_frame_def by (rule exI [of _ "st_attachments st"], rule exI [of _ "st_audit st"]) simp

lemma attachments_frame_trans:
  assumes "attachments_frame a b" and "attachments_frame b c"
  shows "attachments_frame a c"
proof -
  from assms obtain r s r' s' where "b = a\<lparr>st_attachments := r, st_audit := s\<rparr>" "c = b\<lparr>st_attachments := r', st_audit := s'\<rparr>"
    unfolding attachments_frame_def by blast
  then have "c = a\<lparr>st_attachments := r', st_audit := s'\<rparr>" by simp
  then show ?thesis unfolding attachments_frame_def by blast
qed

lemma record_frame: "attachments_frame st (fst (record_attachment now c key pos q r st))"
  by (auto simp: record_attachment_def Let_def audit_def attachments_frame_refl) (auto simp: attachments_frame_def)

lemma copy_one_frame: "attachments_frame st (fst (copy_one now c key x a p q pos f acc st))"
  using record_frame attachments_frame_refl
  by (auto simp: copy_one_def split: option.splits sum.splits prod.splits) (metis fst_conv)+

lemma copy_all_frame: "attachments_frame st (fst (copy_all tick c key x a p q pos fs acc st))"
proof (induction fs arbitrary: pos acc st)
  case (Cons f fs)
  let ?one = "copy_one (tick pos) c key x a p q pos f acc st"
  have one: "attachments_frame st (fst ?one)" by (rule copy_one_frame)
  have "attachments_frame st (fst (copy_all tick c key x a p q (pos + 1) fs acc' (fst ?one)))" for acc'
    by (rule attachments_frame_trans [OF one Cons.IH])
  with one show ?case by (auto split: prod.split sum.split)
qed (simp add: attachments_frame_refl)


definition at_place :: "caller \<Rightarrow> string \<Rightarrow> nat \<Rightarrow> attachment_row \<Rightarrow> bool" where
  "at_place c key pos w \<longleftrightarrow>
     at_sender w = principal_key (cl_principal c) \<and> at_key w = key \<and> at_position w = i64_position pos"

lemma record_attachment_Inr:
  "record_attachment now c key pos q r st = (st1, Inr u) \<Longrightarrow>
     \<exists>trail. st1 = st\<lparr>st_attachments := filter (\<lambda>w. \<not> at_place c key pos w)
          (filter (\<lambda>w. at_created_at w > now - MAX_REQUEST_LIFETIME_MS) (st_attachments st))
        @ [\<lparr>at_sender = principal_key (cl_principal c), at_key = key, at_position = i64_position pos, at_peer = ra_peer r,
            at_sha256 = ra_sha256 r, at_bytes = int (ra_bytes r), at_remote_path = ra_remote_path r, at_created_at = now\<rparr>],
        st_audit := trail\<rparr>"
  unfolding at_place_def by (auto simp: record_attachment_def Let_def audit_def split: if_splits)

text \<open>A copy stands for the file when an earlier send recorded it, or when the receiver confirmed it now.\<close>

definition recorded_before :: "store \<Rightarrow> caller \<Rightarrow> string \<Rightarrow> nat \<Rightarrow> peer \<Rightarrow> local_file \<Rightarrow> string \<Rightarrow> bool" where
  "recorded_before st c key pos p f path \<longleftrightarrow> (\<exists>w \<in> set (st_attachments st). at_place c key pos w
     \<and> at_peer w = peer_id p \<and> at_sha256 w = lf_sha256 f \<and> nat (at_bytes w) = lf_bytes f \<and> at_remote_path w = path)"

definition confirmed :: "outside_files \<Rightarrow> lease_anchor \<Rightarrow> local_file \<Rightarrow> string \<Rightarrow> bool" where
  "confirmed x a f path \<longleftrightarrow> path_ok path \<and> (\<exists>reply. xf_drop x (lf_path f) (an_window a) = DropReplied (Some reply)
     \<and> text_of (member_of reply ''remote_path'') = Some path \<and> member_of reply ''bytes'' = JUnsigned (lf_bytes f)
     \<and> text_of (member_of reply ''sha256'') = Some (lf_sha256 f))"

lemma drop_file_Inr:
  assumes "drop_file x a p f = Inr r"
  shows "confirmed x a f (ra_remote_path r) \<and> reusable p f r"
  using assms
  by (auto simp: drop_file_def check_reply_def confirmed_def reusable_def split: if_splits drop_end.splits option.splits)

lemma recorded_copy_Some:
  assumes "recorded_copy st c key pos p f = Some r"
  shows "recorded_before st c key pos p f (ra_remote_path r) \<and> reusable p f r"
  using assms
  by (fastforce simp: recorded_copy_def recorded_attachment_get_def at_place_def recorded_before_def reusable_def find_Some_iff
      split: option.splits if_splits dest: nth_mem)

lemma copy_one_Inr:
  assumes "copy_one now c key x a p q pos f acc st = (st1, Inr r)"
  shows "(recorded_before st c key pos p f (ra_remote_path r) \<or> confirmed x a f (ra_remote_path r)) \<and> reusable p f r
    \<and> (st1 = st \<and> recorded_copy st c key pos p f = Some r \<or> (\<exists>u. record_attachment now c key pos q r st = (st1, Inr u)))"
  using assms by (auto simp: copy_one_def split: option.splits sum.splits prod.splits dest!: drop_file_Inr recorded_copy_Some)


lemma i64_position_inj: "m \<le> MAX_ATTACHMENTS \<Longrightarrow> n \<le> MAX_ATTACHMENTS \<Longrightarrow> i64_position m = i64_position n \<longleftrightarrow> m = n"
  by (auto simp: i64_position_def MAX_ATTACHMENTS_def i64_max_def)

lemma copy_one_rows:
  assumes "copy_one now c key x a p q pos f acc st = (st1, Inr r)" and "w \<in> set (st_attachments st1)"
    and "at_place c key n w" and "n \<noteq> pos" "n \<le> MAX_ATTACHMENTS" "pos \<le> MAX_ATTACHMENTS"
  shows "w \<in> set (st_attachments st)"
proof -
  have other: "at_position w \<noteq> i64_position pos" using assms(3-) i64_position_inj by (simp add: at_place_def)
  from copy_one_Inr [OF assms(1)] have "st1 = st \<or> (\<exists>u. record_attachment now c key pos q r st = (st1, Inr u))" by blast
  then show ?thesis
  proof
    assume "\<exists>u. record_attachment now c key pos q r st = (st1, Inr u)"
    then obtain u where "record_attachment now c key pos q r st = (st1, Inr u)" by blast
    from record_attachment_Inr [OF this] show ?thesis using assms(2) other by auto
  qed (use assms(2) in simp)
qed

lemma copy_all_Inr:
  assumes "copy_all tick c key x a p q pos fs acc st = (st1, Inr got)" and "pos + length fs \<le> MAX_ATTACHMENTS"
  shows "\<exists>ps. length ps = length fs
    \<and> ad_refs got = ad_refs acc @ map2 (\<lambda>path f. attachment_ref path f (Some (peer_id p))) ps fs
    \<and> ad_copied got = ad_copied acc @ map (\<lambda>path. (peer_name p, path)) ps
    \<and> (\<forall>i < length fs. recorded_before st c key (pos + i) p (fs ! i) (ps ! i) \<or> confirmed x a (fs ! i) (ps ! i))"
  using assms
proof (induction fs arbitrary: pos acc st)
  case (Cons f fs)
  from Cons.prems(1) obtain st2 r where one: "copy_one (tick pos) c key x a p q pos f acc st = (st2, Inr r)"
    and rest: "copy_all tick c key x a p q (pos + 1) fs (add_copy p f r acc) st2 = (st1, Inr got)"
    by (auto split: prod.splits sum.splits)
  from Cons.IH [OF rest] Cons.prems(2) obtain ps where ps: "length ps = length fs"
    "ad_refs got = ad_refs (add_copy p f r acc) @ map2 (\<lambda>path f. attachment_ref path f (Some (peer_id p))) ps fs"
    "ad_copied got = ad_copied (add_copy p f r acc) @ map (\<lambda>path. (peer_name p, path)) ps"
    "\<And>i. i < length fs \<Longrightarrow> recorded_before st2 c key (pos + 1 + i) p (fs ! i) (ps ! i) \<or> confirmed x a (fs ! i) (ps ! i)"
    by auto
  have before: "recorded_before st c key n p g path" if "recorded_before st2 c key n p g path" "n \<noteq> pos" "n \<le> MAX_ATTACHMENTS" for n g path
    using that copy_one_rows [OF one] Cons.prems(2) by (auto simp: recorded_before_def)
  have head: "recorded_before st c key pos p f (ra_remote_path r) \<or> confirmed x a f (ra_remote_path r)"
    using copy_one_Inr [OF one] by blast
  have tail: "recorded_before st c key (pos + Suc i) p (fs ! i) (ps ! i) \<or> confirmed x a (fs ! i) (ps ! i)" if "i < length fs" for i
    using ps(4) [OF that] before [of "pos + Suc i"] Cons.prems(2) that by auto
  show ?case
  proof (rule exI [of _ "ra_remote_path r # ps"], intro conjI allI impI)
    fix i assume "i < length (f # fs)"
    then show "recorded_before st c key (pos + i) p ((f # fs) ! i) ((ra_remote_path r # ps) ! i)
        \<or> confirmed x a ((f # fs) ! i) ((ra_remote_path r # ps) ! i)"
      using head tail by (cases i) auto
  qed (simp_all add: ps(1-3) add_copy_def)
qed simp

lemma attach_remote:
  assumes "attach_files sha x now tick c target key paths limit st = (st1, Inr got)"
    and "loc_kind (ep_locator target) = PeerRuntime" and "paths \<noteq> []"
  obtains fs q p a where
    "map (read_file sha x (case limit of Some n \<Rightarrow> n | None \<Rightarrow> DEFAULT_MAX_ATTACHMENT_BYTES)) paths = map Inr fs"
    "length fs \<le> MAX_ATTACHMENTS" "attach_allowed st c" "proxy_get st (ep_id target) = Inr q"
    "peer_by_id st (px_peer q) = Inr p" "carrier now x p c st = Inr a"
    "copy_all tick c key x a p (px_endpoint q) 0 fs nothing_attached st = (st1, Inr got)"
proof -
  let ?read = "read_file sha x (case limit of Some n \<Rightarrow> n | None \<Rightarrow> DEFAULT_MAX_ATTACHMENT_BYTES)"
  let ?way = "and_then (proxy_get st (ep_id target)) (\<lambda>q. and_then (peer_by_id st (px_peer q)) (\<lambda>p.
    and_then (carrier now x p c st) (\<lambda>a. Inr (q, p, a))))"
  from assms(1,3) have few: "length paths \<le> MAX_ATTACHMENTS" and may: "attach_allowed st c"
    by (auto simp: attach_files_def split: if_splits)
  with assms obtain fs where fs: "collect (map ?read paths) = Inr fs"
    by (auto simp: attach_files_def split: sum.splits)
  with assms few may obtain q p a where way: "?way = Inr (q, p, a)"
    and run: "copy_all tick c key x a p (px_endpoint q) 0 fs nothing_attached st = (st1, Inr got)"
    by (cases ?way) (auto simp: attach_files_def)
  have "map ?read paths = map Inr fs" using fs by (simp only: collect_Inr)
  then have "length (map ?read paths) = length (map (Inr :: local_file \<Rightarrow> local_file result) fs)" by (simp only:)
  then have "length fs = length paths" by simp
  with fs few may way run show ?thesis by (intro that) (auto simp: collect_Inr and_then_eq_Inr_iff)
qed


section \<open>A retried send drops nothing again\<close>

definition fresh_rows :: "(nat \<Rightarrow> int) \<Rightarrow> store \<Rightarrow> bool" where
  "fresh_rows tick st \<longleftrightarrow> (\<forall>w \<in> set (st_attachments st). \<forall>n. tick n - MAX_REQUEST_LIFETIME_MS < at_created_at w)"

lemma get_at_place:
  "recorded_attachment_get st c key pos =
     map_option (\<lambda>w. \<lparr>ra_peer = at_peer w, ra_sha256 = at_sha256 w, ra_bytes = nat (at_bytes w), ra_remote_path = at_remote_path w\<rparr>)
       (List.find (at_place c key pos) (st_attachments st))"
  unfolding recorded_attachment_get_def at_place_def by simp

lemma find_append: "List.find P (xs @ ys) = (case List.find P xs of Some z \<Rightarrow> Some z | None \<Rightarrow> List.find P ys)"
  by (induction xs) auto

lemma find_filter: "(\<And>w. w \<in> set xs \<Longrightarrow> P w \<Longrightarrow> Q w) \<Longrightarrow> List.find P (filter Q xs) = List.find P xs"
  by (induction xs) auto

lemma find_excluded: "List.find P (filter (\<lambda>w. \<not> P w) xs) = None"
  by (simp add: find_None_iff)

lemma record_then_get:
  assumes "record_attachment now c key pos q r st = (st1, Inr u)"
  shows "recorded_attachment_get st1 c key pos = Some r"
proof -
  let ?new = "\<lparr>at_sender = principal_key (cl_principal c), at_key = key, at_position = i64_position pos, at_peer = ra_peer r,
            at_sha256 = ra_sha256 r, at_bytes = int (ra_bytes r), at_remote_path = ra_remote_path r, at_created_at = now\<rparr>"
  from record_attachment_Inr [OF assms] obtain rows where
    "st_attachments st1 = filter (\<lambda>w. \<not> at_place c key pos w) rows @ [?new]" by (auto simp del: filter_filter)
  then have "List.find (at_place c key pos) (st_attachments st1) = Some ?new"
    by (simp only: find_append find_excluded) (simp add: at_place_def)
  then show ?thesis by (simp add: get_at_place)
qed

lemma record_keeps_others:
  assumes "record_attachment (tick pos) c key pos q r st = (st1, Inr u)" and "fresh_rows tick st"
    and "n \<noteq> pos" "n \<le> MAX_ATTACHMENTS" "pos \<le> MAX_ATTACHMENTS" and "\<And>m n. tick n - MAX_REQUEST_LIFETIME_MS < tick m"
  shows "recorded_attachment_get st1 c key n = recorded_attachment_get st c key n \<and> fresh_rows tick st1"
proof -
  have ne: "i64_position n \<noteq> i64_position pos" using assms(3-5) i64_position_inj by simp
  have "st_attachments st1 = filter (\<lambda>w. \<not> at_place c key pos w) (st_attachments st)
      @ [\<lparr>at_sender = principal_key (cl_principal c), at_key = key, at_position = i64_position pos, at_peer = ra_peer r,
          at_sha256 = ra_sha256 r, at_bytes = int (ra_bytes r), at_remote_path = ra_remote_path r, at_created_at = tick pos\<rparr>]"
    (is "_ = ?kept @ [?new]")
  proof -
    have "filter (\<lambda>w. at_created_at w > tick pos - MAX_REQUEST_LIFETIME_MS) (st_attachments st) = st_attachments st"
      using assms(2) by (simp add: fresh_rows_def filter_id_conv)
    then show ?thesis using record_attachment_Inr [OF assms(1)] by (auto simp: at_place_def)
  qed
  moreover have "List.find (at_place c key n) (?kept @ [?new]) = List.find (at_place c key n) (st_attachments st)"
    using ne by (subst find_append, subst find_filter) (auto simp: at_place_def split: option.split)
  moreover have "fresh_rows tick st1" using calculation(1) assms(2,6) by (auto simp: fresh_rows_def)
  ultimately show ?thesis by (simp add: get_at_place)
qed

lemma copy_all_keeps:
  assumes "copy_all tick c key x a p q pos fs acc st = (st1, Inr got)" and "fresh_rows tick st" and "n < pos"
    and "pos + length fs \<le> MAX_ATTACHMENTS" and spread: "\<And>m n. tick n - MAX_REQUEST_LIFETIME_MS < tick m"
  shows "recorded_attachment_get st1 c key n = recorded_attachment_get st c key n"
  using assms(1-4)
proof (induction fs arbitrary: pos acc st)
  case (Cons f fs)
  from Cons.prems(1) obtain st2 r where one: "copy_one (tick pos) c key x a p q pos f acc st = (st2, Inr r)"
    and rest: "copy_all tick c key x a p q (pos + 1) fs (add_copy p f r acc) st2 = (st1, Inr got)"
    by (auto split: prod.splits sum.splits)
  from copy_one_Inr [OF one] have "st2 = st \<or> (\<exists>u. record_attachment (tick pos) c key pos q r st = (st2, Inr u))" by blast
  then have "recorded_attachment_get st2 c key n = recorded_attachment_get st c key n \<and> fresh_rows tick st2"
  proof
    assume "\<exists>u. record_attachment (tick pos) c key pos q r st = (st2, Inr u)"
    then obtain u where "record_attachment (tick pos) c key pos q r st = (st2, Inr u)" by blast
    then show ?thesis by (rule record_keeps_others) (use Cons.prems spread in auto)
  qed (use Cons.prems in simp)
  with Cons.IH [OF rest] Cons.prems show ?case by simp
qed simp

lemma copy_one_recorded:
  assumes "copy_one now c key x a p q pos f acc st = (st1, Inr r)"
  shows "recorded_copy st1 c key pos p f = Some r"
  using copy_one_Inr [OF assms] record_then_get by (fastforce simp: recorded_copy_def)

lemma copy_all_again:
  assumes "copy_all tick c key x a p q pos fs acc st = (st1, Inr got)" and "fresh_rows tick st"
    and "pos + length fs \<le> MAX_ATTACHMENTS" and spread: "\<And>m n. tick n - MAX_REQUEST_LIFETIME_MS < tick m"
  shows "copy_all tock c key y b p q pos fs acc st1 = (st1, Inr got)"
  using assms(1-3)
proof (induction fs arbitrary: pos acc st)
  case (Cons f fs)
  from Cons.prems(1) obtain st2 r where one: "copy_one (tick pos) c key x a p q pos f acc st = (st2, Inr r)"
    and rest: "copy_all tick c key x a p q (pos + 1) fs (add_copy p f r acc) st2 = (st1, Inr got)"
    by (auto split: prod.splits sum.splits)
  from copy_one_Inr [OF one] have "st2 = st \<or> (\<exists>u. record_attachment (tick pos) c key pos q r st = (st2, Inr u))" by blast
  then have fresh: "fresh_rows tick st2"
  proof
    assume "\<exists>u. record_attachment (tick pos) c key pos q r st = (st2, Inr u)"
    then obtain u where "record_attachment (tick pos) c key pos q r st = (st2, Inr u)" by blast
    from record_keeps_others [OF this Cons.prems(2), of "Suc pos"] show ?thesis using Cons.prems(3) spread by auto
  qed (use Cons.prems in simp)
  have "recorded_attachment_get st1 c key pos = recorded_attachment_get st2 c key pos"
    by (rule copy_all_keeps [OF rest fresh]) (use Cons.prems spread in auto)
  with copy_one_recorded [OF one] have "recorded_copy st1 c key pos p f = Some r" by (simp add: recorded_copy_def)
  moreover have "copy_all tock c key y b p q (pos + 1) fs (add_copy p f r acc) st1 = (st1, Inr got)"
    by (rule Cons.IH [OF rest fresh]) (use Cons.prems in simp)
  ultimately show ?case by (simp add: copy_one_def)
qed simp


lemma frame_reads:
  assumes "attachments_frame st st1"
  shows "attach_allowed st1 c = attach_allowed st c" "proxy_get st1 i = proxy_get st i" "peer_by_id st1 i = peer_by_id st i"
proof -
  from assms obtain rows trail where "st1 = st\<lparr>st_attachments := rows, st_audit := trail\<rparr>"
    unfolding attachments_frame_def by blast
  moreover from this have "policy_get st1 = policy_get st" by (simp add: fun_eq_iff policy_get_def find_endpoint_def)
  ultimately show "attach_allowed st1 c = attach_allowed st c" "proxy_get st1 i = proxy_get st i" "peer_by_id st1 i = peer_by_id st i"
    by (simp_all add: attach_allowed_def proxy_get_def find_proxy_def peer_by_id_def
        live_peer_row_def cong: option.case_cong)
qed

lemma carrier_code: "carrier now x p c st = Inl e \<Longrightarrow> e = FileDropUnavailable"
  by (auto simp: carrier_def Let_def split: option.splits if_splits)



section \<open>A sample\<close>

text \<open>The recipient is the proxy of a peer whose bridge runs in window 7 of this instance.\<close>

definition sample_files :: outside_files where
  "sample_files = \<lparr>xf_absolute = Some, xf_kind = (\<lambda>p. Some (True, 2)), xf_chunks = (\<lambda>p. Some [Some ''hi'']),
     xf_drop = (\<lambda>p w. DropReplied (Some (JObject [(''result'', JString ''committed''), (''remote_path'', JString ''/in/f''),
        (''bytes'', JUnsigned 2), (''sha256'', JString ''d'')]))),
     xf_client = True, xf_env = Some (Vivida, Some ''w'')\<rparr>"

definition sample_carried :: store where
  "sample_carried = fst (acquire_peer_lease ''p'' ''bridge'' (Some \<lparr>an_runtime = Vivida, an_instance = ''w'', an_window = 7\<rparr>)
     1000 6 sample_pinned)"

definition sample_target :: "runtime_kind \<Rightarrow> endpoint" where
  "sample_target k = \<lparr>ep_id = ''x'', ep_incarnation = None, ep_alias = None, ep_provider = None,
     ep_locator = \<lparr>loc_kind = k, loc_instance_id = ''p'', loc_instance_name = None, loc_address = None\<rparr>,
     ep_online = True, ep_generation = 1, ep_state = Idle, ep_pending = 0\<rparr>"

definition sample_attach :: "runtime_kind \<Rightarrow> store \<times> (attach_error + attached)" where
  "sample_attach k = attach_files (\<lambda>_. ''d'') sample_files 7 (\<lambda>_. 7) (sample_agent ''a'' ''ia'') (sample_target k) ''k'' [''/f''] None sample_carried"

theorem attached_verifies_witness:
  "map vd_verified (verify (\<lambda>_. ''d'') sample_files 10 [attachment_ref ''/f'' \<lparr>lf_path = ''/f'', lf_bytes = 2, lf_sha256 = ''d''\<rparr> None]) = [Some True]"
proof -
  let ?refs = "[attachment_ref ''/f'' \<lparr>lf_path = ''/f'', lf_bytes = 2, lf_sha256 = ''d''\<rparr> None]"
  have "attach_allowed st (sample_agent ''a'' ''ia'')" if "policy_get st ''a'' = default_policy" for st
    using that by (simp add: attach_allowed_def default_policy_def)
  moreover have "policy_get (new_store ''h'') ''a'' = default_policy"
    by (simp add: policy_get_def find_endpoint_def new_store_def)
  ultimately have run: "attach_files (\<lambda>_. ''d'') sample_files 7 (\<lambda>_. 7) (sample_agent ''a'' ''ia'') (sample_target Vvmux) ''k'' [''/f''] None (new_store ''h'')
      = (new_store ''h'', Inr \<lparr>ad_refs = ?refs, ad_copied = []\<rparr>)"
    by (simp add: attach_files_def MAX_ATTACHMENTS_def read_file_def hash_file_def sample_files_def
        DEFAULT_MAX_ATTACHMENT_BYTES_def sample_target_def numeral_2_eq_2)
  from attached_verifies [OF run, of 10] show ?thesis
    by (simp add: sample_target_def verify_def attachment_ref_def verify_one_def sample_files_def Let_def hash_file_def)
qed


lemma sample_pinned_attachments: "st_attachments sample_pinned = []"
proof -
  have "st_attachments sample_bound = []"
    by (simp add: sample_bound_def sample_alice_def endpoint_bind_def Let_def sample_binding_def slot_of_def new_store_def
        endpoint_limit_def MAX_ENDPOINTS_def insert_endpoint_def find_endpoint_def bind_row_def sample_sha_def hex_def audit_def)
  then have "st_attachments sample_sent = []"
    by (simp add: sample_sent_def sample_send_eq accepted_store_def remember_key_def set_endpoints_def audit_def)
  then show ?thesis
    by (simp add: sample_pinned_def sample_pin ensure_proxy_def live_peer_row_def create_proxy_def endpoint_limit_def
        MAX_ENDPOINTS_def insert_endpoint_def find_endpoint_def sample_sent_tables bind_row_def charge_row_def
        proxy_endpoint_row_def insert_proxy_def find_proxy_def find_peer_def sample_sent_peers pinned_row_def
        shown_display_def lease_unexpired_def audit_def)
qed

lemma sample_carried_tables:
  "st_peers sample_carried = [lease_row ''bridge'' 1006 (Some \<lparr>an_runtime = Vivida, an_instance = ''w'', an_window = 7\<rparr>) 6
     (pinned_row ''p'' ''lab'' ''h2'' 5)]"
  "st_proxies sample_carried = [\<lparr>px_endpoint = ''x'', px_peer = ''p'', px_remote = ''remote'', px_display = None\<rparr>]"
  "st_attachments sample_carried = []"
  "st_endpoints sample_carried = st_endpoints sample_sent @ [reopen_row ''bridge'' 6 (proxy_endpoint_row ''x'' ''p'' None 6)]"
  by (simp_all add: sample_carried_def acquire_peer_lease_def live_peer_row_def sample_pinned_tables pinned_row_def
      held_by_other_def set_peers_def set_endpoints_def audit_def proxies_of_def saturating_add_def i64_max_def i64_min_def
      sample_sent_tables bind_row_def charge_row_def proxy_endpoint_row_def sample_pinned_attachments)

definition sample_got :: attached where
  "sample_got = \<lparr>ad_refs = [attachment_ref ''/in/f'' \<lparr>lf_path = ''/f'', lf_bytes = 2, lf_sha256 = ''d''\<rparr> (Some ''p'')],
     ad_copied = [(''lab'', ''/in/f'')]\<rparr>"

lemma sample_attach_eq: "sample_attach PeerRuntime = (fst (sample_attach PeerRuntime), Inr sample_got)"
proof -
  have allowed: "attach_allowed sample_carried (sample_agent ''a'' ''ia'')"
    by (simp add: attach_allowed_def policy_get_def find_endpoint_def sample_carried_tables sample_sent_tables bind_row_def
        charge_row_def policy_of_def default_policy_def)
  have way: "proxy_get sample_carried ''x'' = Inr \<lparr>px_endpoint = ''x'', px_peer = ''p'', px_remote = ''remote'', px_display = None\<rparr>"
    by (simp add: proxy_get_def find_proxy_def sample_carried_tables)
  have peer: "peer_by_id sample_carried ''p'' = Inr \<lparr>peer_id = ''p'', peer_name = ''lab'', peer_host = ''h2'', peer_is_trusted = False,
      peer_lease = Some \<lparr>ls_owner = ''bridge'', ls_expires = 1006, ls_anchor = Some \<lparr>an_runtime = Vivida, an_instance = ''w'', an_window = 7\<rparr>\<rparr>\<rparr>"
    by (simp add: peer_by_id_def live_peer_row_def sample_carried_tables lease_row_def pinned_row_def build_peer_def)
  have own: "own_instance sample_carried (sample_agent ''a'' ''ia'') = None"
    by (simp add: own_instance_def endpoint_get_def find_endpoint_def sample_carried_tables sample_sent_tables bind_row_def
        charge_row_def build_endpoint_def read_address_def sample_binding_def)
  show ?thesis
    by (simp add: sample_attach_def attach_files_def allowed way peer own sample_target_def carrier_def live_anchor_def is_live_def
        MAX_ATTACHMENTS_def read_file_def hash_file_def sample_files_def numeral_2_eq_2 DEFAULT_MAX_ATTACHMENT_BYTES_def
        anchored_at_def copy_one_def recorded_copy_def recorded_attachment_get_def sample_carried_tables drop_file_def
        check_reply_def member_of_def text_of_def path_ok_def MAX_PATH_BYTES_def looks_absolute_anywhere_def strip_prefix_def
        byte_class_defs record_attachment_def i64_max_def find_peer_def lease_row_def pinned_row_def add_copy_def
        nothing_attached_def sample_got_def audit_def)
qed




end
