(* ===== verification/Spec2Isabelle.thy ===== *)
theory Spec2Isabelle
  imports MeshAddress MeshIdentity MeshSelector MeshEnvelope MeshPolicy MeshCapability MeshWire MeshTime
    BridgeForward WatcherSafety FileAttach
begin

text \<open>
  \<^bold>\<open>The program.\<close> vvagent is a mailbox mesh for coding agents. Agents bind endpoints in a store
  (one SQLite file per host), send each other requests, responses and notices, and claim what they
  receive under a lease. Several processes share the file: every command is a short transaction. Two
  hosts are joined by a pair of bridge processes over a byte stream; each remote agent is stood for by
  a local proxy endpoint, whose mailbox is the outbox of the bridge. Three crates hold this:
  \<open>agent-mesh-core\<close> (wire types and pure decisions), \<open>agent-mesh-store\<close> (the store) and \<open>vvagent\<close> (the
  bridge, and the commands around the store).

  \<^bold>\<open>Where the code is.\<close> One theory per part, in the order the parts use each other:

  \<^item> \<open>MeshPrelude\<close>: errors and results, bytes of strings, decimal numbers, saturating 64-bit addition,
    the locales of machines (a step relation with an invariant; with an order that only advances).
  \<^item> \<open>MeshAddress\<close>: \<open>agent-mesh-core/src/address.rs\<close>. \<open>MeshIdentity\<close>, \<open>MeshSelector\<close>, \<open>MeshEnvelope\<close>,
    \<open>MeshPolicy\<close>: the sections of \<open>agent-mesh-core/src/lib.rs\<close> (identifiers and endpoints; selectors
    and \<open>resolve\<close>; messages, references and drafts; the gates). \<open>MeshCapability\<close>: \<open>capability.rs\<close>.
  \<^item> \<open>MeshWire\<close>: \<open>agent-mesh-core/src/bridge.rs\<close>: frames, their limits, the codec, the decoder.
  \<^item> \<open>StoreTables\<close>, \<open>StoreReads\<close>, \<open>StoreEndpoint\<close>, \<open>StoreSend\<close>, \<open>StoreReceive\<close>, \<open>StorePeers\<close>,
    \<open>StoreBridge\<close>, \<open>StoreActivation\<close>: \<open>agent-mesh-store/src/lib.rs\<close>. The record \<open>store\<close> has one
    list of rows per table. Each public method of \<open>Store\<close> is a function from the store to the store and
    a result; \<open>Inl\<close> is the error the method returns. What the transaction rolls back is the store given
    back unchanged; audit rows written before a refusal is committed stay, as in the code.
  \<^item> \<open>BridgeStream\<close>, \<open>BridgeSession\<close>: \<open>vvagent/src/bridge.rs\<close>: the reader thread, from the results of
    its reads to the items on the channel; and \<open>run\<close>, from the handshake to the release of the lease.

  \<^item> \<open>MeshTime\<close>: \<open>agent-mesh-core/src/time.rs\<close>. \<open>ProviderAdapter\<close>: \<open>vvagent/src/adapter.rs\<close>, what each
    adapter declares and does; the programs outside are the record \<open>world\<close>. \<open>LayoutReconcile\<close>:
    \<open>vvagent/src/reconcile.rs\<close>. \<open>Watcher\<close>: \<open>vvagent/src/watch.rs\<close>, the loop and its passes.
  \<^item> \<open>RemoteNaming\<close>: \<open>vvagent/src/remote.rs\<close>, from a remote selector to the proxy it names; other processes
    change the store between the polls of a question. \<open>FileAttach\<close>: \<open>vvagent/src/attach.rs\<close>; the file
    system and the drop client are the record \<open>outside_files\<close>.

  \<^bold>\<open>What is shown.\<close> \<open>StoreMachine\<close> collects every transaction of the store in one step relation
  \<open>txn\<close>. A store is reachable when any sequence of transactions, of any processes with any arguments
  and clocks, leads to it from the empty one.

  \<^item> \<open>StoreInvariant\<close>, \<open>StoreSafety\<close>, \<open>StoreProperties\<close>: keys and sequence numbers are unique, the
    pending counters are exact and bounded, messages keep their content and only move forward. Every
    transaction keeps these, so they are instances of the locale of advancing machines. \<open>StoreMail\<close>:
    idempotency keys are never forgotten, hence a send is committed at most once.
  \<^item> \<open>StorePeerSafety\<close>, \<open>StoreDirectory\<close>: peers, leases and proxies keep their keys, proxies are
    closed, peers are never relayed.
  \<^item> \<open>BridgeStream\<close>: the reader gives back the items that were encoded, however the carrier cuts the
    bytes, and the decoder stays failed and bounded after the first malformed frame.
  \<^item> \<open>BridgeSafety\<close>: every part of a session has an effect of a kind (a locale: a reflexive and
    transitive relation kept by the primitive effects). Its three instances say that a run of the
    bridge only makes transactions, that the window of deliveries in flight is kept, and that only
    valid frames are written. \<open>BridgeMail\<close>: a redelivery commits nothing. \<open>BridgeForward\<close>: answers
    settle only what is in flight, and the forwarding loop ends with nothing left to forward.
  \<^item> \<open>ProviderSafety\<close>: an agent is only woken through an established surface. \<open>LayoutReconcile\<close>: only
    addresses move. \<open>WatcherSafety\<close>: a watcher only makes transactions, and the turns it starts and the
    attempts it makes are bounded; \<open>Watcher\<close>: a body never reaches a command line.
  \<^item> \<open>RemoteNaming\<close>: a remote name leads to a proxy of the peer it names, asking ends, and the candidates
    a peer offers can be typed. \<open>FileAttach\<close>: copies are checked and are not made twice, and what was
    attached here is what a check finds.
  \<^item> The properties of the pure parts stand in their own theories: round trips of addresses and names,
    what \<open>resolve\<close> may return, the gates against the published rules, the limits of the wire.

  \<^bold>\<open>Bounds and fuel.\<close> The only loop with fuel is the one of \<open>forward_outbound\<close>; the fuel is one more
  than the number of messages, and \<open>forwarding_drains\<close> shows it is never used up. The other loops are
  structural or have a measure. Counters and times are 64-bit: additions of lifetimes and leases
  saturate as the code writes them, the rest stays far below the bound by the limits of the store and
  is kept in unbounded integers. Byte strings are lists of characters below 256.

  \<^bold>\<open>Assumptions.\<close> A clock is read once for each operation, frame or pass of the bridge. Generated
  identifiers are arguments; a clash with an existing key is the error the insert gives. SHA-256 and
  the JSON writer are arguments of the operations that use them; columns that hold JSON are kept as the
  values written (serde reads back what it wrote). A query without an order gives rows in the order of
  insertion. The texts of error messages are not modelled, except where a bridge tells them to a peer:
  there they are an argument. The carrier is the number of writes it still takes.

  \<^bold>\<open>Not modelled.\<close> Opening, migrating and protecting the SQLite file, \<open>tokens.rs\<close>, \<open>windows.rs\<close>: effects
  on the file system. \<open>main.rs\<close>, \<open>mcp.rs\<close> and the Python bindings: argument parsing, printing, hooks and
  JSON-RPC around the operations above. The processes an adapter runs and the HTTP it speaks are given by their outcomes.
\<close>

end
